theory Spec2Isabelle
  imports Main "HOL-Library.Word"
begin

section \<open>The fragment of LLVM IR that both passes read and write\<close>

text \<open>
  Both source files drive the LLVM builder through the Go bindings. The IR is modelled
  as data: types, values (constants, references to globals and functions, results of
  instructions) and instructions. A value carries its type, as an LLVM value does; a
  named struct type carries its name and its fields.
  \<open>NilValue\<close> is the zero \<open>llvm.Value\<close> of Go (a nil C pointer): it is what
  \<open>mod.NamedFunction\<close> returns for an unknown name and what a Go map of values
  returns for a missing key.
\<close>

datatype ltype =
    VoidTy
  | LabelTy
  | IntTy nat
  | PtrTy ltype
  | ArrayTy ltype int
  | StructTy "ltype list"
  | NamedTy string "ltype list"
  | FuncTy ltype "ltype list" bool

datatype opcode =
    Call | Ret | Switch | Store | Load | Alloca | BitCast | GetElementPtr
  | PtrToInt | InsertValue | ExtractValue | SExt

datatype val =
    NilValue
  | Undef ltype
  | CInt ltype int
  | CNull ltype
  | CStruct ltype "val list"
  | CBytes string
  | GlobalRef string ltype
  | FuncRef string ltype
  | CExpr opcode "val list" ltype
  | Reg nat ltype
  | Param string nat ltype
  | BlockRef string nat

fun typeOf :: "val \<Rightarrow> ltype" where
  "typeOf NilValue = VoidTy"
| "typeOf (Undef t) = t"
| "typeOf (CInt t n) = t"
| "typeOf (CNull t) = t"
| "typeOf (CStruct t vs) = t"
| "typeOf (CBytes bs) = ArrayTy (IntTy 8) (int (length bs))"
| "typeOf (GlobalRef n t) = t"
| "typeOf (FuncRef n t) = t"
| "typeOf (CExpr oc vs t) = t"
| "typeOf (Reg i t) = t"
| "typeOf (Param f i t) = t"
| "typeOf (BlockRef f i) = LabelTy"

fun ElementType :: "ltype \<Rightarrow> ltype" where
  "ElementType (PtrTy t) = t"
| "ElementType (ArrayTy t n) = t"
| "ElementType t = VoidTy"

fun IntTypeWidth :: "ltype \<Rightarrow> nat" where
  "IntTypeWidth (IntTy w) = w"
| "IntTypeWidth t = 0"

fun fieldType :: "ltype \<Rightarrow> nat \<Rightarrow> ltype" where
  "fieldType (StructTy ts) i = (if i < length ts then ts ! i else VoidTy)"
| "fieldType (NamedTy n ts) i = (if i < length ts then ts ! i else VoidTy)"
| "fieldType (ArrayTy t n) i = t"
| "fieldType t i = VoidTy"

text \<open>
  \<open>llvm.ConstInt(t, n, signExtend)\<close> takes a \<open>uint64\<close> and keeps the low bits that fit
  the type; the constant is stored by its signed value. \<open>llvm.ConstNull\<close> of an integer
  type is the integer constant 0.
\<close>

definition ConstInt :: "ltype \<Rightarrow> 64 word \<Rightarrow> bool \<Rightarrow> val" where
  "ConstInt t n signExtend =
     CInt t (signed_take_bit (IntTypeWidth t - 1) (if signExtend then sint n else uint n))"

definition ConstNull :: "ltype \<Rightarrow> val" where
  "ConstNull t = (case t of IntTy w \<Rightarrow> CInt t 0 | _ \<Rightarrow> CNull t)"

record inst =
  iid :: nat
  iop :: opcode
  operands :: "val list"
  indices :: "nat list"
  ity :: ltype
  iname :: string
  ialign :: int

text \<open>
  A call instruction keeps its arguments first and the called value last, as the LLVM
  C interface numbers them.
\<close>

definition CalledValue :: "inst \<Rightarrow> val" where
  "CalledValue i = (if operands i = [] then NilValue else last (operands i))"

definition callArgs :: "inst \<Rightarrow> val list" where
  "callArgs i = butlast (operands i)"

definition isCallTo :: "string \<Rightarrow> inst \<Rightarrow> bool" where
  "isCallTo fname i =
     (iop i = Call \<and> (case CalledValue i of FuncRef n t \<Rightarrow> n = fname | _ \<Rightarrow> False))"

definition isRuntimeCall :: "inst \<Rightarrow> bool" where
  "isRuntimeCall i =
     (iop i = Call \<and>
      (case CalledValue i of FuncRef n t \<Rightarrow> take 8 n = ''runtime.'' | _ \<Rightarrow> False))"

section \<open>Channel operation lowering (package compiler)\<close>

subsection \<open>The compiler context and the builder\<close>

text \<open>
  \<open>Compiler\<close> holds what the lowering reads from \<open>*Compiler\<close>: the integer types of
  the target, the data layout queries and the types of the runtime. The queries and
  the runtime's types are parameters of the model. \<open>TypeAllocSize\<close> is a \<open>uint64\<close>
  and \<open>ABITypeAlignment\<close> a Go \<open>int\<close>.
\<close>

record Compiler =
  intType :: ltype
  uintptrType :: ltype
  TypeAllocSize :: "ltype \<Rightarrow> 64 word"
  ABITypeAlignment :: "ltype \<Rightarrow> int"
  getLLVMRuntimeType :: "string \<Rightarrow> ltype"
  runtimeResultType :: "string \<Rightarrow> ltype"

definition i8ptrType :: ltype where
  "i8ptrType = PtrTy (IntTy 8)"

text \<open>
  The mutable state of one function's lowering: the instructions the builder has
  emitted so far, in the order of their creation (the result of the \<open>n\<close>-th one is
  \<open>Reg n\<close>), and the frame's side table \<open>selectRecvBuf\<close>, a Go map keyed by the
  identity of the \<open>*ssa.Select\<close> (\<open>None\<close> is the nil map).
\<close>

record cstate =
  insts :: "inst list"
  selectRecvBuf :: "(nat \<rightharpoonup> val) option"

definition emit ::
  "opcode \<Rightarrow> val list \<Rightarrow> nat list \<Rightarrow> ltype \<Rightarrow> string \<Rightarrow> cstate \<Rightarrow> val \<times> cstate" where
  "emit oc args idx ty nm s =
     (Reg (length (insts s)) ty,
      s\<lparr>insts := insts s @
          [\<lparr>iid = length (insts s), iop = oc, operands = args, indices = idx,
            ity = ty, iname = nm, ialign = 0\<rparr>]\<rparr>)"

definition CreateStore :: "val \<Rightarrow> val \<Rightarrow> cstate \<Rightarrow> cstate" where
  "CreateStore v p s = snd (emit Store [v, p] [] VoidTy [] s)"

definition CreateLoad :: "val \<Rightarrow> string \<Rightarrow> cstate \<Rightarrow> val \<times> cstate" where
  "CreateLoad p nm s = emit Load [p] [] (ElementType (typeOf p)) nm s"

definition CreateBitCast :: "val \<Rightarrow> ltype \<Rightarrow> string \<Rightarrow> cstate \<Rightarrow> val \<times> cstate" where
  "CreateBitCast v t nm s = emit BitCast [v] [] t nm s"

definition CreateSExt :: "val \<Rightarrow> ltype \<Rightarrow> string \<Rightarrow> cstate \<Rightarrow> val \<times> cstate" where
  "CreateSExt v t nm s = emit SExt [v] [] t nm s"

definition CreateInsertValue ::
  "val \<Rightarrow> val \<Rightarrow> nat \<Rightarrow> string \<Rightarrow> cstate \<Rightarrow> val \<times> cstate" where
  "CreateInsertValue agg v i nm s = emit InsertValue [agg, v] [i] (typeOf agg) nm s"

definition CreateExtractValue :: "val \<Rightarrow> nat \<Rightarrow> string \<Rightarrow> cstate \<Rightarrow> val \<times> cstate" where
  "CreateExtractValue agg i nm s =
     emit ExtractValue [agg] [i] (fieldType (typeOf agg) i) nm s"

fun gepType :: "ltype \<Rightarrow> val list \<Rightarrow> ltype" where
  "gepType (PtrTy (ArrayTy t n)) [i, j] = PtrTy t"
| "gepType t idx = t"

definition CreateGEP :: "val \<Rightarrow> val list \<Rightarrow> string \<Rightarrow> cstate \<Rightarrow> val \<times> cstate" where
  "CreateGEP p idx nm s = emit GetElementPtr (p # idx) [] (gepType (typeOf p) idx) nm s"

definition SetAlignment :: "val \<Rightarrow> int \<Rightarrow> cstate \<Rightarrow> cstate" where
  "SetAlignment v a s =
     (case v of
        Reg n t \<Rightarrow>
          (if n < length (insts s)
           then s\<lparr>insts := (insts s)[n := (insts s ! n)\<lparr>ialign := a\<rparr>]\<rparr>
           else s)
      | _ \<Rightarrow> s)"

subsection \<open>Helpers of the compiler that are not among the sources\<close>

definition lifetimeFnType :: ltype where
  "lifetimeFnType = PtrTy (FuncTy VoidTy [IntTy 64, i8ptrType] False)"

text \<open>Modelled from the spec: \<open>llvmutil.CreateEntryBlockAlloca\<close>, which is missing from
  the sources. The spec speaks of a fresh stack buffer matching the static type: one
  \<open>alloca\<close> of that type.\<close>

definition CreateEntryBlockAlloca :: "ltype \<Rightarrow> string \<Rightarrow> cstate \<Rightarrow> val \<times> cstate" where
  "CreateEntryBlockAlloca t nm s = emit Alloca [] [] (PtrTy t) nm s"

text \<open>Modelled from the spec: \<open>createTemporaryAlloca\<close>, which is missing from the
  sources. The spec's scoped stack buffer is a region whose validity is bounded by
  an explicit, bracketed span of the generated code: the buffer is allocated, its
  address is taken as a byte pointer, and its lifetime is opened here. The three
  results are the buffer, its byte pointer and its size.\<close>

definition createTemporaryAlloca ::
  "Compiler \<Rightarrow> ltype \<Rightarrow> string \<Rightarrow> cstate \<Rightarrow> (val \<times> val \<times> val) \<times> cstate" where
  "createTemporaryAlloca c t nm s =
     (let (alloca, s1) = CreateEntryBlockAlloca t nm s;
          (bitcast, s2) = CreateBitCast alloca i8ptrType (nm @ ''.bitcast'') s1;
          allocaSize = ConstInt (IntTy 64) (TypeAllocSize c t) False;
          (u, s3) = emit Call [allocaSize, bitcast, FuncRef ''llvm.lifetime.start.p0i8'' lifetimeFnType]
                      [] VoidTy [] s2
      in ((alloca, bitcast, allocaSize), s3))"

text \<open>Modelled from the spec: \<open>emitLifetimeEnd\<close>, which is missing from the sources.
  It closes the span that \<open>createTemporaryAlloca\<close> opened (the spec: the buffer's IR
  lifetime is ended explicitly).\<close>

definition emitLifetimeEnd :: "val \<Rightarrow> val \<Rightarrow> cstate \<Rightarrow> cstate" where
  "emitLifetimeEnd ptr allocaSize s =
     snd (emit Call [allocaSize, ptr, FuncRef ''llvm.lifetime.end.p0i8'' lifetimeFnType]
            [] VoidTy [] s)"

text \<open>Modelled from the spec: \<open>createRuntimeCall\<close>, which is missing from the sources.
  The spec's runtime call emitter takes the name of a runtime function and an
  argument list, emits one direct call and returns its result.\<close>

definition createRuntimeCall ::
  "Compiler \<Rightarrow> string \<Rightarrow> val list \<Rightarrow> string \<Rightarrow> cstate \<Rightarrow> val \<times> cstate" where
  "createRuntimeCall c fname args nm s =
     emit Call
       (args @ [FuncRef (''runtime.'' @ fname)
                  (PtrTy (FuncTy (runtimeResultType c fname) (map typeOf args) False))])
       [] (runtimeResultType c fname) nm s"

subsection \<open>The SSA instructions being lowered\<close>

text \<open>
  The lowering reads the SSA program through \<open>c.getValue\<close> and \<open>c.getLLVMType\<close>, which
  are not among the sources: each SSA operand is given here by the LLVM value
  and the LLVM type these two return for it.
\<close>

datatype ChanDir = SendRecv | SendOnly | RecvOnly

record SelectState =
  Dir :: ChanDir
  Chan :: val
  ChanElem :: ltype
  Send :: val

record Select =
  selectId :: nat
  States :: "SelectState list"
  Blocking :: bool
  selectType :: ltype

record Send =
  sendChan :: val
  sendX :: val
  sendXType :: ltype

datatype crash = Panic string

subsection \<open>emitChanSend\<close>

definition emitChanSend :: "Compiler \<Rightarrow> Send \<Rightarrow> cstate \<Rightarrow> cstate" where
  "emitChanSend c instr s =
     (let ch = sendChan instr;
          chanValue = sendX instr;
          valueType = sendXType instr;
          ((valueAlloca, valueAllocaCast, valueAllocaSize), s1) =
             createTemporaryAlloca c valueType ''chan.value'' s;
          s2 = CreateStore chanValue valueAlloca s1;
          (u, s3) = createRuntimeCall c ''chanSend'' [ch, valueAllocaCast] [] s2
      in emitLifetimeEnd valueAllocaCast valueAllocaSize s3)"

subsection \<open>emitSelect\<close>

definition chanSelectStateType :: "Compiler \<Rightarrow> ltype" where
  "chanSelectStateType c = getLLVMRuntimeType c ''chanSelectState''"

definition zero32 :: val where
  "zero32 = ConstInt (IntTy 32) 0 False"

text \<open>
  The first loop of \<open>emitSelect\<close> (\<open>for _, state := range expr.States\<close>): the
  accumulator is \<open>(recvbufSize, recvbufAlign, hasReceives, selectStates)\<close>. A direction
  that is neither receive nor send reaches \<open>panic("unreachable")\<close>.
\<close>

fun selectStatesLoop ::
  "Compiler \<Rightarrow> SelectState list \<Rightarrow> 64 word \<times> int \<times> bool \<times> val list \<Rightarrow> cstate \<Rightarrow>
     crash + ((64 word \<times> int \<times> bool \<times> val list) \<times> cstate)" where
  "selectStatesLoop c [] acc s = Inr (acc, s)"
| "selectStatesLoop c (state # rest) (recvbufSize, recvbufAlign, hasReceives, selectStates) s =
     (let ch = Chan state;
          (selectState, s1) = CreateInsertValue (ConstNull (chanSelectStateType c)) ch 0 [] s
      in case Dir state of
           RecvOnly \<Rightarrow>
             (let llvmType = ChanElem state;
                  allocSize = TypeAllocSize c llvmType;
                  recvbufSize' = (if allocSize > recvbufSize then allocSize else recvbufSize);
                  align = ABITypeAlignment c llvmType;
                  recvbufAlign' = (if align > recvbufAlign then align else recvbufAlign)
              in selectStatesLoop c rest
                   (recvbufSize', recvbufAlign', True, selectStates @ [selectState]) s1)
         | SendOnly \<Rightarrow>
             (let sendValue = Send state;
                  (alloca, s2) = CreateEntryBlockAlloca (typeOf sendValue) ''select.send.value'' s1;
                  s3 = CreateStore sendValue alloca s2;
                  (ptr, s4) = CreateBitCast alloca i8ptrType [] s3;
                  (selectState', s5) = CreateInsertValue selectState ptr 1 [] s4
              in selectStatesLoop c rest
                   (recvbufSize, recvbufAlign, hasReceives, selectStates @ [selectState']) s5)
         | SendRecv \<Rightarrow> Inl (Panic ''unreachable''))"

text \<open>Lines 136 to 146: the receive buffer, created only when \<open>hasReceives\<close>.\<close>

definition selectRecvbuf ::
  "Compiler \<Rightarrow> bool \<Rightarrow> 64 word \<Rightarrow> int \<Rightarrow> cstate \<Rightarrow> val \<times> cstate" where
  "selectRecvbuf c hasReceives recvbufSize recvbufAlign s =
     (if hasReceives then
        (let allocaType = ArrayTy (IntTy 8) (sint recvbufSize);
             ((recvbufAlloca, u1, u2), s1) =
                createTemporaryAlloca c allocaType ''select.recvbuf.alloca'' s;
             s2 = SetAlignment recvbufAlloca recvbufAlign s1
         in CreateGEP recvbufAlloca [zero32, zero32] ''select.recvbuf'' s2)
      else (Undef i8ptrType, s))"

text \<open>Lines 151 to 158: \<open>for i, state := range selectStates\<close>.\<close>

fun storeStatesLoop :: "val \<Rightarrow> nat \<Rightarrow> val list \<Rightarrow> cstate \<Rightarrow> cstate" where
  "storeStatesLoop statesAlloca i [] s = s"
| "storeStatesLoop statesAlloca i (state # rest) s =
     (let (gep, s1) = CreateGEP statesAlloca [zero32, ConstInt (IntTy 32) (of_nat i) False] [] s;
          s2 = CreateStore state gep s1
      in storeStatesLoop statesAlloca (Suc i) rest s2)"

text \<open>Lines 165 to 191: the call into the runtime.\<close>

definition selectRuntimeCall ::
  "Compiler \<Rightarrow> bool \<Rightarrow> val \<Rightarrow> val \<Rightarrow> nat \<Rightarrow> cstate \<Rightarrow> val \<times> cstate" where
  "selectRuntimeCall c blocking recvbuf statesPtr n s =
     (let statesLen = ConstInt (uintptrType c) (of_nat n) False
      in if blocking then
           (let chBlockAllocaType = ArrayTy (getLLVMRuntimeType c ''channelBlockedList'') (int n);
                ((chBlockAlloca, chBlockAllocaPtr, chBlockSize), s1) =
                   createTemporaryAlloca c chBlockAllocaType ''select.block.alloca'' s;
                chBlockLen = ConstInt (uintptrType c) (of_nat n) False;
                (chBlockPtr, s2) = CreateGEP chBlockAlloca [zero32, zero32] ''select.block'' s1;
                (results, s3) =
                   createRuntimeCall c ''chanSelect''
                     [recvbuf, statesPtr, statesLen, statesLen, chBlockPtr, chBlockLen, chBlockLen]
                     ''select.result'' s2
            in (results, emitLifetimeEnd chBlockAllocaPtr chBlockSize s3))
         else
           createRuntimeCall c ''tryChanSelect''
             [recvbuf, statesPtr, statesLen, statesLen] ''select.result'' s)"

definition recordRecvBuf :: "nat \<Rightarrow> val \<Rightarrow> cstate \<Rightarrow> cstate" where
  "recordRecvBuf key recvbuf s =
     s\<lparr>selectRecvBuf :=
         Some ((case selectRecvBuf s of None \<Rightarrow> Map.empty | Some m \<Rightarrow> m)(key \<mapsto> recvbuf))\<rparr>"

definition emitSelect :: "Compiler \<Rightarrow> Select \<Rightarrow> cstate \<Rightarrow> crash + (val \<times> cstate)" where
  "emitSelect c expr s =
     (if length (States expr) = 0 then
        (let llvmType = selectType expr
         in if Blocking expr then
              (let (u, s1) = createRuntimeCall c ''deadlock'' [] [] s
               in Inr (Undef llvmType, s1))
            else
              (let retval = Undef llvmType
               in Inr (CreateInsertValue retval
                         (ConstInt (intType c) 0xffffffffffffffff True) 0 [] s)))
      else
        (case selectStatesLoop c (States expr) (0, 0, False, []) s of
           Inl e \<Rightarrow> Inl e
         | Inr ((recvbufSize, recvbufAlign, hasReceives, selectStates), s1) \<Rightarrow>
             (let (recvbuf, s2) = selectRecvbuf c hasReceives recvbufSize recvbufAlign s1;
                  statesAllocaType =
                     ArrayTy (chanSelectStateType c) (int (length selectStates));
                  ((statesAlloca, statesI8, statesSize), s3) =
                     createTemporaryAlloca c statesAllocaType ''select.states.alloca'' s2;
                  s4 = storeStatesLoop statesAlloca 0 selectStates s3;
                  (statesPtr, s5) = CreateGEP statesAlloca [zero32, zero32] ''select.states'' s4;
                  (results, s6) =
                     selectRuntimeCall c (Blocking expr) recvbuf statesPtr (length selectStates) s5;
                  s7 = emitLifetimeEnd statesI8 statesSize s6
              in Inr (results, recordRecvBuf (selectId expr) recvbuf s7))))"

subsection \<open>getChanSelectResult\<close>

text \<open>
  An \<open>*ssa.Extract\<close>: \<open>Tuple\<close> is the select the tuple comes from (\<open>None\<close> when the
  tuple is not a \<open>*ssa.Select\<close>, where the type assertion panics), \<open>TupleValue\<close> what
  \<open>c.getValue\<close> returns for the tuple, and \<open>extractType\<close> the LLVM type of the
  extracted value. A Go map read of a missing key, or of a nil map, gives the zero
  value of the element type: here the zero \<open>llvm.Value\<close>.

  Line 234 hands what the map read gave to \<open>CreateBitCast\<close>. The builder reads the
  type of the value it casts: handed the zero \<open>llvm.Value\<close>, LLVM dereferences a null
  pointer and the compiler dies there, before any instruction is created. This is the
  one place in this file where the builder can be handed the zero value; everywhere
  else its operands come from \<open>c.getValue\<close> or from the builder itself.
\<close>

record Extract =
  Tuple :: "Select option"
  TupleValue :: val
  Index :: int
  extractType :: ltype

definition lookupRecvBuf :: "cstate \<Rightarrow> nat \<Rightarrow> val" where
  "lookupRecvBuf s key =
     (case selectRecvBuf s of
        None \<Rightarrow> NilValue
      | Some m \<Rightarrow> (case m key of None \<Rightarrow> NilValue | Some v \<Rightarrow> v))"

definition getChanSelectResult ::
  "Compiler \<Rightarrow> Extract \<Rightarrow> cstate \<Rightarrow> crash + (val \<times> cstate)" where
  "getChanSelectResult c expr s =
     (if Index expr = 0 then
        (let tuple = TupleValue expr;
             (index, s1) = CreateExtractValue tuple (nat (Index expr)) [] s
         in if IntTypeWidth (typeOf index) < IntTypeWidth (intType c)
            then Inr (CreateSExt index (intType c) [] s1)
            else Inr (index, s1))
      else if Index expr = 1 then
        (let tuple = TupleValue expr
         in Inr (CreateExtractValue tuple (nat (Index expr)) [] s))
      else
        (case Tuple expr of
           None \<Rightarrow> Inl (Panic ''interface conversion'')
         | Some sel \<Rightarrow>
             (let recvbuf = lookupRecvBuf s (selectId sel);
                  typ = PtrTy (extractType expr)
              in if recvbuf = NilValue then Inl (Panic ''nil llvm.Value in CreateBitCast'')
                 else
                   (let (ptr, s1) = CreateBitCast recvbuf typ [] s
                    in Inr (CreateLoad ptr [] s1)))))"

subsection \<open>The lowerings of one frame, one after the other\<close>

text \<open>
  What the compiler does in one frame between the lowering of a select and an
  extraction from it: it lowers other instructions, each in the state the previous
  one left. These are the channel operations of this file (a send, a select, an
  extraction from a select) and, for every other lowering, the instructions it adds
  through the builder. A crash ends the compilation.
\<close>

datatype chanOp =
    OpSend Send
  | OpSelect Select
  | OpExtract Extract
  | OpEmit opcode "val list" "nat list" ltype string

definition lowerOp :: "Compiler \<Rightarrow> chanOp \<Rightarrow> cstate \<Rightarrow> crash + cstate" where
  "lowerOp c operation s =
     (case operation of
        OpSend instr \<Rightarrow> Inr (emitChanSend c instr s)
      | OpSelect expr \<Rightarrow>
          (case emitSelect c expr s of Inl e \<Rightarrow> Inl e | Inr (v, s') \<Rightarrow> Inr s')
      | OpExtract expr \<Rightarrow>
          (case getChanSelectResult c expr s of Inl e \<Rightarrow> Inl e | Inr (v, s') \<Rightarrow> Inr s')
      | OpEmit oc args idx ty nm \<Rightarrow> Inr (snd (emit oc args idx ty nm s)))"

fun lowerOps :: "Compiler \<Rightarrow> chanOp list \<Rightarrow> cstate \<Rightarrow> crash + cstate" where
  "lowerOps c [] s = Inr s"
| "lowerOps c (operation # rest) s =
     (case lowerOp c operation s of Inl e \<Rightarrow> Inl e | Inr s' \<Rightarrow> lowerOps c rest s')"

subsection \<open>What a lowering has emitted\<close>

definition newInsts :: "cstate \<Rightarrow> cstate \<Rightarrow> inst list" where
  "newInsts s s' = drop (length (insts s)) (insts s')"

definition mkInst ::
  "nat \<Rightarrow> opcode \<Rightarrow> val list \<Rightarrow> nat list \<Rightarrow> ltype \<Rightarrow> string \<Rightarrow> inst" where
  "mkInst n oc args idx ty nm =
     \<lparr>iid = n, iop = oc, operands = args, indices = idx, ity = ty, iname = nm, ialign = 0\<rparr>"

definition isSelectCall :: "inst \<Rightarrow> bool" where
  "isSelectCall i =
     (isCallTo ''runtime.chanSelect'' i \<or> isCallTo ''runtime.tryChanSelect'' i)"

definition isRecvbufAlloca :: "inst \<Rightarrow> bool" where
  "isRecvbufAlloca i = (iop i = Alloca \<and> iname i = ''select.recvbuf.alloca'')"

definition recvElems :: "SelectState list \<Rightarrow> ltype list" where
  "recvElems sts = map ChanElem (filter (\<lambda>st. Dir st = RecvOnly) sts)"

definition quiet :: "inst list \<Rightarrow> bool" where
  "quiet new = (filter isSelectCall new = [] \<and> filter isRecvbufAlloca new = [])"

subsection \<open>A concrete target and a concrete select, for evaluation\<close>

definition exampleCompiler :: Compiler where
  "exampleCompiler =
     \<lparr>intType = IntTy 32, uintptrType = IntTy 32,
      TypeAllocSize = (\<lambda>t. case t of IntTy w \<Rightarrow> of_nat (w div 8) | _ \<Rightarrow> 4),
      ABITypeAlignment = (\<lambda>t. case t of IntTy w \<Rightarrow> int (w div 8) | _ \<Rightarrow> 4),
      getLLVMRuntimeType = (\<lambda>n. NamedTy n []),
      runtimeResultType = (\<lambda>n. StructTy [IntTy 32, IntTy 1])\<rparr>"

definition exampleState :: cstate where
  "exampleState = \<lparr>insts = [], selectRecvBuf = None\<rparr>"

definition exampleSelect :: Select where
  "exampleSelect =
     \<lparr>selectId = 7,
      States =
        [\<lparr>Dir = RecvOnly, Chan = Param ''f'' 0 i8ptrType, ChanElem = IntTy 64, Send = NilValue\<rparr>,
         \<lparr>Dir = SendOnly, Chan = Param ''f'' 1 i8ptrType, ChanElem = IntTy 32,
          Send = CInt (IntTy 32) 5\<rparr>,
         \<lparr>Dir = RecvOnly, Chan = Param ''f'' 2 i8ptrType, ChanElem = IntTy 16, Send = NilValue\<rparr>],
      Blocking = False,
      selectType = StructTy [IntTy 32, IntTy 1, IntTy 64, IntTy 16]\<rparr>"

definition exampleExtract :: Extract where
  "exampleExtract =
     \<lparr>Tuple = Some exampleSelect, TupleValue = Reg 0 (StructTy [IntTy 32, IntTy 1]),
      Index = 2, extractType = IntTy 64\<rparr>"

text \<open>
  What the frame lowers between \<open>exampleSelect\<close> and the extraction from it: another
  select, which only sends, a send, and the extraction of the select's chosen index.
\<close>

definition otherSelect :: Select where
  "otherSelect =
     \<lparr>selectId = 8,
      States =
        [\<lparr>Dir = SendOnly, Chan = Param ''f'' 3 i8ptrType, ChanElem = IntTy 8,
          Send = CInt (IntTy 8) 1\<rparr>],
      Blocking = False,
      selectType = StructTy [IntTy 32, IntTy 1]\<rparr>"

definition exampleOps :: "chanOp list" where
  "exampleOps =
     [OpSelect otherSelect,
      OpSend \<lparr>sendChan = Param ''f'' 1 i8ptrType, sendX = CInt (IntTy 32) 5,
              sendXType = IntTy 32\<rparr>,
      OpExtract \<lparr>Tuple = Some exampleSelect, TupleValue = Reg 15 (StructTy [IntTy 32, IntTy 1]),
                 Index = 0, extractType = IntTy 32\<rparr>]"

section \<open>Interrupt lowering (package transform)\<close>

subsection \<open>The module\<close>

text \<open>
  \<open>LowerInterrupts\<close> rewrites a whole LLVM module. The module is modelled by its
  functions (each with its basic blocks, a block being a name and its instructions),
  its global variables, the target triple, the named struct types and a counter that
  numbers new instructions. A basic block is referred to by its function and its
  position among the function's blocks.
\<close>

datatype linkage = ExternalLinkage | InternalLinkage

record func =
  fname :: string
  ftype :: ltype
  blocks :: "(string \<times> inst list) list"
  flinkage :: linkage
  unnamedAddr :: bool
  fsection :: string
  callConv :: nat
  fpos :: "string option"

record global =
  gname :: string
  gtype :: ltype
  ginit :: val
  gconst :: bool

record llmodule =
  funcs :: "func list"
  globs :: "global list"
  target :: string
  typeNames :: "(string \<times> ltype list) list"
  nextId :: nat

datatype error = ErrorAt val string

definition orCrash :: "'a option \<Rightarrow> ('a \<Rightarrow> crash + 'b) \<Rightarrow> crash + 'b" where
  "orCrash x f = (case x of None \<Rightarrow> Inl (Panic ''invalid use of the LLVM interface'') | Some a \<Rightarrow> f a)"

fun foldCrash :: "('s \<Rightarrow> 'a \<Rightarrow> crash + 's) \<Rightarrow> 'a list \<Rightarrow> 's \<Rightarrow> crash + 's" where
  "foldCrash f [] s = Inr s"
| "foldCrash f (x # xs) s = (case f s x of Inl c \<Rightarrow> Inl c | Inr s' \<Rightarrow> foldCrash f xs s')"

subsection \<open>Reading the module\<close>

definition lookupFunc :: "llmodule \<Rightarrow> string \<Rightarrow> func option" where
  "lookupFunc m n = find (\<lambda>f. fname f = n) (funcs m)"

definition lookupGlobal :: "llmodule \<Rightarrow> string \<Rightarrow> global option" where
  "lookupGlobal m n = find (\<lambda>g. gname g = n) (globs m)"

definition NamedFunction :: "llmodule \<Rightarrow> string \<Rightarrow> val" where
  "NamedFunction m n =
     (case lookupFunc m n of None \<Rightarrow> NilValue | Some f \<Rightarrow> FuncRef n (PtrTy (ftype f)))"

definition GetTypeByName :: "llmodule \<Rightarrow> string \<Rightarrow> ltype option" where
  "GetTypeByName m n = map_option (NamedTy n) (map_of (typeNames m) n)"

definition funcInsts :: "func \<Rightarrow> inst list" where
  "funcInsts f = concat (map snd (blocks f))"

definition allInsts :: "llmodule \<Rightarrow> inst list" where
  "allInsts m = concat (map funcInsts (funcs m))"

definition lookupInst :: "llmodule \<Rightarrow> nat \<Rightarrow> inst option" where
  "lookupInst m i = find (\<lambda>x. iid x = i) (allInsts m)"


definition IsACallInst :: "llmodule \<Rightarrow> val \<Rightarrow> bool" where
  "IsACallInst m v =
     (case v of
        Reg i t \<Rightarrow> (case lookupInst m i of Some x \<Rightarrow> iop x = Call | None \<Rightarrow> False)
      | _ \<Rightarrow> False)"

definition operandsOf :: "llmodule \<Rightarrow> val \<Rightarrow> val list" where
  "operandsOf m v =
     (case v of
        Reg i t \<Rightarrow> (case lookupInst m i of Some x \<Rightarrow> operands x | None \<Rightarrow> [])
      | CExpr oc vs t \<Rightarrow> vs
      | CStruct t vs \<Rightarrow> vs
      | _ \<Rightarrow> [])"

definition Operand :: "llmodule \<Rightarrow> val \<Rightarrow> nat \<Rightarrow> val option" where
  "Operand m v k = (if k < length (operandsOf m v) then Some (operandsOf m v ! k) else None)"

fun IsAConstant :: "val \<Rightarrow> bool" where
  "IsAConstant NilValue = False"
| "IsAConstant (Reg i t) = False"
| "IsAConstant (Param f i t) = False"
| "IsAConstant (BlockRef f i) = False"
| "IsAConstant v = True"

fun IsAConstantExpr :: "val \<Rightarrow> bool" where
  "IsAConstantExpr (CExpr oc vs t) = True"
| "IsAConstantExpr v = False"

fun Opcode :: "val \<Rightarrow> opcode option" where
  "Opcode (CExpr oc vs t) = Some oc"
| "Opcode v = None"

fun IsAGlobalValue :: "val \<Rightarrow> bool" where
  "IsAGlobalValue (GlobalRef n t) = True"
| "IsAGlobalValue (FuncRef n t) = True"
| "IsAGlobalValue v = False"


fun Initializer :: "llmodule \<Rightarrow> val \<Rightarrow> val option" where
  "Initializer m (GlobalRef n t) = map_option ginit (lookupGlobal m n)"
| "Initializer m v = None"

fun SExtValue :: "val \<Rightarrow> int option" where
  "SExtValue (CInt t n) = Some n"
| "SExtValue v = None"

text \<open>
  \<open>llvm.ConstExtractValue\<close> folds on a constant aggregate, on a zero initializer and
  on undef; on any other constant it builds a constant expression.
\<close>

fun extractField :: "val \<Rightarrow> nat \<Rightarrow> val" where
  "extractField (CStruct t vs) i = (if i < length vs then vs ! i else Undef VoidTy)"
| "extractField (CNull t) i = ConstNull (fieldType t i)"
| "extractField (Undef t) i = Undef (fieldType t i)"
| "extractField (CBytes bs) i =
     (if i < length bs then CInt (IntTy 8) (int (of_char (bs ! i))) else Undef VoidTy)"
| "extractField v i = CExpr ExtractValue [v, CInt (IntTy 32) (int i)] (fieldType (typeOf v) i)"

definition ConstExtractValue :: "val \<Rightarrow> nat list \<Rightarrow> val" where
  "ConstExtractValue v path = foldl extractField v path"

subsection \<open>Helpers of the pass that are not among the sources\<close>

fun subterms :: "val \<Rightarrow> val list" where
  "subterms (CStruct t vs) = CStruct t vs # concat (map subterms vs)"
| "subterms (CExpr oc vs t) = CExpr oc vs t # concat (map subterms vs)"
| "subterms v = [v]"

fun directOperands :: "val \<Rightarrow> val list" where
  "directOperands (CStruct t vs) = vs"
| "directOperands (CExpr oc vs t) = vs"
| "directOperands v = []"

definition moduleRoots :: "llmodule \<Rightarrow> val list" where
  "moduleRoots m = concat (map operands (allInsts m)) @ map ginit (globs m)"

definition constantsOf :: "llmodule \<Rightarrow> val list" where
  "constantsOf m = remdups (concat (map subterms (moduleRoots m)))"

text \<open>Modelled from the spec: \<open>getUses\<close> and \<open>hasUses\<close>, which are missing from the
  sources. The spec has the pass scan all calls to a pseudo-function and rewrite every
  remaining use of a descriptor global, uses that may be instructions or constant
  casts: the uses of a value are the instructions that have it as an operand, the
  constants (expressions and aggregates) that have it as an operand, and the globals
  it initializes, one entry for each operand that is the value. A nil value has no uses.\<close>

definition getUses :: "llmodule \<Rightarrow> val \<Rightarrow> val list" where
  "getUses m v =
     (if v = NilValue then []
      else concat (map (\<lambda>i. map (\<lambda>x. Reg (iid i) (ity i)) (filter (\<lambda>x. x = v) (operands i)))
                    (allInsts m))
         @ concat (map (\<lambda>c. map (\<lambda>x. c) (filter (\<lambda>x. x = v) (directOperands c)))
                    (constantsOf m))
         @ map (\<lambda>g. GlobalRef (gname g) (gtype g)) (filter (\<lambda>g. ginit g = v) (globs m)))"



text \<open>Modelled from the spec: \<open>getPosition\<close>, which is missing from the sources. The
  spec names the previous definition's location if known: the location is a field of
  the function.\<close>

definition getPosition :: "llmodule \<Rightarrow> val \<Rightarrow> string option" where
  "getPosition m fn =
     (case fn of FuncRef n t \<Rightarrow> (case lookupFunc m n of Some f \<Rightarrow> fpos f | None \<Rightarrow> None)
      | _ \<Rightarrow> None)"

text \<open>\<open>strconv.FormatInt(n, 10)\<close> of the Go library.\<close>

definition digitChar :: "nat \<Rightarrow> char" where
  "digitChar d = char_of (48 + d)"

fun digitsOf :: "nat \<Rightarrow> string" where
  "digitsOf n = (if n < 10 then [digitChar n] else digitsOf (n div 10) @ [digitChar (n mod 10)])"

declare digitsOf.simps [simp del]

definition FormatInt :: "int \<Rightarrow> string" where
  "FormatInt n = (if n < 0 then CHR ''-'' # digitsOf (nat (- n)) else digitsOf (nat n))"

subsection \<open>Writing the module\<close>

definition updFunc :: "string \<Rightarrow> (func \<Rightarrow> func) \<Rightarrow> llmodule \<Rightarrow> llmodule" where
  "updFunc n h m = m\<lparr>funcs := map (\<lambda>f. if fname f = n then h f else f) (funcs m)\<rparr>"

fun funcName :: "val \<Rightarrow> string" where
  "funcName (FuncRef n t) = n"
| "funcName v = []"

definition AddFunction :: "llmodule \<Rightarrow> string \<Rightarrow> ltype \<Rightarrow> val \<times> llmodule" where
  "AddFunction m n t =
     (FuncRef n (PtrTy t),
      m\<lparr>funcs := funcs m @
          [\<lparr>fname = n, ftype = t, blocks = [], flinkage = ExternalLinkage,
            unnamedAddr = False, fsection = [], callConv = 0, fpos = None\<rparr>]\<rparr>)"

definition SetUnnamedAddr :: "val \<Rightarrow> bool \<Rightarrow> llmodule \<Rightarrow> llmodule" where
  "SetUnnamedAddr fn b m = updFunc (funcName fn) (\<lambda>f. f\<lparr>unnamedAddr := b\<rparr>) m"

definition SetSection :: "val \<Rightarrow> string \<Rightarrow> llmodule \<Rightarrow> llmodule" where
  "SetSection fn s m = updFunc (funcName fn) (\<lambda>f. f\<lparr>fsection := s\<rparr>) m"

definition SetLinkage :: "val \<Rightarrow> linkage \<Rightarrow> llmodule \<Rightarrow> llmodule" where
  "SetLinkage fn l m = updFunc (funcName fn) (\<lambda>f. f\<lparr>flinkage := l\<rparr>) m"

definition SetFunctionCallConv :: "val \<Rightarrow> nat \<Rightarrow> llmodule \<Rightarrow> llmodule" where
  "SetFunctionCallConv fn cc m = updFunc (funcName fn) (\<lambda>f. f\<lparr>callConv := cc\<rparr>) m"

definition IsDeclaration :: "llmodule \<Rightarrow> val \<Rightarrow> bool" where
  "IsDeclaration m fn =
     (case lookupFunc m (funcName fn) of Some f \<Rightarrow> blocks f = [] | None \<Rightarrow> True)"

text \<open>\<open>fn.FirstBasicBlock().FirstInstruction()\<close>: nil when the first block is empty.\<close>

definition firstInstruction :: "llmodule \<Rightarrow> val \<Rightarrow> val" where
  "firstInstruction m fn =
     (case lookupFunc m (funcName fn) of
        Some f \<Rightarrow>
          (case blocks f of
             (bn, i # rest) # bs \<Rightarrow> Reg (iid i) (ity i)
           | _ \<Rightarrow> NilValue)
      | None \<Rightarrow> NilValue)"

definition AddBasicBlock :: "val \<Rightarrow> string \<Rightarrow> llmodule \<Rightarrow> val \<times> llmodule" where
  "AddBasicBlock fn bn m =
     (BlockRef (funcName fn)
        (case lookupFunc m (funcName fn) of Some f \<Rightarrow> length (blocks f) | None \<Rightarrow> 0),
      updFunc (funcName fn) (\<lambda>f. f\<lparr>blocks := blocks f @ [(bn, [])]\<rparr>) m)"

text \<open>
  The builder, with its insertion point at the end of a block: a new instruction
  takes the module's next number and is appended to the block.
\<close>

definition appendToBlock :: "nat \<Rightarrow> inst \<Rightarrow> func \<Rightarrow> func" where
  "appendToBlock k i f =
     (if k < length (blocks f)
      then f\<lparr>blocks := (blocks f)[k := (fst (blocks f ! k), snd (blocks f ! k) @ [i])]\<rparr>
      else f)"

definition buildAtEnd ::
  "val \<Rightarrow> opcode \<Rightarrow> val list \<Rightarrow> ltype \<Rightarrow> llmodule \<Rightarrow> val \<times> llmodule" where
  "buildAtEnd block oc args ty m =
     (case block of
        BlockRef fn k \<Rightarrow>
          (Reg (nextId m) ty,
           (updFunc fn
              (appendToBlock k
                 \<lparr>iid = nextId m, iop = oc, operands = args, indices = [], ity = ty,
                  iname = [], ialign = 0\<rparr>) m)\<lparr>nextId := Suc (nextId m)\<rparr>)
      | _ \<Rightarrow> (NilValue, m))"

fun returnType :: "ltype \<Rightarrow> ltype" where
  "returnType (FuncTy r ps va) = r"
| "returnType t = VoidTy"

definition CreateCall :: "val \<Rightarrow> val \<Rightarrow> val list \<Rightarrow> llmodule \<Rightarrow> val \<times> llmodule" where
  "CreateCall block fn args m =
     buildAtEnd block Call (args @ [fn]) (returnType (ElementType (typeOf fn))) m"

definition CreateRetVoid :: "val \<Rightarrow> llmodule \<Rightarrow> llmodule" where
  "CreateRetVoid block m = snd (buildAtEnd block Ret [] VoidTy m)"

definition CreateSwitch :: "val \<Rightarrow> val \<Rightarrow> val \<Rightarrow> llmodule \<Rightarrow> val \<times> llmodule" where
  "CreateSwitch block v elseBlock m = buildAtEnd block Switch [v, elseBlock] VoidTy m"

definition mapInsts :: "(inst \<Rightarrow> inst) \<Rightarrow> llmodule \<Rightarrow> llmodule" where
  "mapInsts h m =
     m\<lparr>funcs := map (\<lambda>f. f\<lparr>blocks := map (\<lambda>b. (fst b, map h (snd b))) (blocks f)\<rparr>) (funcs m)\<rparr>"

text \<open>\<open>sw.AddCase(onVal, dest)\<close> appends the pair to the switch instruction.\<close>

definition AddCase :: "val \<Rightarrow> val \<Rightarrow> val \<Rightarrow> llmodule \<Rightarrow> llmodule" where
  "AddCase sw onVal dest m =
     (case sw of
        Reg i t \<Rightarrow>
          mapInsts (\<lambda>x. if iid x = i then x\<lparr>operands := operands x @ [onVal, dest]\<rparr> else x) m
      | _ \<Rightarrow> m)"

fun substVal :: "val \<Rightarrow> val \<Rightarrow> val \<Rightarrow> val" where
  "substVal old new (CStruct t vs) =
     (if CStruct t vs = old then new else CStruct t (map (substVal old new) vs))"
| "substVal old new (CExpr oc vs t) =
     (if CExpr oc vs t = old then new else CExpr oc (map (substVal old new) vs) t)"
| "substVal old new v = (if v = old then new else v)"

text \<open>
  \<open>old.ReplaceAllUsesWith(new)\<close>: every operand of an instruction and every
  initializer has \<open>old\<close> replaced by \<open>new\<close>, also inside constants.
\<close>

definition ReplaceAllUsesWith :: "val \<Rightarrow> val \<Rightarrow> llmodule \<Rightarrow> llmodule" where
  "ReplaceAllUsesWith old new m =
     (mapInsts (\<lambda>x. x\<lparr>operands := map (substVal old new) (operands x)\<rparr>) m)
       \<lparr>globs := map (\<lambda>g. g\<lparr>ginit := substVal old new (ginit g)\<rparr>) (globs m)\<rparr>"


definition EraseFromParentAsGlobal :: "val \<Rightarrow> llmodule \<Rightarrow> llmodule" where
  "EraseFromParentAsGlobal v m =
     (case v of
        GlobalRef n t \<Rightarrow> m\<lparr>globs := filter (\<lambda>g. gname g \<noteq> n) (globs m)\<rparr>
      | _ \<Rightarrow> m)"

subsection \<open>LowerInterrupts, lines 28 to 63: the interrupt names\<close>


subsection \<open>LowerInterrupts, lines 91 to 226: the handler objects\<close>

text \<open>
  The variables of \<open>LowerInterrupts\<close> that the loop over the handler objects changes.
  \<open>softwareVector\<close> is a Go map: it is kept as a list of pairs with one pair for each
  key.
\<close>

record lowering =
  errs :: "error list"
  softwareVector :: "(int \<times> val) list"
  modl :: llmodule

definition mapSet :: "int \<Rightarrow> val \<Rightarrow> (int \<times> val) list \<Rightarrow> (int \<times> val) list" where
  "mapSet k v sv = filter (\<lambda>p. fst p \<noteq> k) sv @ [(k, v)]"

definition fnType :: ltype where
  "fnType = FuncTy VoidTy [] False"

definition nullptr :: val where
  "nullptr = ConstNull (PtrTy (IntTy 8))"

definition placeholderName :: "int \<Rightarrow> string" where
  "placeholderName n = ''runtime/interrupt.interruptHandler'' @ FormatInt n"

text \<open>
  Lines 96 to 117: the name of the handler for interrupt \<open>n\<close>, and whether it is
  software vectored. \<open>None\<close> is the branch that reports the missing name.
\<close>

definition resolveName :: "bool \<Rightarrow> (int \<rightharpoonup> string) \<Rightarrow> int \<Rightarrow> (string \<times> bool) option" where
  "resolveName hasSoftwareVectoring handlerNames n =
     (let name = (case handlerNames n of None \<Rightarrow> [] | Some s \<Rightarrow> s)
      in if name = [] then
           (if hasSoftwareVectoring then Some (placeholderName n, True) else None)
         else Some (name, False))"

text \<open>
  Lines 119 to 150: the context and the function pointer of the func value. The
  result is a crash, an error to report, or the pair. Inside the branch for a
  \<open>ptrtoint\<close> the code's inner variable \<open>global\<close> is the global of the func lowering.
\<close>

definition isFunctionPointer :: "val \<Rightarrow> bool" where
  "isFunctionPointer v =
     (case typeOf v of PtrTy (FuncTy r ps va) \<Rightarrow> True | _ \<Rightarrow> False)"

definition extractFuncValue ::
  "llmodule \<Rightarrow> val \<Rightarrow> val \<Rightarrow> crash + (error + (val \<times> val))" where
  "extractFuncValue m global initializer =
     (let handlerContext = ConstExtractValue initializer [0, 0];
          handlerFuncPtr = ConstExtractValue initializer [0, Suc 0];
          typeCheck = (\<lambda>fp.
            if \<not> isFunctionPointer fp then
              Inr (Inl (ErrorAt global ''internal error: unexpected LLVM types in func value''))
            else Inr (Inr (handlerContext, fp)))
      in if \<not> IsAConstant handlerContext \<or> \<not> IsAConstant handlerFuncPtr then
           Inr (Inl (ErrorAt global ''func value must be constant''))
         else if IsAConstantExpr handlerFuncPtr \<and> Opcode handlerFuncPtr = Some PtrToInt then
           orCrash (Operand m handlerFuncPtr 0) (\<lambda>global'.
           if \<not> IsAGlobalValue global' then
             Inr (Inl (ErrorAt global' ''internal error: expected a global for func lowering''))
           else
             orCrash (Initializer m global') (\<lambda>initializer'.
             if Some (typeOf initializer') \<noteq> GetTypeByName m ''runtime.funcValueWithSignature'' then
               Inr (Inl (ErrorAt global'
                           ''internal error: func lowering global has unexpected type''))
             else
               (let ptrtoint = ConstExtractValue initializer' [0]
                in if \<not> IsAConstantExpr ptrtoint \<or> Opcode ptrtoint \<noteq> Some PtrToInt then
                     Inr (Inl (ErrorAt global'
                        ''internal error: func lowering global has unexpected func ptr type''))
                   else orCrash (Operand m ptrtoint 0) typeCheck)))
         else typeCheck handlerFuncPtr)"

text \<open>
  Lines 152 to 180: the function of that name. \<open>Inr\<close> is the function to fill in (and
  the module, with the function added when there was none); \<open>Inl None\<close> is the silent
  \<open>continue\<close> for a handler that is already defined and identical; \<open>Inl (Some e)\<close> is a
  redeclaration to report.
\<close>

definition identicalHandler :: "llmodule \<Rightarrow> val \<Rightarrow> val \<Rightarrow> val \<Rightarrow> val \<Rightarrow> bool" where
  "identicalHandler m firstInst handlerFuncPtr num handlerContext =
     (IsACallInst m firstInst \<and> length (operandsOf m firstInst) = 4 \<and>
      last (operandsOf m firstInst) = handlerFuncPtr \<and>
      operandsOf m firstInst ! 0 = num \<and> operandsOf m firstInst ! 1 = handlerContext)"

definition existingHandler ::
  "llmodule \<Rightarrow> val \<Rightarrow> string \<Rightarrow> val \<Rightarrow> val \<Rightarrow> val \<Rightarrow> error option + (val \<times> llmodule)" where
  "existingHandler m global name num handlerContext handlerFuncPtr =
     (let fn = NamedFunction m name
      in if fn = NilValue then Inr (AddFunction m name fnType)
         else if ElementType (typeOf fn) \<noteq> fnType then
           Inl (Some (ErrorAt global (name @ '' redeclared with a different signature'')))
         else if \<not> IsDeclaration m fn then
           (if identicalHandler m (firstInstruction m fn) handlerFuncPtr num handlerContext
            then Inl None
            else Inl (Some (ErrorAt global
                   (name @ '' redeclared in this program'' @
                    (case getPosition m fn of
                       Some pos \<Rightarrow> [CHR 0x0A, CHR 0x09] @ ''previous declaration at '' @ pos
                     | None \<Rightarrow> [])))))
         else Inr (fn, m))"

text \<open>Lines 214 to 220: the loop over the uses of the handler object.\<close>

fun rewriteUses :: "val \<Rightarrow> val \<Rightarrow> val list \<Rightarrow> error list \<times> llmodule \<Rightarrow> error list \<times> llmodule" where
  "rewriteUses global num [] st = st"
| "rewriteUses global num (user # rest) (es, m) =
     (if \<not> IsAConstantExpr user \<or> Opcode user \<noteq> Some PtrToInt then
        rewriteUses global num rest
          (es @ [ErrorAt global ''internal error: expected a ptrtoint''], m)
      else rewriteUses global num rest (es, ReplaceAllUsesWith user num m))"

text \<open>Lines 182 to 208: the wrapper function is filled in.\<close>

definition fillHandler ::
  "val \<Rightarrow> string \<Rightarrow> bool \<Rightarrow> val \<Rightarrow> val \<Rightarrow> val \<Rightarrow> llmodule \<Rightarrow> llmodule" where
  "fillHandler fn name isSoftwareVectored num handlerContext handlerFuncPtr m =
     (let m1 = SetUnnamedAddr fn True m;
          m2 = SetSection fn (''.text.'' @ name) m1;
          m3 = (if isSoftwareVectored then SetLinkage fn InternalLinkage m2 else m2);
          (entryBlock, m4) = AddBasicBlock fn ''entry'' m3;
          m5 = (if take 3 (target m4) = ''avr'' then SetFunctionCallConv fn 85 m4 else m4);
          (u, m6) = CreateCall entryBlock handlerFuncPtr [num, handlerContext, nullptr] m5
      in CreateRetVoid entryBlock m6)"

text \<open>
  Lines 182 to 226: the wrapper function is filled in and recorded in
  \<open>softwareVector\<close> when it is software vectored, the uses of the handler object are
  rewritten, and the handler object is removed.
\<close>

definition createHandler ::
  "lowering \<Rightarrow> val \<Rightarrow> string \<Rightarrow> bool \<Rightarrow> int \<Rightarrow> val \<Rightarrow> val \<Rightarrow> val \<Rightarrow> val \<Rightarrow> llmodule \<Rightarrow>
     lowering" where
  "createHandler st global name isSoftwareVectored n num handlerContext handlerFuncPtr fn m =
     (let sv = (if isSoftwareVectored then mapSet n fn (softwareVector st)
                else softwareVector st);
          m7 = fillHandler fn name isSoftwareVectored num handlerContext handlerFuncPtr m;
          (es, m8) = rewriteUses global num (getUses m7 global) (errs st, m7);
          m9 = EraseFromParentAsGlobal global m8
      in \<lparr>errs = es, softwareVector = sv, modl = m9\<rparr>)"

text \<open>The body of the loop over the handler objects.\<close>

definition lowerHandler ::
  "bool \<Rightarrow> (int \<rightharpoonup> string) \<Rightarrow> lowering \<Rightarrow> val \<Rightarrow> crash + lowering" where
  "lowerHandler hasSoftwareVectoring handlerNames st global =
     orCrash (Initializer (modl st) global) (\<lambda>initializer.
     (let num = ConstExtractValue initializer [Suc 0, 0]
      in orCrash (SExtValue num) (\<lambda>n.
         case resolveName hasSoftwareVectoring handlerNames n of
           None \<Rightarrow>
             Inr (st\<lparr>errs := errs st @
                    [ErrorAt global (''cannot find interrupt name for number '' @ FormatInt n)]\<rparr>)
         | Some (name, isSoftwareVectored) \<Rightarrow>
             (case extractFuncValue (modl st) global initializer of
                Inl c \<Rightarrow> Inl c
              | Inr (Inl e) \<Rightarrow> Inr (st\<lparr>errs := errs st @ [e]\<rparr>)
              | Inr (Inr (handlerContext, handlerFuncPtr)) \<Rightarrow>
                  (case existingHandler (modl st) global name num handlerContext handlerFuncPtr of
                     Inl None \<Rightarrow> Inr st
                   | Inl (Some e) \<Rightarrow> Inr (st\<lparr>errs := errs st @ [e]\<rparr>)
                   | Inr (fn, m) \<Rightarrow>
                       Inr (createHandler st global name isSoftwareVectored n num
                              handlerContext handlerFuncPtr fn m))))))"

subsection \<open>LowerInterrupts, lines 228 to 276: the dispatcher\<close>

text \<open>The body of the loop over the sorted interrupt numbers.\<close>

definition dispatchCase ::
  "val \<Rightarrow> val \<Rightarrow> val \<Rightarrow> (int \<times> val) list \<Rightarrow> llmodule \<Rightarrow> int \<Rightarrow> crash + llmodule" where
  "dispatchCase dispatcher interruptID sw sv m ident =
     (let (block, m1) = AddBasicBlock dispatcher (''interrupt'' @ FormatInt ident) m
      in orCrash (map_of sv ident) (\<lambda>handler.
         (let (u, m2) = CreateCall block handler [] m1;
              m3 = CreateRetVoid block m2
          in Inr (AddCase sw (ConstInt (typeOf interruptID) (word_of_int ident) True) block m3))))"

fun paramOf :: "val \<Rightarrow> nat \<Rightarrow> val option" where
  "paramOf (FuncRef n (PtrTy (FuncTy r ps va))) k =
     (if k < length ps then Some (Param n k (ps ! k)) else None)"
| "paramOf v k = None"

definition createDispatcher :: "(int \<times> val) list \<Rightarrow> llmodule \<Rightarrow> crash + llmodule" where
  "createDispatcher sv m =
     (let ids = sort (remdups (map fst sv));
          dispatcher = NamedFunction m ''runtime.callInterruptHandler''
      in if dispatcher = NilValue then Inl (Panic ''nil function'')
         else
           (let (entryBlock, m1) = AddBasicBlock dispatcher ''entry'' m;
                (defaultBlock, m2) = AddBasicBlock dispatcher ''default'' m1
            in orCrash (paramOf dispatcher 0) (\<lambda>interruptID.
               (let (sw, m3) = CreateSwitch entryBlock interruptID defaultBlock m2
                in case foldCrash (dispatchCase dispatcher interruptID sw sv) ids m3 of
                     Inl c \<Rightarrow> Inl c
                   | Inr m4 \<Rightarrow>
                       (let m5 = CreateRetVoid defaultBlock m4;
                            m6 = SetLinkage dispatcher InternalLinkage m5
                        in Inr (SetUnnamedAddr dispatcher True m6))))))"

subsection \<open>LowerInterrupts, lines 278 to 290: the calls that keep interrupts alive\<close>


subsection \<open>LowerInterrupts\<close>



subsection \<open>Concrete modules, for evaluation\<close>

definition handlerPtrType :: ltype where
  "handlerPtrType = PtrTy (FuncTy VoidTy [IntTy 32, i8ptrType, i8ptrType] False)"

definition funcValueType :: ltype where
  "funcValueType = StructTy [i8ptrType, handlerPtrType]"

definition handleFields :: "ltype list" where
  "handleFields = [funcValueType, StructTy [IntTy 32]]"

definition handleType :: ltype where
  "handleType = NamedTy ''runtime/interrupt.handle'' handleFields"

text \<open>A handler object \<open>{ {context, function}, {number} }\<close> with a nil context.\<close>

definition descriptor :: "string \<Rightarrow> int \<Rightarrow> string \<Rightarrow> global" where
  "descriptor name num handler =
     \<lparr>gname = name, gtype = PtrTy handleType,
      ginit = CStruct handleType
                [CStruct funcValueType [CNull i8ptrType, FuncRef handler handlerPtrType],
                 CStruct (StructTy [IntTy 32]) [CInt (IntTy 32) num]],
      gconst = True\<rparr>"

definition funcDecl :: "string \<Rightarrow> ltype \<Rightarrow> func" where
  "funcDecl name ty =
     \<lparr>fname = name, ftype = ty, blocks = [], flinkage = ExternalLinkage, unnamedAddr = False,
      fsection = [], callConv = 0, fpos = None\<rparr>"

definition plainInst :: "nat \<Rightarrow> opcode \<Rightarrow> val list \<Rightarrow> ltype \<Rightarrow> inst" where
  "plainInst i oc args ty =
     \<lparr>iid = i, iop = oc, operands = args, indices = [], ity = ty, iname = [], ialign = 0\<rparr>"

definition lowState :: "llmodule \<Rightarrow> lowering" where
  "lowState m = \<lparr>errs = [], softwareVector = [], modl = m\<rparr>"

definition theTypes :: "(string \<times> ltype list) list" where
  "theTypes = [(''runtime/interrupt.handle'', handleFields)]"

text \<open>
  Interrupt 3 is named \<open>UART_IRQ\<close>. In \<open>tripleModule\<close> there are three handler objects
  for it and no function yet: \<open>a\<close> and \<open>b\<close> register the same function \<open>h\<close> with the same
  context, \<open>c\<close> registers another function \<open>k\<close>. In \<open>clashModule\<close> a function of that
  name exists with another signature.
\<close>

definition uartNames :: "int \<rightharpoonup> string" where
  "uartNames = [3 \<mapsto> ''UART_IRQ'']"

definition tripleModule :: llmodule where
  "tripleModule =
     \<lparr>funcs = [],
      globs = [descriptor ''a'' 3 ''h'', descriptor ''b'' 3 ''h'', descriptor ''c'' 3 ''k''],
      target = ''thumbv7em'', typeNames = theTypes, nextId = 0\<rparr>"

definition clashModule :: llmodule where
  "clashModule =
     \<lparr>funcs = [funcDecl ''UART_IRQ'' (FuncTy VoidTy [IntTy 32] False)],
      globs = [descriptor ''a'' 3 ''h''],
      target = ''thumbv7em'', typeNames = theTypes, nextId = 0\<rparr>"

text \<open>
  A module with one handler object \<open>a\<close> for interrupt 3, which a store instruction
  uses directly, not through a \<open>ptrtoint\<close>.
\<close>

definition storeModule :: llmodule where
  "storeModule =
     \<lparr>funcs = [(funcDecl ''main'' fnType)
                 \<lparr>blocks :=
                    [(''entry'',
                      [plainInst 0 Store
                         [GlobalRef ''a'' (PtrTy handleType), Param ''main'' 0 i8ptrType] VoidTy])]\<rparr>],
      globs = [descriptor ''a'' 3 ''h''],
      target = ''thumbv7em'', typeNames = theTypes, nextId = 1\<rparr>"



text \<open>
  A module that declares the dispatcher, and a software vector table with wrappers
  recorded for the interrupts 3, 7 and 1, in this order.
\<close>

definition i32 :: ltype where
  "i32 = IntTy 32"

definition dispatcherType :: ltype where
  "dispatcherType = FuncTy VoidTy [i32] False"

definition vectorModule :: llmodule where
  "vectorModule =
     \<lparr>funcs = [funcDecl ''runtime.callInterruptHandler'' dispatcherType], globs = [],
      target = ''riscv32'', typeNames = theTypes, nextId = 0\<rparr>"

definition vectorTable :: "(int \<times> val) list" where
  "vectorTable =
     [(3, FuncRef ''runtime/interrupt.interruptHandler3'' (PtrTy fnType)),
      (7, FuncRef ''runtime/interrupt.interruptHandler7'' (PtrTy fnType)),
      (1, FuncRef ''runtime/interrupt.interruptHandler1'' (PtrTy fnType))]"




subsection \<open>Reading a decimal numeral back\<close>

definition undigits :: "string \<Rightarrow> nat" where
  "undigits s = foldl (\<lambda>a c. 10 * a + (of_char c - 48)) 0 s"

subsection \<open>Notions used to state what the pass leaves behind\<close>

text \<open>The wrapper function as lines 182 to 208 leave it.\<close>

definition filled ::
  "string \<Rightarrow> bool \<Rightarrow> val \<Rightarrow> val \<Rightarrow> val \<Rightarrow> llmodule \<Rightarrow> func \<Rightarrow> func" where
  "filled name isSV num ctx fp m f =
     f\<lparr>unnamedAddr := True, fsection := ''.text.'' @ name,
       flinkage := (if isSV then InternalLinkage else flinkage f),
       callConv := (if take 3 (target m) = ''avr'' then 85 else callConv f),
       blocks := blocks f @
         [(''entry'',
           [\<lparr>iid = nextId m, iop = Call, operands = [num, ctx, nullptr, fp], indices = [],
             ity = returnType (ElementType (typeOf fp)), iname = [], ialign = 0\<rparr>,
            \<lparr>iid = Suc (nextId m), iop = Ret, operands = [], indices = [], ity = VoidTy,
             iname = [], ialign = 0\<rparr>])]\<rparr>"

definition keeps :: "(func \<Rightarrow> func) \<Rightarrow> bool" where
  "keeps h = (\<forall>f. fname (h f) = fname f \<and> ftype (h f) = ftype f \<and>
                  flinkage (h f) = flinkage f \<and> unnamedAddr (h f) = unnamedAddr f \<and>
                  fsection (h f) = fsection f \<and> callConv (h f) = callConv f \<and>
                  fpos (h f) = fpos f \<and>
                  map fst (blocks (h f)) = map fst (blocks f))"

subsection \<open>The dispatcher as lines 240 to 276 build it\<close>

definition dispatcherName :: string where
  "dispatcherName = ''runtime.callInterruptHandler''"

definition instMap :: "(inst \<Rightarrow> inst) \<Rightarrow> func \<Rightarrow> func" where
  "instMap h f = f\<lparr>blocks := map (\<lambda>b. (fst b, map h (snd b))) (blocks f)\<rparr>"

definition addCaseTo :: "nat \<Rightarrow> val \<Rightarrow> val \<Rightarrow> inst \<Rightarrow> inst" where
  "addCaseTo i onVal dest x =
     (if iid x = i then x\<lparr>operands := operands x @ [onVal, dest]\<rparr> else x)"

definition switchInst :: "nat \<Rightarrow> val list \<Rightarrow> inst" where
  "switchInst N ops = plainInst N Switch ops VoidTy"

text \<open>The block of one case: a call of the wrapper recorded for the number, then a return.\<close>

definition caseBlock :: "(int \<times> val) list \<Rightarrow> nat \<Rightarrow> int \<Rightarrow> string \<times> inst list" where
  "caseBlock sv i ident =
     (''interrupt'' @ FormatInt ident,
      [plainInst i Call [the (map_of sv ident)]
         (returnType (ElementType (typeOf (the (map_of sv ident))))),
       plainInst (Suc i) Ret [] VoidTy])"

fun caseBlocks :: "(int \<times> val) list \<Rightarrow> nat \<Rightarrow> int list \<Rightarrow> (string \<times> inst list) list" where
  "caseBlocks sv i [] = []"
| "caseBlocks sv i (ident # ids) = caseBlock sv i ident # caseBlocks sv (Suc (Suc i)) ids"

text \<open>The operands that the cases add to the switch: the number, then its block.\<close>

fun caseOperands :: "ltype \<Rightarrow> string \<Rightarrow> nat \<Rightarrow> int list \<Rightarrow> val list" where
  "caseOperands ty d k [] = []"
| "caseOperands ty d k (ident # ids) =
     ConstInt ty (word_of_int ident) True # BlockRef d k # caseOperands ty d (Suc k) ids"

subsection \<open>What a run may change\<close>

definition instIds :: "llmodule \<Rightarrow> nat set" where
  "instIds m = iid ` set (allInsts m)"

definition gsig :: "llmodule \<Rightarrow> (string \<times> ltype) set" where
  "gsig m = (\<lambda>g. (gname g, gtype g)) ` set (globs m)"

text \<open>
  From \<open>m\<close> to \<open>m'\<close> the counter has not gone back, every instruction of \<open>m'\<close> was
  in \<open>m\<close> or carries a number that was free in \<open>m\<close>, the named types are the same,
  and no global has been added or has changed its type.
\<close>

definition evolves :: "llmodule \<Rightarrow> llmodule \<Rightarrow> bool" where
  "evolves m m' =
     (nextId m \<le> nextId m' \<and> (\<forall>i\<in>instIds m'. i \<in> instIds m \<or> nextId m \<le> i) \<and>
      typeNames m' = typeNames m \<and> gsig m' \<subseteq> gsig m)"

definition eraseIds :: "nat set \<Rightarrow> llmodule \<Rightarrow> llmodule" where
  "eraseIds J m =
     m\<lparr>funcs := map (\<lambda>f. f\<lparr>blocks := map (\<lambda>b. (fst b, filter (\<lambda>x. iid x \<notin> J) (snd b)))
                                       (blocks f)\<rparr>) (funcs m)\<rparr>"



subsection \<open>Rewriting the operands of every instruction\<close>

definition substInst :: "(val \<Rightarrow> val) \<Rightarrow> inst \<Rightarrow> inst" where
  "substInst \<sigma> x = x\<lparr>operands := map \<sigma> (operands x)\<rparr>"

text \<open>The two instructions of a wrapper: the forwarding call and the return.\<close>

definition forwardCall :: "nat \<Rightarrow> val \<Rightarrow> val \<Rightarrow> val \<Rightarrow> inst" where
  "forwardCall k num ctx fp =
     plainInst k Call [num, ctx, nullptr, fp] (returnType (ElementType (typeOf fp)))"

definition wrapperBody :: "nat \<Rightarrow> val \<Rightarrow> val \<Rightarrow> val \<Rightarrow> (string \<times> inst list) list" where
  "wrapperBody k num ctx fp =
     [(''entry'', [forwardCall k num ctx fp, plainInst (Suc k) Ret [] VoidTy])]"

section \<open>Properties of the channel lowering\<close>

subsection \<open>The instructions each helper appends\<close>

lemma emit_eq:
  "emit oc args idx ty nm s =
     (Reg (length (insts s)) ty,
      s\<lparr>insts := insts s @ [mkInst (length (insts s)) oc args idx ty nm]\<rparr>)"
  by (simp add: emit_def mkInst_def)

lemma quiet_Nil: "quiet []" by (simp add: quiet_def)
lemma quiet_append: "quiet (xs @ ys) = (quiet xs \<and> quiet ys)" by (auto simp: quiet_def)

lemma quiet_Cons:
  "quiet (x # xs) = (\<not> isSelectCall x \<and> \<not> isRecvbufAlloca x \<and> quiet xs)"
  by (auto simp: quiet_def)

lemma isSelectCall_mkInst:
  "isSelectCall (mkInst n oc args idx ty nm) =
     (oc = Call \<and> args \<noteq> [] \<and>
      (\<exists>t. last args = FuncRef ''runtime.chanSelect'' t \<or> last args = FuncRef ''runtime.tryChanSelect'' t))"
  by (auto simp: isSelectCall_def isCallTo_def mkInst_def CalledValue_def split: val.splits)

lemma isRecvbufAlloca_mkInst:
  "isRecvbufAlloca (mkInst n oc args idx ty nm) = (oc = Alloca \<and> nm = ''select.recvbuf.alloca'')"
  by (simp add: isRecvbufAlloca_def mkInst_def)

lemma selectStatesLoop_insts:
  "selectStatesLoop c sts acc s = Inr (acc', s') \<Longrightarrow>
     \<exists>new. insts s' = insts s @ new \<and> quiet new \<and> selectRecvBuf s' = selectRecvBuf s"
proof (induction sts arbitrary: acc s)
  case Nil
  then show ?case by (auto simp: quiet_Nil)
next
  case (Cons st rest)
  obtain sz al hr ss where acc: "acc = (sz, al, hr, ss)" by (cases acc) auto
  show ?case
  proof (cases "Dir st")
    case SendRecv
    with Cons.prems acc show ?thesis
      by (simp add: CreateInsertValue_def emit_eq Let_def)
  next
    case RecvOnly
    with Cons.prems acc obtain acc1 s1 where
      step: "selectStatesLoop c rest acc1 s1 = Inr (acc', s')" and
      s1: "insts s1 = insts s @ [mkInst (length (insts s)) InsertValue
              [ConstNull (chanSelectStateType c), Chan st] [0] (typeOf (ConstNull (chanSelectStateType c))) []]"
          "selectRecvBuf s1 = selectRecvBuf s"
      by (simp add: CreateInsertValue_def emit_eq Let_def)
    from Cons.IH[OF step] obtain new where
      "insts s' = insts s1 @ new" "quiet new" "selectRecvBuf s' = selectRecvBuf s1" by blast
    with s1 show ?thesis
      by (auto simp: quiet_Cons isSelectCall_mkInst isRecvbufAlloca_mkInst)
  next
    case SendOnly
    with Cons.prems acc obtain acc1 s1 new1 where
      step: "selectStatesLoop c rest acc1 s1 = Inr (acc', s')" and
      s1: "insts s1 = insts s @ new1" "quiet new1" "selectRecvBuf s1 = selectRecvBuf s"
      by (simp add: CreateInsertValue_def CreateEntryBlockAlloca_def CreateStore_def
          CreateBitCast_def emit_eq Let_def quiet_Cons quiet_Nil isSelectCall_mkInst isRecvbufAlloca_mkInst)
    from Cons.IH[OF step] obtain new where
      "insts s' = insts s1 @ new" "quiet new" "selectRecvBuf s' = selectRecvBuf s1" by blast
    with s1 show ?thesis
      by (auto simp: quiet_append)
  qed
qed


lemma Max_insert_max:
  fixes x :: "'a::linorder"
  assumes "finite S"
  shows "Max (insert (max x y) S) = Max (insert x (insert y S))"
proof (cases "S = {}")
  case True
  then show ?thesis by (simp add: max.commute)
next
  case False
  with assms show ?thesis by (simp add: max.assoc)
qed

lemma if_gt_max: "(if (a::'a::linorder) > b then a else b) = max b a"
  by (auto simp: max_def)

lemma selectStatesLoop_acc:
  "selectStatesLoop c sts (sz, al, hr, ss) s = Inr ((sz', al', hr', ss'), s') \<Longrightarrow>
     sz' = Max (insert sz (TypeAllocSize c ` set (recvElems sts))) \<and>
     al' = Max (insert al (ABITypeAlignment c ` set (recvElems sts))) \<and>
     hr' = (hr \<or> recvElems sts \<noteq> []) \<and>
     length ss' = length ss + length sts"
proof (induction sts arbitrary: sz al hr ss s)
  case Nil
  then show ?case by (simp add: recvElems_def)
next
  case (Cons st rest)
  show ?case
  proof (cases "Dir st")
    case SendRecv
    with Cons.prems show ?thesis
      by (simp add: CreateInsertValue_def emit_eq Let_def)
  next
    case RecvOnly
    let ?a = "TypeAllocSize c (ChanElem st)"
    let ?b = "ABITypeAlignment c (ChanElem st)"
    from RecvOnly Cons.prems obtain s1 sel where
      step: "selectStatesLoop c rest (max sz ?a, max al ?b, True, ss @ [sel]) s1
               = Inr ((sz', al', hr', ss'), s')"
      by (simp add: CreateInsertValue_def emit_eq Let_def if_gt_max)
    from Cons.IH[OF step] RecvOnly show ?thesis
      by (simp add: recvElems_def Max_insert_max)
  next
    case SendOnly
    with Cons.prems obtain s1 sel where
      step: "selectStatesLoop c rest (sz, al, hr, ss @ [sel]) s1 = Inr ((sz', al', hr', ss'), s')"
      by (simp add: CreateInsertValue_def CreateEntryBlockAlloca_def CreateStore_def
          CreateBitCast_def emit_eq Let_def)
    from Cons.IH[OF step] SendOnly show ?thesis
      by (simp add: recvElems_def)
  qed
qed

lemma storeStatesLoop_insts:
  "\<exists>new. insts (storeStatesLoop a i ss s) = insts s @ new \<and> quiet new \<and>
         selectRecvBuf (storeStatesLoop a i ss s) = selectRecvBuf s"
proof (induction ss arbitrary: i s)
  case Nil
  then show ?case by (simp add: quiet_Nil)
next
  case (Cons x xs)
  define s2 where "s2 = CreateStore x (fst (CreateGEP a [zero32, ConstInt (IntTy 32) (of_nat i) False] [] s))
                          (snd (CreateGEP a [zero32, ConstInt (IntTy 32) (of_nat i) False] [] s))"
  have eq: "storeStatesLoop a i (x # xs) s = storeStatesLoop a (Suc i) xs s2"
    by (simp add: s2_def split_def Let_def)
  have s2: "\<exists>new1. insts s2 = insts s @ new1 \<and> quiet new1 \<and> selectRecvBuf s2 = selectRecvBuf s"
    by (simp add: s2_def CreateGEP_def CreateStore_def emit_eq quiet_Cons quiet_Nil
        isSelectCall_mkInst isRecvbufAlloca_mkInst)
  then obtain new1 where n1: "insts s2 = insts s @ new1" "quiet new1" "selectRecvBuf s2 = selectRecvBuf s"
    by blast
  from Cons.IH[of "Suc i" s2] obtain new where
    "insts (storeStatesLoop a (Suc i) xs s2) = insts s2 @ new" "quiet new"
    "selectRecvBuf (storeStatesLoop a (Suc i) xs s2) = selectRecvBuf s2" by blast
  with n1 eq show ?case by (auto simp: quiet_append)
qed


lemma selectRecvbuf_False:
  "selectRecvbuf c False sz al s = (Undef i8ptrType, s)"
  by (simp add: selectRecvbuf_def)

lemma selectRecvbuf_True:
  "selectRecvbuf c True sz al s =
     (let n = length (insts s);
          aty = PtrTy (ArrayTy (IntTy 8) (sint sz));
          a = (mkInst n Alloca [] [] aty ''select.recvbuf.alloca'')\<lparr>ialign := al\<rparr>;
          g = mkInst (Suc (Suc (Suc n))) GetElementPtr [Reg n aty, zero32, zero32] [] i8ptrType ''select.recvbuf''
      in (Reg (Suc (Suc (Suc n))) i8ptrType,
          s\<lparr>insts := insts s @
             [a,
              mkInst (Suc n) BitCast [Reg n aty] [] i8ptrType ''select.recvbuf.alloca.bitcast'',
              mkInst (Suc (Suc n)) Call
                [ConstInt (IntTy 64) (TypeAllocSize c (ArrayTy (IntTy 8) (sint sz))) False,
                 Reg (Suc n) i8ptrType, FuncRef ''llvm.lifetime.start.p0i8'' lifetimeFnType]
                [] VoidTy [],
              g]\<rparr>))"
  by (simp add: selectRecvbuf_def createTemporaryAlloca_def CreateEntryBlockAlloca_def
      CreateBitCast_def CreateGEP_def SetAlignment_def emit_eq Let_def i8ptrType_def
      nth_append zero32_def)

lemma selectRuntimeCall_insts:
  "\<exists>new call. insts (snd (selectRuntimeCall c b recvbuf sp n s)) = insts s @ new \<and>
       filter isSelectCall new = [call] \<and> filter isRecvbufAlloca new = [] \<and>
       operands call ! 0 = recvbuf \<and>
       selectRecvBuf (snd (selectRuntimeCall c b recvbuf sp n s)) = selectRecvBuf s"
  by (cases b)
     (simp_all add: selectRuntimeCall_def createTemporaryAlloca_def CreateEntryBlockAlloca_def
        CreateBitCast_def CreateGEP_def createRuntimeCall_def emitLifetimeEnd_def emit_eq Let_def
        isSelectCall_mkInst isRecvbufAlloca_mkInst, simp_all add: mkInst_def)


lemma selectRecvbuf_side: "selectRecvBuf (snd (selectRecvbuf c hr sz al s)) = selectRecvBuf s"
  by (cases hr) (simp_all add: selectRecvbuf_False selectRecvbuf_True Let_def)

lemma createTemporaryAlloca_insts:
  "\<exists>new. insts (snd (createTemporaryAlloca c t ''select.states.alloca'' s)) = insts s @ new \<and>
     quiet new \<and>
     selectRecvBuf (snd (createTemporaryAlloca c t ''select.states.alloca'' s)) = selectRecvBuf s"
  by (simp add: createTemporaryAlloca_def CreateEntryBlockAlloca_def CreateBitCast_def emit_eq
      Let_def quiet_Cons quiet_Nil isSelectCall_mkInst isRecvbufAlloca_mkInst)

lemma CreateGEP_insts:
  "\<exists>new. insts (snd (CreateGEP p idx nm s)) = insts s @ new \<and> quiet new \<and>
     selectRecvBuf (snd (CreateGEP p idx nm s)) = selectRecvBuf s"
  by (simp add: CreateGEP_def emit_eq quiet_Cons quiet_Nil isSelectCall_mkInst
      isRecvbufAlloca_mkInst)

lemma emitLifetimeEnd_insts:
  "\<exists>new. insts (emitLifetimeEnd p sz s) = insts s @ new \<and> quiet new \<and>
     selectRecvBuf (emitLifetimeEnd p sz s) = selectRecvBuf s"
  by (simp add: emitLifetimeEnd_def emit_eq quiet_Cons quiet_Nil isSelectCall_mkInst
      isRecvbufAlloca_mkInst)

lemma emitSelect_shape:
  assumes run: "emitSelect c expr s = Inr (results, s')" and ne: "States expr \<noteq> []"
  shows "\<exists>sz al hr ss s1 new3 call.
     selectStatesLoop c (States expr) (0, 0, False, []) s = Inr ((sz, al, hr, ss), s1) \<and>
     insts s' = insts (snd (selectRecvbuf c hr sz al s1)) @ new3 \<and>
     filter isSelectCall new3 = [call] \<and> filter isRecvbufAlloca new3 = [] \<and>
     operands call ! 0 = fst (selectRecvbuf c hr sz al s1) \<and>
     selectRecvBuf s' =
       Some ((case selectRecvBuf s of None \<Rightarrow> Map.empty | Some m \<Rightarrow> m)
               (selectId expr \<mapsto> fst (selectRecvbuf c hr sz al s1)))"
proof -
  from run ne obtain sz al hr ss s1 where
    loop: "selectStatesLoop c (States expr) (0, 0, False, []) s = Inr ((sz, al, hr, ss), s1)"
    by (auto simp: emitSelect_def split: sum.splits)
  define recvbuf where "recvbuf = fst (selectRecvbuf c hr sz al s1)"
  define s2 where "s2 = snd (selectRecvbuf c hr sz al s1)"
  define ta where "ta = createTemporaryAlloca c
     (ArrayTy (chanSelectStateType c) (int (length ss))) ''select.states.alloca'' s2"
  define s3 where "s3 = snd ta"
  define s4 where "s4 = storeStatesLoop (fst (fst ta)) 0 ss s3"
  define gp where "gp = CreateGEP (fst (fst ta)) [zero32, zero32] ''select.states'' s4"
  define rc where "rc = selectRuntimeCall c (Blocking expr) recvbuf (fst gp) (length ss) (snd gp)"
  define s7 where "s7 = emitLifetimeEnd (fst (snd (fst ta))) (snd (snd (fst ta))) (snd rc)"
  from run ne loop have s': "s' = recordRecvBuf (selectId expr) recvbuf s7"
    by (simp add: emitSelect_def Let_def split_def recvbuf_def s2_def ta_def s3_def s4_def
        gp_def rc_def s7_def)
  from selectStatesLoop_insts[OF loop] have side1: "selectRecvBuf s1 = selectRecvBuf s" by blast
  have side2: "selectRecvBuf s2 = selectRecvBuf s1"
    by (simp add: s2_def selectRecvbuf_side)
  obtain n3 where n3: "insts s3 = insts s2 @ n3" "quiet n3" "selectRecvBuf s3 = selectRecvBuf s2"
    using createTemporaryAlloca_insts[of c _ s2] unfolding s3_def ta_def by blast
  obtain n4 where n4: "insts s4 = insts s3 @ n4" "quiet n4" "selectRecvBuf s4 = selectRecvBuf s3"
    using storeStatesLoop_insts[of _ 0 ss s3] unfolding s4_def by blast
  obtain n5 where n5: "insts (snd gp) = insts s4 @ n5" "quiet n5"
      "selectRecvBuf (snd gp) = selectRecvBuf s4"
    using CreateGEP_insts[of _ _ _ s4] unfolding gp_def by blast
  obtain n6 call where n6: "insts (snd rc) = insts (snd gp) @ n6"
      "filter isSelectCall n6 = [call]" "filter isRecvbufAlloca n6 = []"
      "operands call ! 0 = recvbuf" "selectRecvBuf (snd rc) = selectRecvBuf (snd gp)"
    using selectRuntimeCall_insts[of c _ recvbuf _ _ "snd gp"] unfolding rc_def by blast
  obtain n7 where n7: "insts s7 = insts (snd rc) @ n7" "quiet n7"
      "selectRecvBuf s7 = selectRecvBuf (snd rc)"
    using emitLifetimeEnd_insts[of _ _ "snd rc"] unfolding s7_def by blast
  have "insts s' = insts s2 @ (n3 @ n4 @ n5 @ n6 @ n7)"
    using s' n3 n4 n5 n6 n7 by (simp add: recordRecvBuf_def)
  moreover have "filter isSelectCall (n3 @ n4 @ n5 @ n6 @ n7) = [call]"
    using n3 n4 n5 n6 n7 by (simp add: quiet_def)
  moreover have "filter isRecvbufAlloca (n3 @ n4 @ n5 @ n6 @ n7) = []"
    using n3 n4 n5 n6 n7 by (simp add: quiet_def)
  moreover have "selectRecvBuf s' =
       Some ((case selectRecvBuf s of None \<Rightarrow> Map.empty | Some m \<Rightarrow> m)(selectId expr \<mapsto> recvbuf))"
    using s' n3 n4 n5 n6 n7 side1 side2 by (simp add: recordRecvBuf_def)
  ultimately show ?thesis
    using loop n6(4) unfolding recvbuf_def s2_def by blast
qed

lemma selectStatesLoop_returns:
  "\<forall>st\<in>set sts. Dir st \<noteq> SendRecv \<Longrightarrow> \<exists>r. selectStatesLoop c sts acc s = Inr r"
proof (induction sts arbitrary: acc s)
  case Nil
  then show ?case by (cases acc) auto
next
  case (Cons st rest)
  obtain sz al hr ss where acc: "acc = (sz, al, hr, ss)" by (cases acc) auto
  from Cons.prems have rest: "\<forall>st\<in>set rest. Dir st \<noteq> SendRecv" by simp
  from Cons.prems have "Dir st = RecvOnly \<or> Dir st = SendOnly" by (cases "Dir st") auto
  then show ?case
    using Cons.IH[OF rest] by (auto simp: acc Let_def split_def)
qed

lemma emitSelect_returns:
  assumes "\<forall>st\<in>set (States expr). Dir st \<noteq> SendRecv"
  shows "\<exists>results s'. emitSelect c expr s = Inr (results, s')"
proof -
  from selectStatesLoop_returns[OF assms] obtain r where
    "selectStatesLoop c (States expr) (0, 0, False, []) s = Inr r" by blast
  then show ?thesis
    by (cases r) (auto simp: emitSelect_def Let_def split_def)
qed

subsection \<open>The buffer that a select records, and what keeps it\<close>

lemma emitSelect_buffer:
  assumes run: "emitSelect c expr s = Inr (results, s1)" and ne: "States expr \<noteq> []"
  shows "\<exists>call recvbuf.
     filter isSelectCall (newInsts s s1) = [call] \<and> operands call ! 0 = recvbuf \<and>
     lookupRecvBuf s1 (selectId expr) = recvbuf \<and> recvbuf \<noteq> NilValue \<and>
     (if recvElems (States expr) = [] then recvbuf = Undef i8ptrType
      else \<exists>a g. filter isRecvbufAlloca (newInsts s s1) = [a] \<and>
             ity a = PtrTy (ArrayTy (IntTy 8)
                       (sint (Max (TypeAllocSize c ` set (recvElems (States expr)))))) \<and>
             g \<in> set (newInsts s s1) \<and> iop g = GetElementPtr \<and>
             operands g = [Reg (iid a) (ity a), zero32, zero32] \<and>
             recvbuf = Reg (iid g) (ity g))"
proof -
  let ?E = "recvElems (States expr)"
  from emitSelect_shape[OF run ne] obtain sz al hr ss s0 new3 call where
    loop: "selectStatesLoop c (States expr) (0, 0, False, []) s = Inr ((sz, al, hr, ss), s0)" and
    s': "insts s1 = insts (snd (selectRecvbuf c hr sz al s0)) @ new3" and
    f3: "filter isSelectCall new3 = [call]" "filter isRecvbufAlloca new3 = []" and
    op0: "operands call ! 0 = fst (selectRecvbuf c hr sz al s0)" and
    side: "selectRecvBuf s1 =
       Some ((case selectRecvBuf s of None \<Rightarrow> Map.empty | Some m \<Rightarrow> m)
               (selectId expr \<mapsto> fst (selectRecvbuf c hr sz al s0)))"
    by blast
  let ?rb = "fst (selectRecvbuf c hr sz al s0)"
  from selectStatesLoop_insts[OF loop] obtain new1 where
    n1: "insts s0 = insts s @ new1" "quiet new1" by blast
  from selectStatesLoop_acc[OF loop] have
    acc: "sz = Max (insert 0 (TypeAllocSize c ` set ?E))" "hr = (?E \<noteq> [])"
    by simp_all
  have sel: "filter isSelectCall (newInsts s s1) = [call]"
    using s' n1 f3
    by (cases hr) (simp_all add: selectRecvbuf_True selectRecvbuf_False Let_def newInsts_def
        quiet_def isSelectCall_def isCallTo_def CalledValue_def mkInst_def)
  have nn: "?rb \<noteq> NilValue"
    by (cases hr) (simp_all add: selectRecvbuf_True selectRecvbuf_False Let_def)
  have look: "lookupRecvBuf s1 (selectId expr) = ?rb"
    using side by (simp add: lookupRecvBuf_def)
  have buf: "if ?E = [] then ?rb = Undef i8ptrType
      else \<exists>a g. filter isRecvbufAlloca (newInsts s s1) = [a] \<and>
             ity a = PtrTy (ArrayTy (IntTy 8) (sint (Max (TypeAllocSize c ` set ?E)))) \<and>
             g \<in> set (newInsts s s1) \<and> iop g = GetElementPtr \<and>
             operands g = [Reg (iid a) (ity a), zero32, zero32] \<and>
             ?rb = Reg (iid g) (ity g)"
  proof (cases "?E = []")
    case True
    with acc have "hr = False" by simp
    with True show ?thesis by (simp add: selectRecvbuf_False)
  next
    case False
    with acc have hr: "hr = True" by simp
    from False have sz: "sz = Max (TypeAllocSize c ` set ?E)"
      by (simp add: acc max_def)
    let ?n = "length (insts s0)"
    let ?aty = "PtrTy (ArrayTy (IntTy 8) (sint sz))"
    let ?a = "(mkInst ?n Alloca [] [] ?aty ''select.recvbuf.alloca'')\<lparr>ialign := al\<rparr>"
    let ?b = "mkInst (Suc ?n) BitCast [Reg ?n ?aty] [] i8ptrType ''select.recvbuf.alloca.bitcast''"
    let ?l = "mkInst (Suc (Suc ?n)) Call
           [ConstInt (IntTy 64) (TypeAllocSize c (ArrayTy (IntTy 8) (sint sz))) False,
            Reg (Suc ?n) i8ptrType, FuncRef ''llvm.lifetime.start.p0i8'' lifetimeFnType]
           [] VoidTy []"
    let ?g = "mkInst (Suc (Suc (Suc ?n))) GetElementPtr [Reg ?n ?aty, zero32, zero32] []
                i8ptrType ''select.recvbuf''"
    have ins: "insts s1 = insts s @ new1 @ [?a, ?b, ?l, ?g] @ new3"
      using s' n1 hr by (simp add: selectRecvbuf_True Let_def)
    have isa: "isRecvbufAlloca ?a" "\<not> isRecvbufAlloca ?b" "\<not> isRecvbufAlloca ?l"
      "\<not> isRecvbufAlloca ?g"
      by (simp_all add: isRecvbufAlloca_def mkInst_def)
    have new: "filter isRecvbufAlloca (newInsts s s1) = [?a]"
      unfolding newInsts_def ins using n1(2) f3(2) isa by (simp add: quiet_def)
    have gin: "?g \<in> set (newInsts s s1)"
      unfolding newInsts_def ins by simp
    have rb: "?rb = Reg (Suc (Suc (Suc ?n))) i8ptrType"
      using hr by (simp add: selectRecvbuf_True Let_def)
    have flds: "ity ?a = ?aty" "iop ?g = GetElementPtr"
      "operands ?g = [Reg (iid ?a) (ity ?a), zero32, zero32]"
      "Reg (iid ?g) (ity ?g) = Reg (Suc (Suc (Suc ?n))) i8ptrType"
      by (simp_all add: mkInst_def)
    have "\<exists>a g. filter isRecvbufAlloca (newInsts s s1) = [a] \<and>
             ity a = PtrTy (ArrayTy (IntTy 8) (sint (Max (TypeAllocSize c ` set ?E)))) \<and>
             g \<in> set (newInsts s s1) \<and> iop g = GetElementPtr \<and>
             operands g = [Reg (iid a) (ity a), zero32, zero32] \<and>
             ?rb = Reg (iid g) (ity g)"
    proof (intro exI conjI)
      show "filter isRecvbufAlloca (newInsts s s1) = [?a]" by (rule new)
      show "ity ?a = PtrTy (ArrayTy (IntTy 8) (sint (Max (TypeAllocSize c ` set ?E))))"
        using flds(1) sz by simp
      show "?g \<in> set (newInsts s s1)" by (rule gin)
      show "iop ?g = GetElementPtr" by (rule flds(2))
      show "operands ?g = [Reg (iid ?a) (ity ?a), zero32, zero32]" by (rule flds(3))
      show "?rb = Reg (iid ?g) (ity ?g)" using rb flds(4) by simp
    qed
    with False show ?thesis by simp
  qed
  from sel op0 look nn buf show ?thesis by blast
qed

lemma lookupRecvBuf_cong:
  "selectRecvBuf s' = selectRecvBuf s \<Longrightarrow> lookupRecvBuf s' key = lookupRecvBuf s key"
  by (simp add: lookupRecvBuf_def)

lemma emitSelect_other_entry:
  assumes run: "emitSelect c e s = Inr (v, s')" and other: "selectId e \<noteq> key"
  shows "lookupRecvBuf s' key = lookupRecvBuf s key"
proof (cases "States e = []")
  case True
  with run have "selectRecvBuf s' = selectRecvBuf s"
    by (auto simp: emitSelect_def createRuntimeCall_def CreateInsertValue_def emit_eq Let_def
        split: if_splits)
  then show ?thesis by (rule lookupRecvBuf_cong)
next
  case False
  from emitSelect_shape[OF run False] obtain rb where
    "selectRecvBuf s' =
       Some ((case selectRecvBuf s of None \<Rightarrow> Map.empty | Some m \<Rightarrow> m)(selectId e \<mapsto> rb))"
    by blast
  with other show ?thesis
    by (simp add: lookupRecvBuf_def split: option.splits)
qed

lemma lowerOp_entry:
  assumes "lowerOp c operation s = Inr s'"
    and "\<forall>e. operation = OpSelect e \<longrightarrow> selectId e \<noteq> key"
  shows "lookupRecvBuf s' key = lookupRecvBuf s key"
proof (cases operation)
  case (OpSend instr)
  with assms(1) have "selectRecvBuf s' = selectRecvBuf s"
    by (auto simp: lowerOp_def emitChanSend_def createTemporaryAlloca_def
        CreateEntryBlockAlloca_def CreateBitCast_def CreateStore_def createRuntimeCall_def
        emitLifetimeEnd_def emit_eq Let_def)
  then show ?thesis by (rule lookupRecvBuf_cong)
next
  case (OpSelect e)
  with assms(1) obtain v where "emitSelect c e s = Inr (v, s')"
    by (auto simp: lowerOp_def split: sum.splits)
  moreover from OpSelect assms(2) have "selectId e \<noteq> key" by simp
  ultimately show ?thesis by (rule emitSelect_other_entry)
next
  case (OpExtract x)
  with assms(1) have "selectRecvBuf s' = selectRecvBuf s"
    by (auto simp: lowerOp_def getChanSelectResult_def CreateExtractValue_def CreateSExt_def
        CreateBitCast_def CreateLoad_def emit_eq Let_def split: sum.splits if_splits option.splits)
  then show ?thesis by (rule lookupRecvBuf_cong)
next
  case (OpEmit oc args idx ty nm)
  with assms(1) have "selectRecvBuf s' = selectRecvBuf s"
    by (auto simp: lowerOp_def emit_eq)
  then show ?thesis by (rule lookupRecvBuf_cong)
qed

lemma lowerOps_entry:
  "lowerOps c ops s = Inr s' \<Longrightarrow> \<forall>e. OpSelect e \<in> set ops \<longrightarrow> selectId e \<noteq> key \<Longrightarrow>
     lookupRecvBuf s' key = lookupRecvBuf s key"
proof (induction ops arbitrary: s)
  case Nil
  then show ?case by simp
next
  case (Cons operation rest)
  from Cons.prems(1) obtain s1 where s1: "lowerOp c operation s = Inr s1"
    "lowerOps c rest s1 = Inr s'"
    by (auto split: sum.splits)
  from Cons.prems(2) have a: "\<forall>e. operation = OpSelect e \<longrightarrow> selectId e \<noteq> key"
    and b: "\<forall>e. OpSelect e \<in> set rest \<longrightarrow> selectId e \<noteq> key" by auto
  from lowerOp_entry[OF s1(1) a] Cons.IH[OF s1(2) b] show ?case by simp
qed

lemma lowerOps_returns:
  "\<forall>operation\<in>set ops.
      (case operation of
         OpSelect e \<Rightarrow> \<forall>st\<in>set (States e). Dir st \<noteq> SendRecv
       | OpExtract x \<Rightarrow> Index x = 0 \<or> Index x = 1
       | _ \<Rightarrow> True) \<Longrightarrow>
   \<exists>s'. lowerOps c ops s = Inr s'"
proof (induction ops arbitrary: s)
  case Nil
  then show ?case by simp
next
  case (Cons operation rest)
  have "\<exists>s1. lowerOp c operation s = Inr s1"
  proof (cases operation)
    case (OpSelect e)
    with Cons.prems have "\<forall>st\<in>set (States e). Dir st \<noteq> SendRecv" by simp
    from emitSelect_returns[OF this, of c s] OpSelect show ?thesis
      by (auto simp: lowerOp_def)
  next
    case (OpExtract x)
    with Cons.prems have "Index x = 0 \<or> Index x = 1" by simp
    with OpExtract show ?thesis
      by (auto simp: lowerOp_def getChanSelectResult_def Let_def split_def)
  qed (simp_all add: lowerOp_def)
  then obtain s1 where s1: "lowerOp c operation s = Inr s1" by blast
  from Cons.prems have "\<forall>operation\<in>set rest.
      (case operation of
         OpSelect e \<Rightarrow> \<forall>st\<in>set (States e). Dir st \<noteq> SendRecv
       | OpExtract x \<Rightarrow> Index x = 0 \<or> Index x = 1
       | _ \<Rightarrow> True)" by simp
  from Cons.IH[OF this, of s1] s1 show ?case by simp
qed

subsection \<open>The claims about channel lowering\<close>

text \<open>
  C1. For a select with zero cases and \<open>blocking = false\<close>, \<open>emitSelect\<close> emits no
  runtime call, and the tuple it returns is built by one \<open>insertvalue\<close> that writes
  \<open>-1\<close> into field 0 of an undefined tuple: field 1, the ok flag, is never written and
  stays undefined, where the comment on the return statement says \<open>{-1, false}\<close>.
\<close>

theorem C1_zero_cases_nonblocking:
  "emitSelect c (expr\<lparr>States := [], Blocking := False\<rparr>) s =
     Inr (Reg (length (insts s)) (selectType expr),
          s\<lparr>insts := insts s @
             [mkInst (length (insts s)) InsertValue
                [Undef (selectType expr), CInt (intType c) (- 1)] [0] (selectType expr) []]\<rparr>)
   \<and> filter isRuntimeCall
        (newInsts s (snd (projr (emitSelect c (expr\<lparr>States := [], Blocking := False\<rparr>) s)))) = []
   \<and> Undef (IntTy 1) \<noteq> ConstInt (IntTy 1) 0 False"
  by (simp add: emitSelect_def CreateInsertValue_def emit_def mkInst_def ConstInt_def Let_def
      newInsts_def isRuntimeCall_def)

text \<open>
  C7. For every channel send, \<open>emitChanSend\<close> creates a fresh stack buffer of the
  value's static type, stores the sent value into it, emits exactly one runtime call,
  \<open>chanSend(channel, bufferAddress)\<close>, and ends the buffer's lifetime right after the
  call: the instructions it appends are exactly these six, in this order.
\<close>

theorem C7_emitChanSend:
  "insts (emitChanSend c instr s) =
     (let n = length (insts s);
          buf = Reg n (PtrTy (sendXType instr));
          addr = Reg (n + 1) i8ptrType;
          bytes = ConstInt (IntTy 64) (TypeAllocSize c (sendXType instr)) False
      in insts s @
         [mkInst n Alloca [] [] (PtrTy (sendXType instr)) ''chan.value'',
          mkInst (n + 1) BitCast [buf] [] i8ptrType ''chan.value.bitcast'',
          mkInst (n + 2) Call
            [bytes, addr, FuncRef ''llvm.lifetime.start.p0i8'' lifetimeFnType] [] VoidTy [],
          mkInst (n + 3) Store [sendX instr, buf] [] VoidTy [],
          mkInst (n + 4) Call
            [sendChan instr, addr,
             FuncRef ''runtime.chanSend''
               (PtrTy (FuncTy (runtimeResultType c ''chanSend'')
                  [typeOf (sendChan instr), i8ptrType] False))]
            [] (runtimeResultType c ''chanSend'') [],
          mkInst (n + 5) Call
            [bytes, addr, FuncRef ''llvm.lifetime.end.p0i8'' lifetimeFnType] [] VoidTy []])
   \<and> length (filter isRuntimeCall (newInsts s (emitChanSend c instr s))) = 1
   \<and> selectRecvBuf (emitChanSend c instr s) = selectRecvBuf s"
  by (simp add: emitChanSend_def createTemporaryAlloca_def CreateEntryBlockAlloca_def
      CreateBitCast_def CreateStore_def createRuntimeCall_def emitLifetimeEnd_def emit_def
      mkInst_def Let_def split_def newInsts_def isRuntimeCall_def CalledValue_def)

text \<open>
  C9. In a select with at least one case, the shared receive buffer is allocated only
  if some case receives: then exactly one buffer \<open>select.recvbuf.alloca\<close> is created,
  a byte array whose length is the largest allocation size of the received element
  types (converted as the code does, \<open>int(recvbufSize)\<close>) and whose alignment is their
  largest ABI alignment, and the runtime call gets the address of its first byte. With
  no receiving case no such buffer is created and the runtime call gets an undefined
  byte pointer as its placeholder. ABI alignments are taken to be non-negative.
\<close>

theorem C9_recvbuf_allocation:
  assumes run: "emitSelect c expr s = Inr (results, s')"
    and ne: "States expr \<noteq> []"
    and al0: "\<forall>t\<in>set (recvElems (States expr)). 0 \<le> ABITypeAlignment c t"
  shows "\<exists>call. filter isSelectCall (newInsts s s') = [call] \<and>
     (if recvElems (States expr) = []
      then filter isRecvbufAlloca (newInsts s s') = [] \<and> operands call ! 0 = Undef i8ptrType
      else \<exists>a g. filter isRecvbufAlloca (newInsts s s') = [a] \<and>
             ity a = PtrTy (ArrayTy (IntTy 8)
                       (sint (Max (TypeAllocSize c ` set (recvElems (States expr)))))) \<and>
             ialign a = Max (ABITypeAlignment c ` set (recvElems (States expr))) \<and>
             g \<in> set (newInsts s s') \<and> iop g = GetElementPtr \<and>
             operands g = [Reg (iid a) (ity a), zero32, zero32] \<and>
             operands call ! 0 = Reg (iid g) (ity g))"
proof -
  let ?E = "recvElems (States expr)"
  from emitSelect_shape[OF run ne] obtain sz al hr ss s1 new3 call where
    loop: "selectStatesLoop c (States expr) (0, 0, False, []) s = Inr ((sz, al, hr, ss), s1)" and
    s': "insts s' = insts (snd (selectRecvbuf c hr sz al s1)) @ new3" and
    f3: "filter isSelectCall new3 = [call]" "filter isRecvbufAlloca new3 = []" and
    op0: "operands call ! 0 = fst (selectRecvbuf c hr sz al s1)"
    by blast
  from selectStatesLoop_insts[OF loop] obtain new1 where
    n1: "insts s1 = insts s @ new1" "quiet new1" by blast
  from selectStatesLoop_acc[OF loop] have
    acc: "sz = Max (insert 0 (TypeAllocSize c ` set ?E))"
         "al = Max (insert 0 (ABITypeAlignment c ` set ?E))" "hr = (?E \<noteq> [])"
    by simp_all
  show ?thesis
  proof (cases "?E = []")
    case True
    with acc have "hr = False" by simp
    with s' n1 f3 op0 True show ?thesis
      by (simp add: selectRecvbuf_False newInsts_def quiet_def)
  next
    case False
    with acc have hr: "hr = True" by simp
    from False have sz: "sz = Max (TypeAllocSize c ` set ?E)"
      by (simp add: acc max_def)
    from False have "Max (ABITypeAlignment c ` set ?E) \<in> ABITypeAlignment c ` set ?E"
      by (intro Max_in) auto
    with al0 have "0 \<le> Max (ABITypeAlignment c ` set ?E)" by auto
    with False have al: "al = Max (ABITypeAlignment c ` set ?E)"
      by (simp add: acc max_def)
    let ?n = "length (insts s1)"
    let ?aty = "PtrTy (ArrayTy (IntTy 8) (sint sz))"
    let ?a = "(mkInst ?n Alloca [] [] ?aty ''select.recvbuf.alloca'')\<lparr>ialign := al\<rparr>"
    let ?g = "mkInst (Suc (Suc (Suc ?n))) GetElementPtr [Reg ?n ?aty, zero32, zero32] []
                i8ptrType ''select.recvbuf''"
    have ins: "insts s' = insts s @ new1 @
        [?a,
         mkInst (Suc ?n) BitCast [Reg ?n ?aty] [] i8ptrType ''select.recvbuf.alloca.bitcast'',
         mkInst (Suc (Suc ?n)) Call
           [ConstInt (IntTy 64) (TypeAllocSize c (ArrayTy (IntTy 8) (sint sz))) False,
            Reg (Suc ?n) i8ptrType, FuncRef ''llvm.lifetime.start.p0i8'' lifetimeFnType]
           [] VoidTy [],
         ?g] @ new3"
      using s' n1 hr by (simp add: selectRecvbuf_True Let_def)
    have notsel: "\<not> isSelectCall ?a"
      "\<not> isSelectCall (mkInst (Suc ?n) BitCast [Reg ?n ?aty] [] i8ptrType
          ''select.recvbuf.alloca.bitcast'')"
      "\<not> isSelectCall (mkInst (Suc (Suc ?n)) Call
           [ConstInt (IntTy 64) (TypeAllocSize c (ArrayTy (IntTy 8) (sint sz))) False,
            Reg (Suc ?n) i8ptrType, FuncRef ''llvm.lifetime.start.p0i8'' lifetimeFnType]
           [] VoidTy [])"
      "\<not> isSelectCall ?g"
      by (simp_all add: isSelectCall_def isCallTo_def CalledValue_def mkInst_def)
    have isa: "isRecvbufAlloca ?a"
      "\<not> isRecvbufAlloca (mkInst (Suc ?n) BitCast [Reg ?n ?aty] [] i8ptrType
          ''select.recvbuf.alloca.bitcast'')"
      "\<not> isRecvbufAlloca (mkInst (Suc (Suc ?n)) Call
           [ConstInt (IntTy 64) (TypeAllocSize c (ArrayTy (IntTy 8) (sint sz))) False,
            Reg (Suc ?n) i8ptrType, FuncRef ''llvm.lifetime.start.p0i8'' lifetimeFnType]
           [] VoidTy [])"
      "\<not> isRecvbufAlloca ?g"
      by (simp_all add: isRecvbufAlloca_def mkInst_def)
    have new: "filter isRecvbufAlloca (newInsts s s') = [?a]"
      unfolding newInsts_def ins using n1(2) f3(2) isa by (simp add: quiet_def)
    have sel: "filter isSelectCall (newInsts s s') = [call]"
      unfolding newInsts_def ins using n1(2) f3(1) notsel by (simp add: quiet_def)
    have gin: "?g \<in> set (newInsts s s')"
      unfolding newInsts_def ins by simp
    have op0': "operands call ! 0 = Reg (Suc (Suc (Suc ?n))) i8ptrType"
      using op0 hr by (simp add: selectRecvbuf_True Let_def)
    have flds: "ity ?a = ?aty" "ialign ?a = al" "iop ?g = GetElementPtr"
      "operands ?g = [Reg (iid ?a) (ity ?a), zero32, zero32]"
      "Reg (iid ?g) (ity ?g) = Reg (Suc (Suc (Suc ?n))) i8ptrType"
      by (simp_all add: mkInst_def)
    have "\<exists>a g. filter isRecvbufAlloca (newInsts s s') = [a] \<and>
             ity a = PtrTy (ArrayTy (IntTy 8) (sint (Max (TypeAllocSize c ` set ?E)))) \<and>
             ialign a = Max (ABITypeAlignment c ` set ?E) \<and>
             g \<in> set (newInsts s s') \<and> iop g = GetElementPtr \<and>
             operands g = [Reg (iid a) (ity a), zero32, zero32] \<and>
             operands call ! 0 = Reg (iid g) (ity g)"
    proof (intro exI conjI)
      show "filter isRecvbufAlloca (newInsts s s') = [?a]" by (rule new)
      show "ity ?a = PtrTy (ArrayTy (IntTy 8) (sint (Max (TypeAllocSize c ` set ?E))))"
        using flds(1) sz by simp
      show "ialign ?a = Max (ABITypeAlignment c ` set ?E)" using flds(2) al by simp
      show "?g \<in> set (newInsts s s')" by (rule gin)
      show "iop ?g = GetElementPtr" by (rule flds(3))
      show "operands ?g = [Reg (iid ?a) (ity ?a), zero32, zero32]" by (rule flds(4))
      show "operands call ! 0 = Reg (iid ?g) (ity ?g)" using op0' flds(5) by simp
    qed
    with sel False show ?thesis by simp
  qed
qed

theorem C9_recvbuf_allocation_witness:
  "\<exists>results s' call a.
     emitSelect exampleCompiler exampleSelect exampleState = Inr (results, s') \<and>
     filter isSelectCall (newInsts exampleState s') = [call] \<and>
     filter isRecvbufAlloca (newInsts exampleState s') = [a] \<and>
     ity a = PtrTy (ArrayTy (IntTy 8) 8) \<and> ialign a = 8"
proof -
  have d: "\<forall>st\<in>set (States exampleSelect). Dir st \<noteq> SendRecv"
    by (simp add: exampleSelect_def)
  from emitSelect_returns[OF d] obtain results s' where
    run: "emitSelect exampleCompiler exampleSelect exampleState = Inr (results, s')" by blast
  have ne: "States exampleSelect \<noteq> []" by (simp add: exampleSelect_def)
  have el: "recvElems (States exampleSelect) = [IntTy 64, IntTy 16]"
    by (simp add: exampleSelect_def recvElems_def)
  have al0: "\<forall>t\<in>set (recvElems (States exampleSelect)). 0 \<le> ABITypeAlignment exampleCompiler t"
    by (simp add: el exampleCompiler_def)
  have mx: "sint (Max (TypeAllocSize exampleCompiler ` set (recvElems (States exampleSelect)))) = 8"
    "Max (ABITypeAlignment exampleCompiler ` set (recvElems (States exampleSelect))) = 8"
    by (simp_all add: el exampleCompiler_def)
  from C9_recvbuf_allocation[OF run ne al0] run show ?thesis
    unfolding mx by (simp add: el) blast
qed

text \<open>
  C5. A select with at least one case has been lowered; after it the frame has lowered
  any number of other instructions, among them other selects, sends and extractions,
  but not this select again. An extraction from this select with field index 2 or more
  then finds in the frame's side table the value that the lowering of the select
  recorded. This value is the one passed to the runtime select call as its receive
  buffer; when a case of the select receives it is the address of the first byte of
  the one buffer \<open>select.recvbuf.alloca\<close> that the lowering created, a byte array as long
  as the largest received element type, and otherwise it is the undefined placeholder.
  The extraction casts this value to a pointer to its own static type and loads through
  that pointer; these two instructions are all it emits.
\<close>

theorem C5_extract_reads_recvbuf:
  assumes run: "emitSelect c expr s = Inr (results, s1)"
    and ne: "States expr \<noteq> []"
    and between: "lowerOps c ops s1 = Inr s2"
    and others: "\<forall>e. OpSelect e \<in> set ops \<longrightarrow> selectId e \<noteq> selectId expr"
    and idx: "2 \<le> Index ex"
    and tup: "Tuple ex = Some expr"
  shows "\<exists>call recvbuf.
     filter isSelectCall (newInsts s s1) = [call] \<and> operands call ! 0 = recvbuf \<and>
     (if recvElems (States expr) = [] then recvbuf = Undef i8ptrType
      else \<exists>a g. filter isRecvbufAlloca (newInsts s s1) = [a] \<and>
             ity a = PtrTy (ArrayTy (IntTy 8)
                       (sint (Max (TypeAllocSize c ` set (recvElems (States expr)))))) \<and>
             g \<in> set (newInsts s s1) \<and> iop g = GetElementPtr \<and>
             operands g = [Reg (iid a) (ity a), zero32, zero32] \<and>
             recvbuf = Reg (iid g) (ity g)) \<and>
     lookupRecvBuf s2 (selectId expr) = recvbuf \<and>
     getChanSelectResult c ex s2 =
       Inr (Reg (Suc (length (insts s2))) (extractType ex),
            s2\<lparr>insts := insts s2 @
               [mkInst (length (insts s2)) BitCast [recvbuf] [] (PtrTy (extractType ex)) [],
                mkInst (Suc (length (insts s2))) Load
                  [Reg (length (insts s2)) (PtrTy (extractType ex))] [] (extractType ex) []]\<rparr>)"
proof -
  from emitSelect_buffer[OF run ne] obtain call recvbuf where
    b: "filter isSelectCall (newInsts s s1) = [call]" "operands call ! 0 = recvbuf"
       "lookupRecvBuf s1 (selectId expr) = recvbuf" "recvbuf \<noteq> NilValue"
       "if recvElems (States expr) = [] then recvbuf = Undef i8ptrType
        else \<exists>a g. filter isRecvbufAlloca (newInsts s s1) = [a] \<and>
             ity a = PtrTy (ArrayTy (IntTy 8)
                       (sint (Max (TypeAllocSize c ` set (recvElems (States expr)))))) \<and>
             g \<in> set (newInsts s s1) \<and> iop g = GetElementPtr \<and>
             operands g = [Reg (iid a) (ity a), zero32, zero32] \<and>
             recvbuf = Reg (iid g) (ity g)"
    by blast
  have look: "lookupRecvBuf s2 (selectId expr) = recvbuf"
    using lowerOps_entry[OF between others] b(3) by simp
  have "getChanSelectResult c ex s2 =
       Inr (Reg (Suc (length (insts s2))) (extractType ex),
            s2\<lparr>insts := insts s2 @
               [mkInst (length (insts s2)) BitCast [recvbuf] [] (PtrTy (extractType ex)) [],
                mkInst (Suc (length (insts s2))) Load
                  [Reg (length (insts s2)) (PtrTy (extractType ex))] [] (extractType ex) []]\<rparr>)"
    using idx tup look b(4)
    by (simp add: getChanSelectResult_def CreateBitCast_def CreateLoad_def emit_eq Let_def)
  with b(1,2,5) look show ?thesis by blast
qed

theorem C5_extract_reads_recvbuf_witness:
  "\<exists>results s1 s2 call a g v s3.
     emitSelect exampleCompiler exampleSelect exampleState = Inr (results, s1) \<and>
     lowerOps exampleCompiler exampleOps s1 = Inr s2 \<and>
     lookupRecvBuf s1 (selectId otherSelect) = NilValue \<and>
     lookupRecvBuf s2 (selectId otherSelect) \<noteq> NilValue \<and>
     filter isSelectCall (newInsts exampleState s1) = [call] \<and>
     filter isRecvbufAlloca (newInsts exampleState s1) = [a] \<and>
     ity a = PtrTy (ArrayTy (IntTy 8) 8) \<and>
     g \<in> set (newInsts exampleState s1) \<and>
     operands g = [Reg (iid a) (ity a), zero32, zero32] \<and>
     operands call ! 0 = Reg (iid g) (ity g) \<and>
     getChanSelectResult exampleCompiler exampleExtract s2 = Inr (v, s3) \<and>
     newInsts s2 s3 =
       [mkInst (length (insts s2)) BitCast [Reg (iid g) (ity g)] [] (PtrTy (IntTy 64)) [],
        mkInst (Suc (length (insts s2))) Load
          [Reg (length (insts s2)) (PtrTy (IntTy 64))] [] (IntTy 64) []]"
proof -
  let ?c = exampleCompiler
  have d: "\<forall>st\<in>set (States exampleSelect). Dir st \<noteq> SendRecv"
    by (simp add: exampleSelect_def)
  from emitSelect_returns[OF d] obtain results s1 where
    run: "emitSelect ?c exampleSelect exampleState = Inr (results, s1)" by blast
  have "\<forall>operation\<in>set exampleOps.
      (case operation of
         OpSelect e \<Rightarrow> \<forall>st\<in>set (States e). Dir st \<noteq> SendRecv
       | OpExtract x \<Rightarrow> Index x = 0 \<or> Index x = 1
       | _ \<Rightarrow> True)"
    by (simp add: exampleOps_def otherSelect_def)
  from lowerOps_returns[OF this] obtain s2 where
    between: "lowerOps ?c exampleOps s1 = Inr s2" by blast
  have others: "\<forall>e. OpSelect e \<in> set exampleOps \<longrightarrow> selectId e \<noteq> selectId exampleSelect"
    by (simp add: exampleOps_def otherSelect_def exampleSelect_def)
  have ne: "States exampleSelect \<noteq> []" by (simp add: exampleSelect_def)
  have idx: "2 \<le> Index exampleExtract" by (simp add: exampleExtract_def)
  have tup: "Tuple exampleExtract = Some exampleSelect" by (simp add: exampleExtract_def)
  have ty: "extractType exampleExtract = IntTy 64" by (simp add: exampleExtract_def)
  have el: "recvElems (States exampleSelect) = [IntTy 64, IntTy 16]"
    by (simp add: exampleSelect_def recvElems_def)
  have mx: "sint (Max (TypeAllocSize ?c ` set (recvElems (States exampleSelect)))) = 8"
    by (simp add: el exampleCompiler_def)
  have key: "selectId exampleSelect \<noteq> selectId otherSelect"
    by (simp add: exampleSelect_def otherSelect_def)
  have before: "lookupRecvBuf s1 (selectId otherSelect) = NilValue"
    using emitSelect_other_entry[OF run key]
    by (simp add: lookupRecvBuf_def exampleState_def)
  obtain rest where ops: "exampleOps = OpSelect otherSelect # rest"
    and rest: "\<forall>e. OpSelect e \<in> set rest \<longrightarrow> selectId e \<noteq> selectId otherSelect"
    by (simp add: exampleOps_def)
  from between obtain v1 s1' where
    o: "emitSelect ?c otherSelect s1 = Inr (v1, s1')" "lowerOps ?c rest s1' = Inr s2"
    unfolding ops by (auto simp: lowerOp_def split: sum.splits)
  have "States otherSelect \<noteq> []" by (simp add: otherSelect_def)
  from emitSelect_buffer[OF o(1) this]
  have "lookupRecvBuf s1' (selectId otherSelect) \<noteq> NilValue" by auto
  with lowerOps_entry[OF o(2) rest]
  have after: "lookupRecvBuf s2 (selectId otherSelect) \<noteq> NilValue" by simp
  from C5_extract_reads_recvbuf[OF run ne between others idx tup]
  have "\<exists>call recvbuf.
     filter isSelectCall (newInsts exampleState s1) = [call] \<and> operands call ! 0 = recvbuf \<and>
     (\<exists>a g. filter isRecvbufAlloca (newInsts exampleState s1) = [a] \<and>
             ity a = PtrTy (ArrayTy (IntTy 8) 8) \<and>
             g \<in> set (newInsts exampleState s1) \<and> iop g = GetElementPtr \<and>
             operands g = [Reg (iid a) (ity a), zero32, zero32] \<and>
             recvbuf = Reg (iid g) (ity g)) \<and>
     lookupRecvBuf s2 (selectId exampleSelect) = recvbuf \<and>
     getChanSelectResult ?c exampleExtract s2 =
       Inr (Reg (Suc (length (insts s2))) (IntTy 64),
            s2\<lparr>insts := insts s2 @
               [mkInst (length (insts s2)) BitCast [recvbuf] [] (PtrTy (IntTy 64)) [],
                mkInst (Suc (length (insts s2))) Load
                  [Reg (length (insts s2)) (PtrTy (IntTy 64))] [] (IntTy 64) []]\<rparr>)"
    unfolding ty mx by (simp add: el)
  then show ?thesis
  proof (elim exE conjE)
    fix call recvbuf a g
    assume r: "filter isSelectCall (newInsts exampleState s1) = [call]"
       "operands call ! 0 = recvbuf"
       "filter isRecvbufAlloca (newInsts exampleState s1) = [a]"
       "ity a = PtrTy (ArrayTy (IntTy 8) 8)"
       "operands g = [Reg (iid a) (ity a), zero32, zero32]"
       "recvbuf = Reg (iid g) (ity g)"
       "g \<in> set (newInsts exampleState s1)"
       "getChanSelectResult ?c exampleExtract s2 =
          Inr (Reg (Suc (length (insts s2))) (IntTy 64),
            s2\<lparr>insts := insts s2 @
               [mkInst (length (insts s2)) BitCast [recvbuf] [] (PtrTy (IntTy 64)) [],
                mkInst (Suc (length (insts s2))) Load
                  [Reg (length (insts s2)) (PtrTy (IntTy 64))] [] (IntTy 64) []]\<rparr>)"
    let ?s3 = "s2\<lparr>insts := insts s2 @
               [mkInst (length (insts s2)) BitCast [Reg (iid g) (ity g)] [] (PtrTy (IntTy 64)) [],
                mkInst (Suc (length (insts s2))) Load
                  [Reg (length (insts s2)) (PtrTy (IntTy 64))] [] (IntTy 64) []]\<rparr>"
    have new: "newInsts s2 ?s3 =
       [mkInst (length (insts s2)) BitCast [Reg (iid g) (ity g)] [] (PtrTy (IntTy 64)) [],
        mkInst (Suc (length (insts s2))) Load
          [Reg (length (insts s2)) (PtrTy (IntTy 64))] [] (IntTy 64) []]"
      by (simp add: newInsts_def)
    show ?thesis
    proof (intro exI conjI)
      show "emitSelect ?c exampleSelect exampleState = Inr (results, s1)" by (rule run)
      show "lowerOps ?c exampleOps s1 = Inr s2" by (rule between)
      show "lookupRecvBuf s1 (selectId otherSelect) = NilValue" by (rule before)
      show "lookupRecvBuf s2 (selectId otherSelect) \<noteq> NilValue" by (rule after)
      show "filter isSelectCall (newInsts exampleState s1) = [call]" by (rule r(1))
      show "filter isRecvbufAlloca (newInsts exampleState s1) = [a]" by (rule r(3))
      show "ity a = PtrTy (ArrayTy (IntTy 8) 8)" by (rule r(4))
      show "g \<in> set (newInsts exampleState s1)" by (rule r(7))
      show "operands g = [Reg (iid a) (ity a), zero32, zero32]" by (rule r(5))
      show "operands call ! 0 = Reg (iid g) (ity g)" using r(2) r(6) by simp
      show "getChanSelectResult ?c exampleExtract s2 =
              Inr (Reg (Suc (length (insts s2))) (IntTy 64), ?s3)"
        using r(8) r(6) by simp
      show "newInsts s2 ?s3 =
       [mkInst (length (insts s2)) BitCast [Reg (iid g) (ity g)] [] (PtrTy (IntTy 64)) [],
        mkInst (Suc (length (insts s2))) Load
          [Reg (length (insts s2)) (PtrTy (IntTy 64))] [] (IntTy 64) []]" by (rule new)
    qed
  qed
qed

text \<open>
  C6. An extraction with a field index other than 0 and 1, when the frame holds no
  entry for the select: the map read gives the zero \<open>llvm.Value\<close>, which goes to the
  builder's cast unchecked, and the compilation dies there. No instruction is emitted
  and no value is produced.
\<close>

theorem C6_missing_entry_fails:
  assumes idx: "Index ex \<noteq> 0" "Index ex \<noteq> 1"
    and tup: "Tuple ex = Some sel"
    and missing: "selectRecvBuf s = None \<or>
                  (\<exists>m. selectRecvBuf s = Some m \<and> m (selectId sel) = None)"
  shows "lookupRecvBuf s (selectId sel) = NilValue \<and>
         getChanSelectResult c ex s = Inl (Panic ''nil llvm.Value in CreateBitCast'')"
  using assms
  by (auto simp: getChanSelectResult_def lookupRecvBuf_def Let_def)

theorem C6_missing_entry_fails_witness:
  "getChanSelectResult exampleCompiler exampleExtract exampleState =
     Inl (Panic ''nil llvm.Value in CreateBitCast'') \<and>
   getChanSelectResult exampleCompiler exampleExtract
       (exampleState\<lparr>selectRecvBuf := Some [8 \<mapsto> Reg 3 i8ptrType]\<rparr>) =
     Inl (Panic ''nil llvm.Value in CreateBitCast'')"
proof -
  have i: "Index exampleExtract \<noteq> 0" "Index exampleExtract \<noteq> 1"
    by (simp_all add: exampleExtract_def)
  have t: "Tuple exampleExtract = Some exampleSelect" by (simp add: exampleExtract_def)
  have m1: "selectRecvBuf exampleState = None \<or>
     (\<exists>m. selectRecvBuf exampleState = Some m \<and> m (selectId exampleSelect) = None)"
    by (simp add: exampleState_def)
  have m2: "selectRecvBuf (exampleState\<lparr>selectRecvBuf := Some [8 \<mapsto> Reg 3 i8ptrType]\<rparr>) = None \<or>
     (\<exists>m. selectRecvBuf (exampleState\<lparr>selectRecvBuf := Some [8 \<mapsto> Reg 3 i8ptrType]\<rparr>) = Some m \<and>
          m (selectId exampleSelect) = None)"
    by (simp add: exampleSelect_def)
  from C6_missing_entry_fails[OF i t m1, of exampleCompiler]
       C6_missing_entry_fails[OF i t m2, of exampleCompiler]
  show ?thesis by simp
qed

section \<open>Properties of the interrupt lowering\<close>

subsection \<open>Decimal names are unique\<close>

lemma of_char_digitChar: "d < 10 \<Longrightarrow> of_char (digitChar d) = (48 + d :: nat)"
  by (simp add: digitChar_def)

lemma undigits_digitsOf: "undigits (digitsOf n) = n"
proof (induction n rule: digitsOf.induct)
  case (1 n)
  show ?case
  proof (cases "n < 10")
    case True
    then show ?thesis
      by (simp add: digitsOf.simps[of n] undigits_def of_char_digitChar)
  next
    case False
    with 1 have "undigits (digitsOf (n div 10)) = n div 10" by simp
    with False show ?thesis
      by (simp add: digitsOf.simps[of n] undigits_def of_char_digitChar)
  qed
qed

lemma digitsOf_inj: "digitsOf a = digitsOf b \<Longrightarrow> a = b"
  by (metis undigits_digitsOf)

lemma digitsOf_no_minus: "CHR ''-'' \<notin> set (digitsOf n)"
proof (induction n rule: digitsOf.induct)
  case (1 n)
  have d: "\<And>k. k < 10 \<Longrightarrow> digitChar k \<noteq> CHR ''-''"
  proof
    fix k :: nat assume "k < 10" "digitChar k = CHR ''-''"
    then have "of_char (digitChar k) = (of_char (CHR ''-'') :: nat)" by simp
    with \<open>k < 10\<close> show False by (simp add: of_char_digitChar)
  qed
  show ?case
  proof (cases "n < 10")
    case True
    then show ?thesis using d[of n] by (auto simp add: digitsOf.simps[of n])
  next
    case False
    with 1 show ?thesis using d[of "n mod 10"] by (auto simp add: digitsOf.simps[of n])
  qed
qed

lemma digitsOf_nonempty: "digitsOf n \<noteq> []"
  by (subst digitsOf.simps) simp

lemma FormatInt_inj: "FormatInt a = FormatInt b \<Longrightarrow> a = b"
proof -
  assume eq: "FormatInt a = FormatInt b"
  have hd: "\<And>n. hd (digitsOf n) \<noteq> CHR ''-''"
    using digitsOf_no_minus digitsOf_nonempty by (metis list.set_sel(1))
  show "a = b"
  proof (cases "a < 0")
    case True
    show ?thesis
    proof (cases "b < 0")
      case True
      with \<open>a < 0\<close> eq have "digitsOf (nat (- a)) = digitsOf (nat (- b))"
        by (simp add: FormatInt_def)
      then have "nat (- a) = nat (- b)" by (rule digitsOf_inj)
      with True \<open>a < 0\<close> show ?thesis by simp
    next
      case False
      with \<open>a < 0\<close> eq have "CHR ''-'' # digitsOf (nat (- a)) = digitsOf (nat b)"
        by (simp add: FormatInt_def)
      then have "hd (digitsOf (nat b)) = CHR ''-''" by (metis list.sel(1))
      with hd show ?thesis by simp
    qed
  next
    case False
    show ?thesis
    proof (cases "b < 0")
      case True
      with False eq have "digitsOf (nat a) = CHR ''-'' # digitsOf (nat (- b))"
        by (simp add: FormatInt_def)
      then have "hd (digitsOf (nat a)) = CHR ''-''" by (metis list.sel(1))
      with hd show ?thesis by simp
    next
      case b: False
      with False eq have "digitsOf (nat a) = digitsOf (nat b)"
        by (simp add: FormatInt_def)
      then have "nat a = nat b" by (rule digitsOf_inj)
      with False b show ?thesis by simp
    qed
  qed
qed

lemma placeholderName_inj: "placeholderName a = placeholderName b \<Longrightarrow> a = b"
  by (simp add: placeholderName_def FormatInt_inj)


subsection \<open>How the writing operations change the module\<close>

lemma updFunc_fields [simp]:
  "funcs (updFunc n h m) = map (\<lambda>f. if fname f = n then h f else f) (funcs m)"
  "globs (updFunc n h m) = globs m"
  "typeNames (updFunc n h m) = typeNames m"
  "target (updFunc n h m) = target m"
  "nextId (updFunc n h m) = nextId m"
  by (simp_all add: updFunc_def)

lemma find_map_same:
  assumes "\<And>x. P (g x) = P x"
  shows "find P (map g xs) = map_option g (find P xs)"
  by (induction xs) (simp_all add: assms)

lemma lookupFunc_updFunc:
  assumes "\<And>f. fname (h f) = fname f"
  shows "lookupFunc (updFunc n h m) k =
           map_option (\<lambda>f. if fname f = n then h f else f) (lookupFunc m k)"
  unfolding lookupFunc_def updFunc_fields
  by (rule find_map_same) (simp add: assms)

lemma lookupFunc_updFunc_same:
  assumes "\<And>f. fname (h f) = fname f"
  shows "lookupFunc (updFunc n h m) n = map_option h (lookupFunc m n)"
proof -
  have "lookupFunc m n = None \<or> (\<exists>f. lookupFunc m n = Some f \<and> fname f = n)"
    by (cases "lookupFunc m n") (auto simp: lookupFunc_def dest: find_Some_iff[THEN iffD1])
  then show ?thesis
    by (auto simp: lookupFunc_updFunc[of h, OF assms])
qed

lemma fname_appendToBlock [simp]: "fname (appendToBlock k i f) = fname f"
  by (simp add: appendToBlock_def)

lemma find_append_case:
  "find P (xs @ ys) = (case find P xs of None \<Rightarrow> find P ys | Some x \<Rightarrow> Some x)"
  by (induction xs) simp_all

lemma lookupFunc_nextId [simp]: "lookupFunc (m\<lparr>nextId := k\<rparr>) n = lookupFunc m n"
  by (simp add: lookupFunc_def)

lemma lookupFunc_AddFunction:
  "lookupFunc (snd (AddFunction m n t)) k =
     (case lookupFunc m k of
        Some f \<Rightarrow> Some f
      | None \<Rightarrow> if k = n then Some \<lparr>fname = n, ftype = t, blocks = [], flinkage = ExternalLinkage,
            unnamedAddr = False, fsection = [], callConv = 0, fpos = None\<rparr> else None)"
  by (simp add: lookupFunc_def AddFunction_def find_append_case split: option.splits)

lemma fillHandler_lookup:
  assumes "lookupFunc m name = Some f"
  shows "lookupFunc (fillHandler (FuncRef name t) name isSV num ctx fp m) name =
           Some (filled name isSV num ctx fp m f)"
proof -
  have fn: "fname f = name"
    using assms by (auto simp: lookupFunc_def dest: find_Some_iff[THEN iffD1])
  show ?thesis
    using assms fn
    by (simp add: fillHandler_def SetUnnamedAddr_def SetSection_def SetLinkage_def
        AddBasicBlock_def SetFunctionCallConv_def CreateCall_def CreateRetVoid_def
        buildAtEnd_def lookupFunc_updFunc_same Let_def filled_def appendToBlock_def
        nth_append)
qed

lemma fillHandler_fields [simp]:
  "globs (fillHandler fn name isSV num ctx fp m) = globs m"
  "typeNames (fillHandler fn name isSV num ctx fp m) = typeNames m"
  "target (fillHandler fn name isSV num ctx fp m) = target m"
  by (simp_all add: fillHandler_def SetUnnamedAddr_def SetSection_def SetLinkage_def
      AddBasicBlock_def SetFunctionCallConv_def CreateCall_def CreateRetVoid_def
      buildAtEnd_def Let_def split: val.splits)

lemma fillHandler_nextId:
  "nextId (fillHandler (FuncRef name t) name isSV num ctx fp m) = Suc (Suc (nextId m))"
  by (simp add: fillHandler_def SetUnnamedAddr_def SetSection_def SetLinkage_def
      AddBasicBlock_def SetFunctionCallConv_def CreateCall_def CreateRetVoid_def
      buildAtEnd_def Let_def)


subsection \<open>Rewriting and erasing keep the functions' attributes\<close>

lemma keeps_id: "keeps (\<lambda>f. f)"
  by (simp add: keeps_def)

lemma keeps_comp: "keeps h \<Longrightarrow> keeps k \<Longrightarrow> keeps (\<lambda>f. h (k f))"
  by (simp add: keeps_def)

lemma lookupFunc_map_keeps:
  assumes "keeps h" and "funcs m' = map h (funcs m)"
  shows "lookupFunc m' n = map_option h (lookupFunc m n)"
  unfolding lookupFunc_def assms(2)
  by (rule find_map_same) (use assms(1) in \<open>simp add: keeps_def\<close>)

lemma mapInsts_fields [simp]:
  "globs (mapInsts g m) = globs m"
  "typeNames (mapInsts g m) = typeNames m"
  "target (mapInsts g m) = target m"
  "nextId (mapInsts g m) = nextId m"
  by (simp_all add: mapInsts_def)

lemma mapInsts_keeps:
  "\<exists>h. keeps h \<and> funcs (mapInsts g m) = map h (funcs m)"
  by (rule exI[where x="\<lambda>f. f\<lparr>blocks := map (\<lambda>b. (fst b, map g (snd b))) (blocks f)\<rparr>"])
     (simp add: keeps_def mapInsts_def comp_def)

lemma RAUW_fields [simp]:
  "map gname (globs (ReplaceAllUsesWith old new m)) = map gname (globs m)"
  "map gtype (globs (ReplaceAllUsesWith old new m)) = map gtype (globs m)"
  "typeNames (ReplaceAllUsesWith old new m) = typeNames m"
  "target (ReplaceAllUsesWith old new m) = target m"
  "nextId (ReplaceAllUsesWith old new m) = nextId m"
  by (simp_all add: ReplaceAllUsesWith_def comp_def)

lemma RAUW_keeps:
  "\<exists>h. keeps h \<and> funcs (ReplaceAllUsesWith old new m) = map h (funcs m)"
  using mapInsts_keeps[of "\<lambda>x. x\<lparr>operands := map (substVal old new) (operands x)\<rparr>" m]
  by (simp add: ReplaceAllUsesWith_def)

lemma rewriteUses_errs:
  "fst (rewriteUses g num us (es, m)) =
     es @ map (\<lambda>u. ErrorAt g ''internal error: expected a ptrtoint'')
            (filter (\<lambda>u. \<not> IsAConstantExpr u \<or> Opcode u \<noteq> Some PtrToInt) us)"
  by (induction us arbitrary: es m) simp_all

lemma rewriteUses_keeps:
  "\<exists>h. keeps h \<and> funcs (snd (rewriteUses g num us (es, m))) = map h (funcs m)"
proof (induction us arbitrary: es m)
  case Nil
  show ?case by (rule exI[where x="\<lambda>f. f"]) (simp add: keeps_id)
next
  case (Cons u us)
  show ?case
  proof (cases "\<not> IsAConstantExpr u \<or> Opcode u \<noteq> Some PtrToInt")
    case True
    then show ?thesis using Cons.IH by simp
  next
    case False
    obtain h1 where h1: "keeps h1" "funcs (ReplaceAllUsesWith u num m) = map h1 (funcs m)"
      using RAUW_keeps by blast
    obtain h2 where h2: "keeps h2"
      "funcs (snd (rewriteUses g num us (es, ReplaceAllUsesWith u num m))) =
         map h2 (funcs (ReplaceAllUsesWith u num m))"
      using Cons.IH by blast
    show ?thesis
      by (rule exI[where x="\<lambda>f. h2 (h1 f)"])
         (use False h1 h2 in \<open>simp add: keeps_comp comp_def\<close>)
  qed
qed

lemma rewriteUses_fields:
  "map gname (globs (snd (rewriteUses g num us (es, m)))) = map gname (globs m) \<and>
   map gtype (globs (snd (rewriteUses g num us (es, m)))) = map gtype (globs m) \<and>
   typeNames (snd (rewriteUses g num us (es, m))) = typeNames m \<and>
   target (snd (rewriteUses g num us (es, m))) = target m \<and>
   nextId (snd (rewriteUses g num us (es, m))) = nextId m"
  by (induction us arbitrary: es m) simp_all

lemma EraseGlobal_fields [simp]:
  "funcs (EraseFromParentAsGlobal v m) = funcs m"
  "typeNames (EraseFromParentAsGlobal v m) = typeNames m"
  "target (EraseFromParentAsGlobal v m) = target m"
  "nextId (EraseFromParentAsGlobal v m) = nextId m"
  by (simp_all add: EraseFromParentAsGlobal_def split: val.splits)

lemma EraseGlobal_names:
  "gname ` set (globs (EraseFromParentAsGlobal (GlobalRef n t) m)) =
     gname ` set (globs m) - {n}"
  by (auto simp: EraseFromParentAsGlobal_def)

subsection \<open>The state that createHandler returns\<close>

lemma createHandler_errs:
  "errs (createHandler st g name isSV n num ctx fp fn m) =
     errs st @ map (\<lambda>u. ErrorAt g ''internal error: expected a ptrtoint'')
       (filter (\<lambda>u. \<not> IsAConstantExpr u \<or> Opcode u \<noteq> Some PtrToInt)
          (getUses (fillHandler fn name isSV num ctx fp m) g))"
  by (simp add: createHandler_def Let_def split_def rewriteUses_errs)

lemma createHandler_softwareVector:
  "softwareVector (createHandler st g name isSV n num ctx fp fn m) =
     (if isSV then mapSet n fn (softwareVector st) else softwareVector st)"
  by (simp add: createHandler_def Let_def split_def)

lemma createHandler_lookup:
  assumes "lookupFunc m name = Some f"
  shows "\<exists>h. keeps h \<and>
     lookupFunc (modl (createHandler st g name isSV n num ctx fp (FuncRef name t) m)) name =
       Some (h (filled name isSV num ctx fp m f))"
proof -
  let ?m7 = "fillHandler (FuncRef name t) name isSV num ctx fp m"
  obtain h where h: "keeps h"
    "funcs (snd (rewriteUses g num (getUses ?m7 g) (errs st, ?m7))) = map h (funcs ?m7)"
    using rewriteUses_keeps by blast
  have "lookupFunc (modl (createHandler st g name isSV n num ctx fp (FuncRef name t) m)) name =
        lookupFunc (snd (rewriteUses g num (getUses ?m7 g) (errs st, ?m7))) name"
    by (simp add: createHandler_def Let_def split_def lookupFunc_def)
  also have "\<dots> = map_option h (lookupFunc ?m7 name)"
    by (rule lookupFunc_map_keeps[OF h])
  finally show ?thesis
    using h(1) fillHandler_lookup[OF assms] by auto
qed

lemma createHandler_globs:
  "gname ` set (globs (modl (createHandler st (GlobalRef gn gt) name isSV n num ctx fp fn m))) =
     gname ` set (globs m) - {gn}"
proof -
  let ?g = "GlobalRef gn gt"
  let ?m7 = "fillHandler fn name isSV num ctx fp m"
  have "set (map gname (globs (snd (rewriteUses ?g num (getUses ?m7 ?g) (errs st, ?m7))))) =
        set (map gname (globs ?m7))"
    using rewriteUses_fields[of ?g num "getUses ?m7 ?g" "errs st" ?m7] by simp
  then show ?thesis
    by (simp add: createHandler_def Let_def split_def EraseGlobal_names)
qed

lemma createHandler_nextId:
  "nextId (modl (createHandler st g name isSV n num ctx fp (FuncRef name t) m)) =
     Suc (Suc (nextId m))"
  using rewriteUses_fields[of g num _ "errs st" "fillHandler (FuncRef name t) name isSV num ctx fp m"]
  by (simp add: createHandler_def Let_def split_def fillHandler_nextId)

lemma existingHandler_Inr:
  assumes "existingHandler m0 g name num ctx fp = Inr (fn, m)"
  shows "\<exists>t f. fn = FuncRef name t \<and> lookupFunc m name = Some f \<and> blocks f = [] \<and>
           globs m = globs m0 \<and> nextId m = nextId m0 \<and> typeNames m = typeNames m0 \<and>
           allInsts m = allInsts m0"
proof (cases "lookupFunc m0 name")
  case None
  with assms have eq: "fn = fst (AddFunction m0 name fnType)" "m = snd (AddFunction m0 name fnType)"
    by (auto simp: existingHandler_def NamedFunction_def Let_def)
  have "\<exists>f. lookupFunc m name = Some f \<and> blocks f = []"
    using None by (simp add: eq lookupFunc_AddFunction)
  moreover have "fn = FuncRef name (PtrTy fnType)" "globs m = globs m0" "nextId m = nextId m0"
    "typeNames m = typeNames m0" "allInsts m = allInsts m0"
    by (simp_all add: eq AddFunction_def allInsts_def funcInsts_def)
  ultimately show ?thesis by blast
next
  case (Some f)
  with assms show ?thesis
    by (auto simp: existingHandler_def NamedFunction_def IsDeclaration_def Let_def
        split: if_splits)
qed


subsection \<open>Uses only grow when instructions are added\<close>

lemma set_getUses:
  "v \<noteq> NilValue \<Longrightarrow>
   set (getUses m v) =
     {Reg (iid i) (ity i) |i. i \<in> set (allInsts m) \<and> v \<in> set (operands i)} \<union>
     {c. c \<in> set (constantsOf m) \<and> v \<in> set (directOperands c)} \<union>
     {GlobalRef (gname g) (gtype g) |g. g \<in> set (globs m) \<and> ginit g = v}"
proof -
  assume v: "v \<noteq> NilValue"
  have a: "set (concat (map (\<lambda>i. map (\<lambda>x. Reg (iid i) (ity i)) (filter (\<lambda>x. x = v) (operands i)))
                    (allInsts m))) =
           {Reg (iid i) (ity i) |i. i \<in> set (allInsts m) \<and> v \<in> set (operands i)}"
    by (induction "allInsts m") auto
  have b: "set (concat (map (\<lambda>c. map (\<lambda>x. c) (filter (\<lambda>x. x = v) (directOperands c)))
                    (constantsOf m))) =
           {c. c \<in> set (constantsOf m) \<and> v \<in> set (directOperands c)}"
    by (induction "constantsOf m") auto
  have c: "set (map (\<lambda>g. GlobalRef (gname g) (gtype g)) (filter (\<lambda>g. ginit g = v) (globs m))) =
           {GlobalRef (gname g) (gtype g) |g. g \<in> set (globs m) \<and> ginit g = v}"
    by auto
  show ?thesis
    unfolding getUses_def using v by (simp only: if_False set_append a b c Un_assoc)
qed

lemma set_constantsOf:
  "set (constantsOf m) = (\<Union>x\<in>set (moduleRoots m). set (subterms x))"
  by (auto simp: constantsOf_def)

lemma set_moduleRoots:
  "set (moduleRoots m) = (\<Union>i\<in>set (allInsts m). set (operands i)) \<union> ginit ` set (globs m)"
  by (auto simp: moduleRoots_def)

lemma getUses_mono:
  assumes "set (allInsts m) \<subseteq> set (allInsts m')" and "set (globs m) \<subseteq> set (globs m')"
  shows "set (getUses m v) \<subseteq> set (getUses m' v)"
proof (cases "v = NilValue")
  case True
  then show ?thesis by (simp add: getUses_def)
next
  case False
  have "set (moduleRoots m) \<subseteq> set (moduleRoots m')"
    using assms unfolding set_moduleRoots by blast
  then have "set (constantsOf m) \<subseteq> set (constantsOf m')"
    unfolding set_constantsOf by blast
  with assms show ?thesis
    unfolding set_getUses[OF False] by blast
qed

lemma funcInsts_appendToBlock:
  "set (funcInsts f) \<subseteq> set (funcInsts (appendToBlock k i f))"
proof
  fix x assume "x \<in> set (funcInsts f)"
  then obtain b where b: "b \<in> set (blocks f)" "x \<in> set (snd b)"
    by (auto simp: funcInsts_def)
  then obtain j where j: "j < length (blocks f)" "blocks f ! j = b"
    by (auto simp: in_set_conv_nth)
  show "x \<in> set (funcInsts (appendToBlock k i f))"
  proof (cases "k < length (blocks f)")
    case False
    with \<open>x \<in> set (funcInsts f)\<close> show ?thesis by (simp add: appendToBlock_def)
  next
    case True
    let ?bs = "(blocks f)[k := (fst (blocks f ! k), snd (blocks f ! k) @ [i])]"
    have "x \<in> set (snd (?bs ! j))"
      using j b by (cases "j = k") (simp_all add: nth_list_update)
    moreover have "?bs ! j \<in> set ?bs" using j by (simp add: nth_mem del: set_update_memI)
    ultimately show ?thesis
      using True by (auto simp: appendToBlock_def funcInsts_def)
  qed
qed

lemma allInsts_updFunc_mono:
  assumes "\<And>f. set (funcInsts f) \<subseteq> set (funcInsts (h f))"
  shows "set (allInsts m) \<subseteq> set (allInsts (updFunc n h m))"
proof
  fix x assume "x \<in> set (allInsts m)"
  then obtain f where f: "f \<in> set (funcs m)" "x \<in> set (funcInsts f)"
    by (auto simp: allInsts_def)
  let ?g = "if fname f = n then h f else f"
  have "x \<in> set (funcInsts ?g)" using f(2) assms[of f] by auto
  moreover have "?g \<in> set (funcs (updFunc n h m))" using f(1) by (simp add: updFunc_def)
  ultimately show "x \<in> set (allInsts (updFunc n h m))"
    unfolding allInsts_def by (simp only: set_concat set_map) blast
qed

lemma allInsts_nextId [simp]: "allInsts (m\<lparr>nextId := k\<rparr>) = allInsts m"
  by (simp add: allInsts_def)

lemma fillHandler_allInsts:
  "set (allInsts m) \<subseteq> set (allInsts (fillHandler (FuncRef name t) name isSV num ctx fp m))"
proof -
  have a: "\<And>n h m. (\<And>f. funcInsts (h f) = funcInsts f) \<Longrightarrow>
             set (allInsts m) \<subseteq> set (allInsts (updFunc n h m))"
    by (rule allInsts_updFunc_mono) simp
  have b: "\<And>n k i m. set (allInsts m) \<subseteq> set (allInsts (updFunc n (appendToBlock k i) m))"
    by (rule allInsts_updFunc_mono) (rule funcInsts_appendToBlock)
  let ?m1 = "SetUnnamedAddr (FuncRef name t) True m"
  let ?m2 = "SetSection (FuncRef name t) (''.text.'' @ name) ?m1"
  let ?m3 = "if isSV then SetLinkage (FuncRef name t) InternalLinkage ?m2 else ?m2"
  let ?m4 = "snd (AddBasicBlock (FuncRef name t) ''entry'' ?m3)"
  let ?m5 = "if take 3 (target ?m4) = ''avr'' then SetFunctionCallConv (FuncRef name t) 85 ?m4
             else ?m4"
  let ?eb = "fst (AddBasicBlock (FuncRef name t) ''entry'' ?m3)"
  let ?m6 = "snd (CreateCall ?eb fp [num, ctx, nullptr] ?m5)"
  have 1: "set (allInsts m) \<subseteq> set (allInsts ?m1)"
    unfolding SetUnnamedAddr_def by (rule a) (simp add: funcInsts_def)
  have 2: "set (allInsts ?m1) \<subseteq> set (allInsts ?m2)"
    unfolding SetSection_def by (rule a) (simp add: funcInsts_def)
  have 3: "set (allInsts ?m2) \<subseteq> set (allInsts ?m3)"
    using a[of "\<lambda>f. f\<lparr>flinkage := InternalLinkage\<rparr>" ?m2 name]
    by (simp add: SetLinkage_def funcInsts_def)
  have 4: "set (allInsts ?m3) \<subseteq> set (allInsts ?m4)"
    using a[of "\<lambda>f. f\<lparr>blocks := blocks f @ [(''entry'', [])]\<rparr>" ?m3 name]
    by (simp add: AddBasicBlock_def funcInsts_def)
  have 5: "set (allInsts ?m4) \<subseteq> set (allInsts ?m5)"
    using a[of "\<lambda>f. f\<lparr>callConv := 85\<rparr>" ?m4 name]
    by (simp add: SetFunctionCallConv_def funcInsts_def)
  have eb: "?eb = BlockRef name (case lookupFunc ?m3 name of Some f \<Rightarrow> length (blocks f) | None \<Rightarrow> 0)"
    by (simp add: AddBasicBlock_def)
  have 6: "set (allInsts ?m5) \<subseteq> set (allInsts ?m6)"
    unfolding eb CreateCall_def buildAtEnd_def using b by simp
  have 7: "set (allInsts ?m6) \<subseteq> set (allInsts (CreateRetVoid ?eb ?m6))"
    unfolding eb CreateRetVoid_def buildAtEnd_def using b by simp
  have eq: "fillHandler (FuncRef name t) name isSV num ctx fp m = CreateRetVoid ?eb ?m6"
    by (simp add: fillHandler_def Let_def split_def)
  note 1
  also note 2
  also note 3
  also note 4
  also note 5
  also note 6
  also note 7
  finally show ?thesis unfolding eq .
qed


subsection \<open>One iteration of the loop over the handler objects\<close>

lemma lowerHandler_reaches:
  assumes init: "Initializer (modl st) global = Some initializer"
    and num: "SExtValue (ConstExtractValue initializer [Suc 0, 0]) = Some n"
    and name: "resolveName hasSV handlerNames n = Some (name, isSV)"
    and fv: "extractFuncValue (modl st) global initializer =
               Inr (Inr (handlerContext, handlerFuncPtr))"
  shows "lowerHandler hasSV handlerNames st global =
     (case existingHandler (modl st) global name (ConstExtractValue initializer [Suc 0, 0])
             handlerContext handlerFuncPtr of
        Inl None \<Rightarrow> Inr st
      | Inl (Some e) \<Rightarrow> Inr (st\<lparr>errs := errs st @ [e]\<rparr>)
      | Inr (fn, m) \<Rightarrow>
          Inr (createHandler st global name isSV n (ConstExtractValue initializer [Suc 0, 0])
                 handlerContext handlerFuncPtr fn m))"
  using assms by (simp add: lowerHandler_def orCrash_def Let_def)

lemma map_of_mapSet: "map_of (mapSet k v sv) k = Some v"
proof -
  have "map_of (filter (\<lambda>p. fst p \<noteq> k) sv) k = None"
    by (induction sv) auto
  then show ?thesis by (simp add: mapSet_def map_add_def)
qed

lemma keeps_blocks: "keeps h \<Longrightarrow> blocks f \<noteq> [] \<Longrightarrow> blocks (h f) \<noteq> []"
proof -
  assume k: "keeps h" and b: "blocks f \<noteq> []"
  from k have "map fst (blocks (h f)) = map fst (blocks f)" by (simp add: keeps_def)
  with b show ?thesis by auto
qed

lemma existingHandler_found:
  assumes fn: "lookupFunc m name = Some f"
  shows "existingHandler m global name num handlerContext handlerFuncPtr =
     (if ftype f \<noteq> fnType then
        Inl (Some (ErrorAt global (name @ '' redeclared with a different signature'')))
      else if blocks f \<noteq> [] then
        (if identicalHandler m (firstInstruction m (FuncRef name (PtrTy (ftype f))))
              handlerFuncPtr num handlerContext
         then Inl None
         else Inl (Some (ErrorAt global
                (name @ '' redeclared in this program'' @
                 (case fpos f of
                    Some pos \<Rightarrow> [CHR 0x0A, CHR 0x09] @ ''previous declaration at '' @ pos
                  | None \<Rightarrow> [])))))
      else Inr (FuncRef name (PtrTy (ftype f)), m))"
  using fn
  by (simp add: existingHandler_def NamedFunction_def IsDeclaration_def getPosition_def Let_def)


subsection \<open>The loop that builds the dispatcher\<close>

lemma mapInsts_funcs: "funcs (mapInsts h m) = map (instMap h) (funcs m)"
  by (simp add: mapInsts_def instMap_def)

lemma fname_instMap [simp]: "fname (instMap h f) = fname f"
  by (simp add: instMap_def)

lemma lookupFunc_mapInsts:
  "lookupFunc (mapInsts h m) n = map_option (instMap h) (lookupFunc m n)"
  unfolding lookupFunc_def mapInsts_funcs by (rule find_map_same) simp

lemma lookupFunc_fname: "lookupFunc m n = Some f \<Longrightarrow> fname f = n"
  by (auto simp: lookupFunc_def dest: find_Some_iff[THEN iffD1])

lemma addCaseTo_other:
  "\<forall>x\<in>set (snd b). iid x \<noteq> N \<Longrightarrow> (fst b, map (addCaseTo N a d) (snd b)) = b"
  by (cases b) (simp add: addCaseTo_def map_idI)

lemma dispatchCase_lookup:
  assumes g: "lookupFunc m D = Some g" and hd: "map_of sv ident = Some handler"
  shows "\<exists>m'. dispatchCase (FuncRef D t) iv (Reg N swt) sv m ident = Inr m' \<and>
     lookupFunc m' D =
       Some (instMap (addCaseTo N (ConstInt (typeOf iv) (word_of_int ident) True)
                        (BlockRef D (length (blocks g))))
               (g\<lparr>blocks := blocks g @ [caseBlock sv (nextId m) ident]\<rparr>)) \<and>
     nextId m' = Suc (Suc (nextId m))"
  using g hd lookupFunc_fname[OF g]
  by (simp add: dispatchCase_def AddBasicBlock_def CreateCall_def CreateRetVoid_def
      buildAtEnd_def AddCase_def orCrash_def Let_def lookupFunc_mapInsts
      lookupFunc_updFunc_same appendToBlock_def nth_append caseBlock_def plainInst_def
      addCaseTo_def[abs_def])


lemma addCaseTo_switch:
  "addCaseTo N a d (switchInst N ops) = switchInst N (ops @ [a, d])"
  by (simp add: addCaseTo_def switchInst_def plainInst_def)

lemma caseBlock_ids:
  "N < i \<Longrightarrow> \<forall>x\<in>set (snd (caseBlock sv i ident)). iid x \<noteq> N"
  by (simp add: caseBlock_def plainInst_def)

lemma dispatchLoop:
  assumes keys: "\<forall>ident\<in>set ids. map_of sv ident \<noteq> None"
    and g: "lookupFunc m D = Some g"
    and shape: "drop k (blocks g) = (''entry'', [switchInst N ops]) # dflt # cs"
    and len: "length (blocks g) = k + 2 + length cs"
    and fresh: "\<forall>b\<in>set (dflt # cs). \<forall>x\<in>set (snd b). iid x \<noteq> N"
    and N: "N < nextId m"
  shows "\<exists>m' g'. foldCrash (dispatchCase (FuncRef D t) iv (Reg N swt) sv) ids m = Inr m' \<and>
     lookupFunc m' D = Some g' \<and>
     drop k (blocks g') =
       (''entry'', [switchInst N (ops @ caseOperands (typeOf iv) D (k + 2 + length cs) ids)])
         # dflt # cs @ caseBlocks sv (nextId m) ids \<and>
     length (blocks g') = k + 2 + length cs + length ids \<and>
     nextId m' = nextId m + 2 * length ids \<and>
     fname g' = fname g \<and> ftype g' = ftype g"
  using assms
proof (induction ids arbitrary: m g ops cs)
  case Nil
  then show ?case by simp
next
  case (Cons ident ids)
  from Cons.prems(1) obtain handler where hd: "map_of sv ident = Some handler" by auto
  let ?a = "ConstInt (typeOf iv) (word_of_int ident) True"
  let ?d = "BlockRef D (length (blocks g))"
  let ?cb = "caseBlock sv (nextId m) ident"
  let ?g1 = "instMap (addCaseTo N ?a ?d) (g\<lparr>blocks := blocks g @ [?cb]\<rparr>)"
  from dispatchCase_lookup[OF Cons.prems(2) hd, of t iv N swt] obtain m1 where
    step: "dispatchCase (FuncRef D t) iv (Reg N swt) sv m ident = Inr m1" and
    g1: "lookupFunc m1 D = Some ?g1" and
    n1: "nextId m1 = Suc (Suc (nextId m))"
    by blast
  have kle: "k \<le> length (blocks g)" using Cons.prems(4) by simp
  have cbfresh: "\<forall>x\<in>set (snd ?cb). iid x \<noteq> N"
    by (rule caseBlock_ids) (rule Cons.prems(6))
  have same: "\<And>b. b \<in> set (dflt # cs @ [?cb]) \<Longrightarrow>
                 (fst b, map (addCaseTo N ?a ?d) (snd b)) = b"
    using Cons.prems(5) cbfresh by (intro addCaseTo_other) auto
  have "drop k (blocks ?g1) =
          map (\<lambda>b. (fst b, map (addCaseTo N ?a ?d) (snd b)))
            ((''entry'', [switchInst N ops]) # dflt # cs @ [?cb])"
    using kle Cons.prems(3) by (simp add: instMap_def drop_map)
  also have "\<dots> = (''entry'', [switchInst N (ops @ [?a, ?d])]) #
                   map (\<lambda>b. (fst b, map (addCaseTo N ?a ?d) (snd b))) (dflt # cs @ [?cb])"
    by (simp add: addCaseTo_switch)
  also have "map (\<lambda>b. (fst b, map (addCaseTo N ?a ?d) (snd b))) (dflt # cs @ [?cb]) =
               dflt # cs @ [?cb]"
    by (rule map_idI) (rule same)
  finally have shape1: "drop k (blocks ?g1) =
      (''entry'', [switchInst N (ops @ [?a, ?d])]) # dflt # (cs @ [?cb])" by simp
  have len1: "length (blocks ?g1) = k + 2 + length (cs @ [?cb])"
    using Cons.prems(4) by (simp add: instMap_def)
  have fresh1: "\<forall>b\<in>set (dflt # (cs @ [?cb])). \<forall>x\<in>set (snd b). iid x \<noteq> N"
    using Cons.prems(5) cbfresh by auto
  have N1: "N < nextId m1" using Cons.prems(6) n1 by simp
  have keys1: "\<forall>ident\<in>set ids. map_of sv ident \<noteq> None" using Cons.prems(1) by simp
  from Cons.IH[OF keys1 g1 shape1 len1 fresh1 N1] obtain m' g' where
    r: "foldCrash (dispatchCase (FuncRef D t) iv (Reg N swt) sv) ids m1 = Inr m'"
       "lookupFunc m' D = Some g'"
       "drop k (blocks g') =
          (''entry'', [switchInst N ((ops @ [?a, ?d]) @
              caseOperands (typeOf iv) D (k + 2 + length (cs @ [?cb])) ids)])
            # dflt # (cs @ [?cb]) @ caseBlocks sv (nextId m1) ids"
       "length (blocks g') = k + 2 + length (cs @ [?cb]) + length ids"
       "nextId m' = nextId m1 + 2 * length ids"
       "fname g' = fname ?g1" "ftype g' = ftype ?g1"
    by blast
  have d: "?d = BlockRef D (k + 2 + length cs)" using Cons.prems(4) by simp
  show ?case
    using step r n1 unfolding d
    by (intro exI[where x=m'] exI[where x=g']) (simp add: instMap_def)
qed


lemma sorted_ids:
  "sorted (sort (remdups (map fst sv))) \<and> distinct (sort (remdups (map fst sv))) \<and>
   set (sort (remdups (map fst sv))) = fst ` set sv"
  by simp

lemma map_of_keys: "\<forall>ident\<in>set (sort (remdups (map fst sv))). map_of sv ident \<noteq> None"
  by (simp add: map_of_eq_None_iff)

subsection \<open>Every writing operation evolves the module\<close>



lemma evolves_nextId: "evolves m m' \<Longrightarrow> evolves m (m'\<lparr>nextId := Suc (nextId m')\<rparr>)"
  by (auto simp: evolves_def instIds_def gsig_def)




lemma instIds_nextId [simp]: "instIds (m\<lparr>nextId := k\<rparr>) = instIds m"
  by (simp add: instIds_def)

lemma gsig_simps [simp]:
  "gsig (m\<lparr>nextId := k\<rparr>) = gsig m"
  "gsig (updFunc n h m) = gsig m"
  by (simp_all add: gsig_def)




lemma allInsts_globs [simp]: "allInsts (m\<lparr>globs := gs\<rparr>) = allInsts m"
  by (simp add: allInsts_def)




lemma eraseIds_fields [simp]:
  "globs (eraseIds J m) = globs m"
  "typeNames (eraseIds J m) = typeNames m"
  "nextId (eraseIds J m) = nextId m"
  "target (eraseIds J m) = target m"
  by (simp_all add: eraseIds_def)





lemma evolves_AddFunction: "evolves m (snd (AddFunction m n t))"
  by (auto simp: AddFunction_def evolves_def gsig_def instIds_def allInsts_def funcInsts_def)






subsection \<open>Every phase evolves the module\<close>













subsection \<open>Erasing instructions by number\<close>











subsection \<open>The loop over the calls to runtime/interrupt.Register\<close>



subsection \<open>The loop over the handler objects\<close>







subsection \<open>The loop over the calls to runtime/interrupt.use\<close>



subsection \<open>Facts about the concrete modules\<close>

lemma descriptor_fields:
  "ConstExtractValue (ginit (descriptor name num handler)) [Suc 0, 0] = CInt (IntTy 32) num"
  "ConstExtractValue (ginit (descriptor name num handler)) [0, 0] = CNull i8ptrType"
  "ConstExtractValue (ginit (descriptor name num handler)) [0, Suc 0] = FuncRef handler handlerPtrType"
  by (simp_all add: descriptor_def ConstExtractValue_def)

lemma descriptor_funcValue:
  "extractFuncValue m g (ginit (descriptor name num handler)) =
     Inr (Inr (CNull i8ptrType, FuncRef handler handlerPtrType))"
  by (simp add: extractFuncValue_def descriptor_fields Let_def isFunctionPointer_def
      handlerPtrType_def)

lemma FormatInt_3: "FormatInt 3 = ''3''"
  by code_simp

lemma storeModule_init:
  "Initializer (modl (lowState storeModule)) (GlobalRef ''a'' (PtrTy handleType)) =
     Some (ginit (descriptor ''a'' 3 ''h''))"
  by (simp add: lowState_def storeModule_def lookupGlobal_def descriptor_def)

lemma storeModule_fresh:
  "existingHandler (modl (lowState storeModule)) g
     (CHR ''r'' # name) num ctx fp =
   Inr (AddFunction (modl (lowState storeModule)) (CHR ''r'' # name) fnType)"
  "existingHandler (modl (lowState storeModule)) g
     (CHR ''U'' # name) num ctx fp =
   Inr (AddFunction (modl (lowState storeModule)) (CHR ''U'' # name) fnType)"
  by (simp_all add: existingHandler_def NamedFunction_def lookupFunc_def lowState_def
      storeModule_def funcDecl_def)

lemma FormatInt_1_7: "FormatInt 1 = ''1''" "FormatInt 7 = ''7''"
  by code_simp+

lemma ConstInt_small:
  "ConstInt i32 1 True = CInt i32 1"
  "ConstInt i32 3 True = CInt i32 3"
  "ConstInt i32 7 True = CInt i32 7"
  by (simp_all add: ConstInt_def i32_def)

subsection \<open>The wrapper that an iteration leaves behind\<close>

lemma self_subterm: "x \<in> set (subterms x)"
  by (cases x) simp_all

lemma subterms_trans: "u \<in> set (subterms x) \<Longrightarrow> set (subterms u) \<subseteq> set (subterms x)"
proof (induction x rule: subterms.induct)
  case (1 t vs)
  show ?case
  proof (cases "u = CStruct t vs")
    case True
    then show ?thesis by simp
  next
    case False
    with 1(2) obtain v where v: "v \<in> set vs" "u \<in> set (subterms v)" by auto
    from 1(1)[OF v] v(1) show ?thesis by auto
  qed
next
  case (2 oc vs t)
  show ?case
  proof (cases "u = CExpr oc vs t")
    case True
    then show ?thesis by simp
  next
    case False
    with 2(2) obtain v where v: "v \<in> set vs" "u \<in> set (subterms v)" by auto
    from 2(1)[OF v] v(1) show ?thesis by auto
  qed
qed simp_all

lemma substVal_id: "old \<notin> set (subterms x) \<Longrightarrow> substVal old new x = x"
proof (induction x rule: subterms.induct)
  case (1 t vs)
  then have "\<And>v. v \<in> set vs \<Longrightarrow> substVal old new v = v" by auto
  then have "map (substVal old new) vs = vs" by (simp add: map_idI)
  with 1(2) show ?case by auto
next
  case (2 oc vs t)
  then have "\<And>v. v \<in> set vs \<Longrightarrow> substVal old new v = v" by auto
  then have "map (substVal old new) vs = vs" by (simp add: map_idI)
  with 2(2) show ?case by auto
qed auto

lemma user_mentions:
  assumes u: "u \<in> set (getUses m g)" and c: "IsAConstantExpr u"
  shows "g \<in> set (subterms u)"
proof -
  from u have nn: "g \<noteq> NilValue" by (auto simp: getUses_def)
  from c obtain oc vs t where e: "u = CExpr oc vs t" by (cases u) simp_all
  from u have "g \<in> set (directOperands u)"
    unfolding set_getUses[OF nn] e by auto
  then have "g \<in> set vs" by (simp add: e)
  with self_subterm[of g] show ?thesis by (auto simp: e)
qed

lemma user_not_inside:
  assumes "u \<in> set (getUses m g)" and "IsAConstantExpr u" and "g \<notin> set (subterms x)"
  shows "u \<notin> set (subterms x)"
  using user_mentions[OF assms(1,2)] subterms_trans[of u x] assms(3) by auto

lemma instMap_instMap: "instMap h (instMap k f) = instMap (\<lambda>x. h (k x)) f"
  by (simp add: instMap_def comp_def)

lemma substInst_substInst: "substInst \<sigma> (substInst \<tau> x) = substInst (\<lambda>v. \<sigma> (\<tau> v)) x"
  by (simp add: substInst_def comp_def)

lemma instMap_id: "instMap (substInst (\<lambda>v. v)) f = f"
  by (simp add: instMap_def substInst_def map_idI)

lemma RAUW_funcs:
  "funcs (ReplaceAllUsesWith old new m) = map (instMap (substInst (substVal old new))) (funcs m)"
  by (simp add: ReplaceAllUsesWith_def mapInsts_def instMap_def substInst_def)

text \<open>
  The rewriting of the uses of a handler object is one substitution on the operands of
  all instructions. It leaves alone every value in which no rewritten use occurs.
\<close>

lemma RAUW_globs:
  "globs (ReplaceAllUsesWith old new m) =
     map (\<lambda>g. g\<lparr>ginit := substVal old new (ginit g)\<rparr>) (globs m)"
  by (simp add: ReplaceAllUsesWith_def)

lemma rewriteUses_funcs:
  "\<exists>\<sigma>. funcs (snd (rewriteUses g num us (es, m))) = map (instMap (substInst \<sigma>)) (funcs m) \<and>
       globs (snd (rewriteUses g num us (es, m))) =
         map (\<lambda>x. x\<lparr>ginit := \<sigma> (ginit x)\<rparr>) (globs m) \<and>
       (\<forall>x. (\<forall>u\<in>set us. IsAConstantExpr u \<longrightarrow> u \<notin> set (subterms x)) \<longrightarrow> \<sigma> x = x)"
proof (induction us arbitrary: es m)
  case Nil
  show ?case by (rule exI[of _ "\<lambda>v. v"]) (simp add: instMap_id map_idI)
next
  case (Cons u us)
  show ?case
  proof (cases "\<not> IsAConstantExpr u \<or> Opcode u \<noteq> Some PtrToInt")
    case True
    from Cons.IH[of "es @ [ErrorAt g ''internal error: expected a ptrtoint'']" m]
    obtain \<sigma> where s: "funcs (snd (rewriteUses g num us
          (es @ [ErrorAt g ''internal error: expected a ptrtoint''], m))) =
          map (instMap (substInst \<sigma>)) (funcs m)"
      "globs (snd (rewriteUses g num us
          (es @ [ErrorAt g ''internal error: expected a ptrtoint''], m))) =
          map (\<lambda>x. x\<lparr>ginit := \<sigma> (ginit x)\<rparr>) (globs m)"
      "\<forall>x. (\<forall>u\<in>set us. IsAConstantExpr u \<longrightarrow> u \<notin> set (subterms x)) \<longrightarrow> \<sigma> x = x"
      by blast
    show ?thesis
      by (rule exI[of _ \<sigma>]) (use True s in auto)
  next
    case False
    let ?m = "ReplaceAllUsesWith u num m"
    from Cons.IH[of es ?m]
    obtain \<sigma> where s: "funcs (snd (rewriteUses g num us (es, ?m))) =
          map (instMap (substInst \<sigma>)) (funcs ?m)"
      "globs (snd (rewriteUses g num us (es, ?m))) =
          map (\<lambda>x. x\<lparr>ginit := \<sigma> (ginit x)\<rparr>) (globs ?m)"
      "\<forall>x. (\<forall>u\<in>set us. IsAConstantExpr u \<longrightarrow> u \<notin> set (subterms x)) \<longrightarrow> \<sigma> x = x"
      by blast
    let ?\<tau> = "\<lambda>v. \<sigma> (substVal u num v)"
    have f: "funcs (snd (rewriteUses g num (u # us) (es, m))) =
          map (instMap (substInst ?\<tau>)) (funcs m)"
      using False s(1)
      by (simp add: RAUW_funcs instMap_instMap substInst_substInst)
    have gl: "globs (snd (rewriteUses g num (u # us) (es, m))) =
          map (\<lambda>x. x\<lparr>ginit := ?\<tau> (ginit x)\<rparr>) (globs m)"
      using False s(2) by (simp add: RAUW_globs comp_def)
    have k: "\<forall>x. (\<forall>w\<in>set (u # us). IsAConstantExpr w \<longrightarrow> w \<notin> set (subterms x)) \<longrightarrow> ?\<tau> x = x"
    proof (intro allI impI)
      fix x assume a: "\<forall>w\<in>set (u # us). IsAConstantExpr w \<longrightarrow> w \<notin> set (subterms x)"
      with False have "u \<notin> set (subterms x)" by simp
      then have "substVal u num x = x" by (rule substVal_id)
      moreover from a s(3) have "\<sigma> x = x" by simp
      ultimately show "?\<tau> x = x" by simp
    qed
    show ?thesis by (rule exI[of _ ?\<tau>]) (use f gl k in blast)
  qed
qed

lemma allInsts_instMap:
  "funcs m' = map (instMap h) (funcs m) \<Longrightarrow> allInsts m' = map h (allInsts m)"
  by (simp add: allInsts_def funcInsts_def instMap_def map_concat comp_def)

lemma lookupInst_instMap:
  assumes "funcs m' = map (instMap h) (funcs m)" and "\<And>x. iid (h x) = iid x"
  shows "lookupInst m' i = map_option h (lookupInst m i)"
  unfolding lookupInst_def allInsts_instMap[OF assms(1)]
  by (rule find_map_same) (simp add: assms(2))

lemma lookupFunc_instMap:
  assumes "funcs m' = map (instMap h) (funcs m)"
  shows "lookupFunc m' n = map_option (instMap h) (lookupFunc m n)"
  unfolding lookupFunc_def assms
  by (rule find_map_same) (simp add: instMap_def)

subsection \<open>The instructions of the module after the wrapper is filled in\<close>

lemma funcInsts_appendToBlock_upper:
  "set (funcInsts (appendToBlock k i f)) \<subseteq> insert i (set (funcInsts f))"
proof (cases "k < length (blocks f)")
  case False
  then show ?thesis by (auto simp: appendToBlock_def)
next
  case True
  show ?thesis
  proof
    fix x assume "x \<in> set (funcInsts (appendToBlock k i f))"
    then obtain b where b:
      "b \<in> set ((blocks f)[k := (fst (blocks f ! k), snd (blocks f ! k) @ [i])])"
      "x \<in> set (snd b)"
      using True by (auto simp: appendToBlock_def funcInsts_def)
    from b(1) have "b = (fst (blocks f ! k), snd (blocks f ! k) @ [i]) \<or> b \<in> set (blocks f)"
      using set_update_subset_insert[of "blocks f" k] by blast
    then show "x \<in> insert i (set (funcInsts f))"
    proof
      assume "b = (fst (blocks f ! k), snd (blocks f ! k) @ [i])"
      with b(2) have "x = i \<or> x \<in> set (snd (blocks f ! k))" by auto
      moreover have "blocks f ! k \<in> set (blocks f)" using True by simp
      ultimately show ?thesis unfolding funcInsts_def by auto
    next
      assume "b \<in> set (blocks f)"
      with b(2) show ?thesis unfolding funcInsts_def by auto
    qed
  qed
qed

lemma allInsts_updFunc_upper:
  assumes "\<And>f. set (funcInsts (h f)) \<subseteq> insert j (set (funcInsts f))"
  shows "set (allInsts (updFunc n h m)) \<subseteq> insert j (set (allInsts m))"
proof
  fix x assume "x \<in> set (allInsts (updFunc n h m))"
  then obtain f where f: "f \<in> set (funcs m)"
    and x: "x \<in> set (funcInsts (if fname f = n then h f else f))"
    by (auto simp: allInsts_def)
  show "x \<in> insert j (set (allInsts m))"
  proof (cases "fname f = n")
    case True
    with x assms[of f] have "x = j \<or> x \<in> set (funcInsts f)" by auto
    with f show ?thesis by (auto simp: allInsts_def)
  next
    case False
    with x f show ?thesis by (auto simp: allInsts_def)
  qed
qed

lemma allInsts_updFunc_same:
  assumes "\<And>f. funcInsts (h f) = funcInsts f"
  shows "set (allInsts (updFunc n h m)) \<subseteq> set (allInsts m)"
proof
  fix x assume "x \<in> set (allInsts (updFunc n h m))"
  then obtain f where f: "f \<in> set (funcs m)"
    and x: "x \<in> set (funcInsts (if fname f = n then h f else f))"
    by (auto simp: allInsts_def)
  from x assms[of f] have "x \<in> set (funcInsts f)" by (cases "fname f = n") auto
  with f show "x \<in> set (allInsts m)" by (auto simp: allInsts_def)
qed

lemma buildAtEnd_upper:
  "set (allInsts (snd (buildAtEnd b oc args ty m))) \<subseteq>
     insert (plainInst (nextId m) oc args ty) (set (allInsts m))"
proof (cases b)
  case (BlockRef fn k)
  have "set (allInsts (updFunc fn (appendToBlock k (plainInst (nextId m) oc args ty)) m)) \<subseteq>
          insert (plainInst (nextId m) oc args ty) (set (allInsts m))"
    by (rule allInsts_updFunc_upper) (rule funcInsts_appendToBlock_upper)
  then show ?thesis using BlockRef by (simp add: buildAtEnd_def plainInst_def)
qed (auto simp: buildAtEnd_def)

lemma fillHandler_upper:
  "set (allInsts (fillHandler fn name isSV num ctx fp m)) \<subseteq>
     {forwardCall (nextId m) num ctx fp, plainInst (Suc (nextId m)) Ret [] VoidTy} \<union>
     set (allInsts m)"
proof -
  let ?m1 = "SetUnnamedAddr fn True m"
  let ?m2 = "SetSection fn (''.text.'' @ name) ?m1"
  let ?m3 = "if isSV then SetLinkage fn InternalLinkage ?m2 else ?m2"
  let ?m4 = "snd (AddBasicBlock fn ''entry'' ?m3)"
  let ?m5 = "if take 3 (target ?m4) = ''avr'' then SetFunctionCallConv fn 85 ?m4 else ?m4"
  let ?eb = "fst (AddBasicBlock fn ''entry'' ?m3)"
  let ?m6 = "snd (CreateCall ?eb fp [num, ctx, nullptr] ?m5)"
  have 1: "set (allInsts ?m1) \<subseteq> set (allInsts m)"
    unfolding SetUnnamedAddr_def by (rule allInsts_updFunc_same) (simp add: funcInsts_def)
  have 2: "set (allInsts ?m2) \<subseteq> set (allInsts ?m1)"
    unfolding SetSection_def by (rule allInsts_updFunc_same) (simp add: funcInsts_def)
  have 3: "set (allInsts ?m3) \<subseteq> set (allInsts ?m2)"
    using allInsts_updFunc_same[of "\<lambda>f. f\<lparr>flinkage := InternalLinkage\<rparr>" "funcName fn" ?m2]
    by (simp add: SetLinkage_def funcInsts_def)
  have 4: "set (allInsts ?m4) \<subseteq> set (allInsts ?m3)"
    using allInsts_updFunc_same[of "\<lambda>f. f\<lparr>blocks := blocks f @ [(''entry'', [])]\<rparr>"
        "funcName fn" ?m3]
    by (simp add: AddBasicBlock_def funcInsts_def)
  have 5: "set (allInsts ?m5) \<subseteq> set (allInsts ?m4)"
    using allInsts_updFunc_same[of "\<lambda>f. f\<lparr>callConv := 85\<rparr>" "funcName fn" ?m4]
    by (simp add: SetFunctionCallConv_def funcInsts_def)
  have n5: "nextId ?m5 = nextId m"
    by (simp add: SetUnnamedAddr_def SetSection_def SetLinkage_def AddBasicBlock_def
        SetFunctionCallConv_def)
  have 6: "set (allInsts ?m6) \<subseteq>
      insert (forwardCall (nextId m) num ctx fp) (set (allInsts ?m5))"
    using buildAtEnd_upper[of ?eb Call "[num, ctx, nullptr] @ [fp]"
        "returnType (ElementType (typeOf fp))" ?m5]
    unfolding n5 by (simp add: CreateCall_def forwardCall_def)
  have n6: "nextId ?m6 = Suc (nextId m)"
    using n5 by (simp add: CreateCall_def buildAtEnd_def AddBasicBlock_def)
  have 7: "set (allInsts (CreateRetVoid ?eb ?m6)) \<subseteq>
      insert (plainInst (Suc (nextId m)) Ret [] VoidTy) (set (allInsts ?m6))"
    using buildAtEnd_upper[of ?eb Ret "[]" VoidTy ?m6]
    unfolding n6 by (simp add: CreateRetVoid_def)
  have eq: "fillHandler fn name isSV num ctx fp m = CreateRetVoid ?eb ?m6"
    by (simp add: fillHandler_def Let_def split_def)
  from 1 2 3 4 5 have "set (allInsts ?m5) \<subseteq> set (allInsts m)" by blast
  with 6 7 show ?thesis unfolding eq by blast
qed

lemma find_unique:
  assumes "y \<in> set xs" and "P y" and "\<And>x. x \<in> set xs \<Longrightarrow> P x \<Longrightarrow> x = y"
  shows "find P xs = Some y"
proof (cases "find P xs")
  case None
  with assms(1,2) show ?thesis by (auto simp: find_None_iff)
next
  case (Some x)
  then have "x \<in> set xs" "P x"
    by (auto simp: find_Some_iff in_set_conv_nth)
  with assms(3) Some show ?thesis by simp
qed

lemma filled_blocks:
  "blocks f = [] \<Longrightarrow> blocks (filled name isSV num ctx fp m f) = wrapperBody (nextId m) num ctx fp"
  by (simp add: filled_def wrapperBody_def forwardCall_def plainInst_def)

lemma fillHandler_lookupInst:
  assumes f: "lookupFunc m name = Some f" and b: "blocks f = []"
    and wf: "\<forall>x\<in>set (allInsts m). iid x < nextId m"
  shows "lookupInst (fillHandler (FuncRef name t) name isSV num ctx fp m) (nextId m) =
           Some (forwardCall (nextId m) num ctx fp)"
proof -
  let ?m7 = "fillHandler (FuncRef name t) name isSV num ctx fp m"
  let ?c = "forwardCall (nextId m) num ctx fp"
  from fillHandler_lookup[OF f, of t isSV num ctx fp]
  have "filled name isSV num ctx fp m f \<in> set (funcs ?m7)"
    by (auto simp: lookupFunc_def find_Some_iff in_set_conv_nth)
  moreover have "?c \<in> set (funcInsts (filled name isSV num ctx fp m f))"
    by (simp add: funcInsts_def filled_blocks[OF b] wrapperBody_def)
  ultimately have inn: "?c \<in> set (allInsts ?m7)" by (auto simp: allInsts_def)
  have un: "x = ?c" if "x \<in> set (allInsts ?m7)" "iid x = nextId m" for x
  proof -
    from that(1) fillHandler_upper[of "FuncRef name t" name isSV num ctx fp m]
    have "x = ?c \<or> x = plainInst (Suc (nextId m)) Ret [] VoidTy \<or> x \<in> set (allInsts m)"
      by auto
    with that(2) wf show ?thesis by (auto simp: plainInst_def)
  qed
  show ?thesis unfolding lookupInst_def
    by (rule find_unique[OF inn]) (simp_all add: forwardCall_def plainInst_def un[unfolded forwardCall_def plainInst_def])
qed

lemma fnames_updFunc:
  assumes "\<And>f. fname (h f) = fname f"
  shows "map fname (funcs (updFunc n h m)) = map fname (funcs m)"
proof -
  have "\<And>f. fname (if fname f = n then h f else f) = fname f" by (simp add: assms)
  then show ?thesis by (simp add: updFunc_def comp_def)
qed

lemma fnames_buildAtEnd:
  "map fname (funcs (snd (buildAtEnd b oc args ty m))) = map fname (funcs m)"
  by (cases b) (simp_all add: buildAtEnd_def fnames_updFunc)

lemma fnames_attr:
  "map fname (funcs (SetUnnamedAddr fn b m)) = map fname (funcs m)"
  "map fname (funcs (SetSection fn s m)) = map fname (funcs m)"
  "map fname (funcs (SetLinkage fn l m)) = map fname (funcs m)"
  "map fname (funcs (SetFunctionCallConv fn cc m)) = map fname (funcs m)"
  "map fname (funcs (snd (AddBasicBlock fn bn m))) = map fname (funcs m)"
  "map fname (funcs (snd (CreateCall eb fp args m))) = map fname (funcs m)"
  "map fname (funcs (CreateRetVoid eb m)) = map fname (funcs m)"
  by (simp_all add: SetUnnamedAddr_def SetSection_def SetLinkage_def SetFunctionCallConv_def
      AddBasicBlock_def CreateCall_def CreateRetVoid_def fnames_buildAtEnd fnames_updFunc)

lemma fillHandler_fnames:
  "map fname (funcs (fillHandler fn name isSV num ctx fp m)) = map fname (funcs m)"
proof -
  let ?m1 = "SetUnnamedAddr fn True m"
  let ?m2 = "SetSection fn (''.text.'' @ name) ?m1"
  let ?m3 = "if isSV then SetLinkage fn InternalLinkage ?m2 else ?m2"
  let ?m4 = "snd (AddBasicBlock fn ''entry'' ?m3)"
  let ?m5 = "if take 3 (target ?m4) = ''avr'' then SetFunctionCallConv fn 85 ?m4 else ?m4"
  let ?eb = "fst (AddBasicBlock fn ''entry'' ?m3)"
  let ?m6 = "snd (CreateCall ?eb fp [num, ctx, nullptr] ?m5)"
  have eq: "fillHandler fn name isSV num ctx fp m = CreateRetVoid ?eb ?m6"
    by (simp add: fillHandler_def Let_def split_def)
  have 3: "map fname (funcs ?m3) = map fname (funcs m)"
    by (cases isSV) (simp_all only: fnames_attr if_True if_False)
  have 5: "map fname (funcs ?m5) = map fname (funcs ?m4)"
    by (simp add: fnames_attr)
  have "map fname (funcs (CreateRetVoid ?eb ?m6)) = map fname (funcs ?m5)"
    by (simp only: fnames_attr)
  also note 5
  also have "map fname (funcs ?m4) = map fname (funcs ?m3)" by (simp only: fnames_attr)
  also note 3
  finally show ?thesis unfolding eq .
qed

lemma existingHandler_free:
  assumes "existingHandler m0 g name num ctx fp = Inr (fn, m)"
  shows "\<exists>t f. fn = FuncRef name t \<and> lookupFunc m name = Some f \<and> blocks f = [] \<and>
           ftype f = fnType \<and> nextId m = nextId m0 \<and> allInsts m = allInsts m0 \<and>
           (case lookupFunc m0 name of
              None \<Rightarrow> fpos f = None \<and> map fname (funcs m) = map fname (funcs m0) @ [name]
            | Some f0 \<Rightarrow> f = f0 \<and> m = m0)"
proof (cases "lookupFunc m0 name")
  case None
  with assms have eq: "fn = fst (AddFunction m0 name fnType)" "m = snd (AddFunction m0 name fnType)"
    by (auto simp: existingHandler_def NamedFunction_def Let_def)
  have "\<exists>f. lookupFunc m name = Some f \<and> blocks f = [] \<and> ftype f = fnType \<and> fpos f = None"
    using None by (simp add: eq lookupFunc_AddFunction)
  moreover have "fn = FuncRef name (PtrTy fnType)" "nextId m = nextId m0"
    "allInsts m = allInsts m0" "map fname (funcs m) = map fname (funcs m0) @ [name]"
    by (simp_all add: eq AddFunction_def allInsts_def funcInsts_def)
  ultimately show ?thesis using None by auto
next
  case (Some f)
  with assms show ?thesis
    by (auto simp: existingHandler_def NamedFunction_def IsDeclaration_def Let_def
        split: if_splits)
qed

text \<open>
  After an iteration has created the wrapper for a handler object, the function of that
  name consists of the forwarding call and the return, and the number of the call names
  the call. The context and the function of the handler object are taken not to refer to
  the handler object itself.
\<close>

lemma createHandler_wrapper:
  assumes ex: "existingHandler m0 (GlobalRef gn gt) name num ctx fp = Inr (fn, m)"
    and wf: "\<forall>x\<in>set (allInsts m0). iid x < nextId m0"
    and nm: "SExtValue num = Some n"
    and c1: "GlobalRef gn gt \<notin> set (subterms ctx)"
    and c2: "GlobalRef gn gt \<notin> set (subterms fp)"
  shows "\<exists>f1. lookupFunc (modl (createHandler st (GlobalRef gn gt) name isSV n num ctx fp fn m))
                  name = Some f1 \<and>
           ftype f1 = fnType \<and> blocks f1 = wrapperBody (nextId m0) num ctx fp \<and>
           fpos f1 = (case lookupFunc m0 name of None \<Rightarrow> None | Some f0 \<Rightarrow> fpos f0) \<and>
           lookupInst (modl (createHandler st (GlobalRef gn gt) name isSV n num ctx fp fn m))
             (nextId m0) = Some (forwardCall (nextId m0) num ctx fp) \<and>
           map fname (funcs (modl (createHandler st (GlobalRef gn gt) name isSV n num ctx fp
                                     fn m))) = map fname (funcs m)"
proof -
  let ?g = "GlobalRef gn gt"
  from existingHandler_free[OF ex] obtain t f where
    e0: "fn = FuncRef name t" "lookupFunc m name = Some f" "blocks f = []" "ftype f = fnType"
       "nextId m = nextId m0" "allInsts m = allInsts m0"
       "case lookupFunc m0 name of
              None \<Rightarrow> fpos f = None \<and> map fname (funcs m) = map fname (funcs m0) @ [name]
            | Some f0 \<Rightarrow> f = f0 \<and> m = m0"
    by (elim exE conjE) (rule that, assumption+)
  have e7: "fpos f = (case lookupFunc m0 name of None \<Rightarrow> None | Some f0 \<Rightarrow> fpos f0)"
    using e0(7) by (cases "lookupFunc m0 name") simp_all
  note e = e0(1-6) e7
  let ?m7 = "fillHandler fn name isSV num ctx fp m"
  let ?us = "getUses ?m7 ?g"
  let ?m8 = "snd (rewriteUses ?g num ?us (errs st, ?m7))"
  let ?c = "forwardCall (nextId m0) num ctx fp"
  let ?r = "plainInst (Suc (nextId m0)) Ret [] VoidTy"
  have md: "funcs (modl (createHandler st ?g name isSV n num ctx fp fn m)) = funcs ?m8"
    by (simp add: createHandler_def Let_def split_def)
  from rewriteUses_funcs[of ?g num ?us "errs st" ?m7] obtain \<sigma> where
    s: "funcs ?m8 = map (instMap (substInst \<sigma>)) (funcs ?m7)"
       "\<forall>x. (\<forall>u\<in>set ?us. IsAConstantExpr u \<longrightarrow> u \<notin> set (subterms x)) \<longrightarrow> \<sigma> x = x"
    by (elim exE conjE) (rule that, assumption+)
  have keep: "\<sigma> x = x" if "?g \<notin> set (subterms x)" for x
  proof -
    have "\<forall>u\<in>set ?us. IsAConstantExpr u \<longrightarrow> u \<notin> set (subterms x)"
    proof (intro ballI impI)
      fix u assume "u \<in> set ?us" "IsAConstantExpr u"
      then show "u \<notin> set (subterms x)" using that by (rule user_not_inside)
    qed
    then show ?thesis by (rule s(2)[THEN spec, THEN mp])
  qed
  from nm obtain ty where num: "num = CInt ty n" by (cases num) simp_all
  have k1: "\<sigma> num = num" by (rule keep) (simp add: num)
  have k2: "\<sigma> ctx = ctx" by (rule keep) (rule c1)
  have k3: "\<sigma> nullptr = nullptr" by (rule keep) (simp add: nullptr_def ConstNull_def)
  have k4: "\<sigma> fp = fp" by (rule keep) (rule c2)
  note k = k1 k2 k3 k4
  have call: "substInst \<sigma> ?c = ?c" and ret: "substInst \<sigma> ?r = ?r"
    by (simp_all add: substInst_def forwardCall_def plainInst_def k)
  have wf': "\<forall>x\<in>set (allInsts m). iid x < nextId m" using wf e(5,6) by simp
  have l7: "lookupFunc ?m7 name = Some (filled name isSV num ctx fp m f)"
    unfolding e(1) by (rule fillHandler_lookup[OF e(2)])
  have i7: "lookupInst ?m7 (nextId m0) = Some ?c"
    using fillHandler_lookupInst[OF e(2,3) wf', of t isSV num ctx fp] by (simp add: e(1,5))
  let ?f1 = "instMap (substInst \<sigma>) (filled name isSV num ctx fp m f)"
  have "lookupFunc ?m8 name = Some ?f1"
    using lookupFunc_instMap[OF s(1), of name] by (simp only: l7 option.map)
  then have l8: "lookupFunc (modl (createHandler st ?g name isSV n num ctx fp fn m)) name = Some ?f1"
    by (simp only: lookupFunc_def md)
  have i8: "lookupInst (modl (createHandler st ?g name isSV n num ctx fp fn m)) (nextId m0) =
      Some ?c"
  proof -
    have "lookupInst ?m8 (nextId m0) = map_option (substInst \<sigma>) (lookupInst ?m7 (nextId m0))"
      by (rule lookupInst_instMap[OF s(1)]) (simp add: substInst_def)
    with i7 call have "lookupInst ?m8 (nextId m0) = Some ?c" by (simp only: option.map)
    then show ?thesis by (simp only: lookupInst_def allInsts_def md)
  qed
  have "blocks ?f1 = map (\<lambda>b. (fst b, map (substInst \<sigma>) (snd b)))
                       (wrapperBody (nextId m0) num ctx fp)"
    by (simp add: instMap_def filled_blocks[OF e(3)] e(5))
  also have "\<dots> = wrapperBody (nextId m0) num ctx fp"
    unfolding wrapperBody_def by (simp add: call ret)
  finally have b1: "blocks ?f1 = wrapperBody (nextId m0) num ctx fp" .
  have t1: "ftype ?f1 = fnType" "fpos ?f1 = fpos f"
    by (simp_all add: instMap_def filled_def e(4))
  have n8: "map fname (funcs (modl (createHandler st ?g name isSV n num ctx fp fn m))) =
      map fname (funcs m)"
  proof -
    have "map fname (funcs ?m8) = map fname (funcs ?m7)"
      unfolding s(1) by (simp add: comp_def instMap_def)
    then show ?thesis by (simp only: md fillHandler_fnames)
  qed
  show ?thesis
  proof (intro exI conjI)
    show "lookupFunc (modl (createHandler st ?g name isSV n num ctx fp fn m)) name = Some ?f1"
      by (rule l8)
    show "ftype ?f1 = fnType" by (rule t1(1))
    show "blocks ?f1 = wrapperBody (nextId m0) num ctx fp" by (rule b1)
    show "fpos ?f1 = (case lookupFunc m0 name of None \<Rightarrow> None | Some f0 \<Rightarrow> fpos f0)"
      using t1(2) e(7) by simp
    show "lookupInst (modl (createHandler st ?g name isSV n num ctx fp fn m)) (nextId m0) =
      Some ?c" by (rule i8)
    show "map fname (funcs (modl (createHandler st ?g name isSV n num ctx fp fn m))) =
      map fname (funcs m)" by (rule n8)
  qed
qed

text \<open>Line 167, read on the first instruction of the function.\<close>

lemma identicalHandler_first:
  assumes f: "lookupFunc m name = Some f" and b: "blocks f = (bn, i # rest) # bs"
    and i: "lookupInst m (iid i) = Some i"
  shows "identicalHandler m (firstInstruction m (FuncRef name t)) fp num ctx =
           (iop i = Call \<and> length (operands i) = 4 \<and> last (operands i) = fp \<and>
            operands i ! 0 = num \<and> operands i ! 1 = ctx)"
  by (simp add: identicalHandler_def firstInstruction_def f b IsACallInst_def operandsOf_def i)

lemma identicalHandler_empty:
  assumes f: "lookupFunc m name = Some f" and b: "blocks f = (bn, []) # bs"
  shows "\<not> identicalHandler m (firstInstruction m (FuncRef name t)) fp num ctx"
  by (simp add: identicalHandler_def firstInstruction_def f b IsACallInst_def)

text \<open>
  Another handler object, in which the one being lowered does not occur, keeps its
  initializer.
\<close>

lemma find_filter_map_other:
  assumes "\<And>x. gname (h x) = gname x" and "bn \<noteq> gn"
  shows "find (\<lambda>x. gname x = bn) (filter (\<lambda>x. gname x \<noteq> gn) (map h gs)) =
           map_option h (find (\<lambda>x. gname x = bn) gs)"
  by (induction gs) (auto simp: assms)

lemma createHandler_initializer:
  assumes ex: "existingHandler m0 (GlobalRef gn gt) name num ctx fp = Inr (fn, m)"
    and init: "Initializer m0 (GlobalRef bn bt) = Some initializer"
    and other: "bn \<noteq> gn"
    and free: "GlobalRef gn gt \<notin> set (subterms initializer)"
  shows "Initializer (modl (createHandler st (GlobalRef gn gt) name isSV n num ctx fp fn m))
           (GlobalRef bn bt) = Some initializer"
proof -
  let ?g = "GlobalRef gn gt"
  let ?m7 = "fillHandler fn name isSV num ctx fp m"
  let ?us = "getUses ?m7 ?g"
  let ?m8 = "snd (rewriteUses ?g num ?us (errs st, ?m7))"
  from existingHandler_Inr[OF ex] have gm: "globs m = globs m0" by blast
  have md: "globs (modl (createHandler st ?g name isSV n num ctx fp fn m)) =
      filter (\<lambda>x. gname x \<noteq> gn) (globs ?m8)"
    by (simp add: createHandler_def Let_def split_def EraseFromParentAsGlobal_def)
  from rewriteUses_funcs[of ?g num ?us "errs st" ?m7] obtain \<sigma> where
    s: "globs ?m8 = map (\<lambda>x. x\<lparr>ginit := \<sigma> (ginit x)\<rparr>) (globs ?m7)"
       "\<forall>x. (\<forall>u\<in>set ?us. IsAConstantExpr u \<longrightarrow> u \<notin> set (subterms x)) \<longrightarrow> \<sigma> x = x"
    by (elim exE conjE) (rule that, assumption+)
  have "\<forall>u\<in>set ?us. IsAConstantExpr u \<longrightarrow> u \<notin> set (subterms initializer)"
  proof (intro ballI impI)
    fix u assume "u \<in> set ?us" "IsAConstantExpr u"
    then show "u \<notin> set (subterms initializer)" using free by (rule user_not_inside)
  qed
  then have keep: "\<sigma> initializer = initializer" by (rule s(2)[THEN spec, THEN mp])
  from init obtain b where b: "find (\<lambda>x. gname x = bn) (globs m0) = Some b"
    "ginit b = initializer"
    by (auto simp: lookupGlobal_def)
  have "find (\<lambda>x. gname x = bn)
          (filter (\<lambda>x. gname x \<noteq> gn) (map (\<lambda>x. x\<lparr>ginit := \<sigma> (ginit x)\<rparr>) (globs m0))) =
        Some (b\<lparr>ginit := \<sigma> (ginit b)\<rparr>)"
    using find_filter_map_other[of "\<lambda>x. x\<lparr>ginit := \<sigma> (ginit x)\<rparr>" bn gn "globs m0"] other b(1)
    by simp
  then show ?thesis
    by (simp add: lookupGlobal_def md s(1) gm b(2) keep)
qed

lemma existingHandler_when_free:
  assumes "lookupFunc m0 name = None \<or>
           (\<exists>f0. lookupFunc m0 name = Some f0 \<and> ftype f0 = fnType \<and> blocks f0 = [])"
  shows "\<exists>fn m. existingHandler m0 g name num ctx fp = Inr (fn, m)"
proof (cases "lookupFunc m0 name")
  case None
  then show ?thesis by (simp add: existingHandler_def NamedFunction_def AddFunction_def)
next
  case (Some f0)
  with assms have "ftype f0 = fnType" "blocks f0 = []" by auto
  then show ?thesis by (simp add: existingHandler_found[OF Some])
qed

lemma count_fresh:
  assumes "lookupFunc m0 name = None" and "map fname fs = map fname (funcs m0) @ [name]"
  shows "length (filter (\<lambda>f. fname f = name) fs) = 1"
proof -
  from assms(1) have "filter (\<lambda>n. n = name) (map fname (funcs m0)) = []"
    by (auto simp: lookupFunc_def find_None_iff filter_empty_conv)
  then have "filter (\<lambda>n. n = name) (map fname fs) = [name]" by (simp add: assms(2))
  then have "length (filter (\<lambda>n. n = name) (map fname fs)) = 1" by simp
  then show ?thesis by (simp add: filter_map comp_def)
qed

subsection \<open>The claims about interrupt lowering\<close>

text \<open>
  C3. A handler object is being processed, its name is resolved and its func value is
  valid. If a function of that name exists with another signature, a redeclaration
  error (different signature) is recorded and the object is skipped. If the function
  is defined and its first instruction is a call with four operands, the same called
  function, the same interrupt number and the same context, the object is skipped with
  no error and no change; if its first instruction is anything else, or its first
  block is empty, a redeclaration error is recorded, with the previous location when it
  is known, and the object is skipped.

  The wrapper that the pass creates passes this check. When an earlier iteration has
  created the function of that name for a handler object, the name being free or only
  declared until then, the function consists of the forwarding call and the return;
  a later handler object with the same function, number and context is then skipped
  with no error and no change, so that two identical handler objects yield one
  function, and a later handler object with another function, number or context gets
  the redeclaration error. Here the instructions of the module are numbered below its
  counter, and the context and the function of the earlier handler object do not refer
  to that handler object.
\<close>

theorem C3_existing_handler:
  assumes init: "Initializer (modl st) global = Some initializer"
    and num: "SExtValue (ConstExtractValue initializer [Suc 0, 0]) = Some n"
    and name: "resolveName hasSV handlerNames n = Some (name, isSV)"
    and fv: "extractFuncValue (modl st) global initializer =
               Inr (Inr (handlerContext, handlerFuncPtr))"
  shows "(lookupFunc (modl st) name = Some f \<and> ftype f \<noteq> fnType \<longrightarrow>
            lowerHandler hasSV handlerNames st global =
              Inr (st\<lparr>errs := errs st @
                     [ErrorAt global (name @ '' redeclared with a different signature'')]\<rparr>)) \<and>
         (lookupFunc (modl st) name = Some f \<and> ftype f = fnType \<and>
          blocks f = (bn, i # rest) # bs \<and> lookupInst (modl st) (iid i) = Some i \<longrightarrow>
            lowerHandler hasSV handlerNames st global =
              (if iop i = Call \<and> length (operands i) = 4 \<and>
                  last (operands i) = handlerFuncPtr \<and>
                  operands i ! 0 = ConstExtractValue initializer [Suc 0, 0] \<and>
                  operands i ! 1 = handlerContext
               then Inr st
               else Inr (st\<lparr>errs := errs st @
                      [ErrorAt global
                         (name @ '' redeclared in this program'' @
                          (case fpos f of
                             Some pos \<Rightarrow>
                               [CHR 0x0A, CHR 0x09] @ ''previous declaration at '' @ pos
                           | None \<Rightarrow> []))]\<rparr>))) \<and>
         (lookupFunc (modl st) name = Some f \<and> ftype f = fnType \<and>
          blocks f = (bn, []) # bs \<longrightarrow>
            lowerHandler hasSV handlerNames st global =
              Inr (st\<lparr>errs := errs st @
                     [ErrorAt global
                        (name @ '' redeclared in this program'' @
                         (case fpos f of
                            Some pos \<Rightarrow>
                              [CHR 0x0A, CHR 0x09] @ ''previous declaration at '' @ pos
                          | None \<Rightarrow> []))]\<rparr>)) \<and>
         (lowerHandler hasSV0 handlerNames0 st0 (GlobalRef gn gt) = Inr st \<and>
          Initializer (modl st0) (GlobalRef gn gt) = Some initializer0 \<and>
          SExtValue (ConstExtractValue initializer0 [Suc 0, 0]) = Some n0 \<and>
          resolveName hasSV0 handlerNames0 n0 = Some (name, isSV0) \<and>
          extractFuncValue (modl st0) (GlobalRef gn gt) initializer0 = Inr (Inr (ctx0, fp0)) \<and>
          (lookupFunc (modl st0) name = None \<or>
           (\<exists>f0. lookupFunc (modl st0) name = Some f0 \<and> ftype f0 = fnType \<and> blocks f0 = [])) \<and>
          (\<forall>x\<in>set (allInsts (modl st0)). iid x < nextId (modl st0)) \<and>
          GlobalRef gn gt \<notin> set (subterms ctx0) \<and> GlobalRef gn gt \<notin> set (subterms fp0) \<longrightarrow>
            (\<exists>f1. lookupFunc (modl st) name = Some f1 \<and>
                  blocks f1 = wrapperBody (nextId (modl st0))
                                (ConstExtractValue initializer0 [Suc 0, 0]) ctx0 fp0 \<and>
                  fpos f1 = (case lookupFunc (modl st0) name of
                               None \<Rightarrow> None | Some f0 \<Rightarrow> fpos f0) \<and>
                  (lookupFunc (modl st0) name = None \<longrightarrow>
                     length (filter (\<lambda>f. fname f = name) (funcs (modl st))) = 1) \<and>
                  lowerHandler hasSV handlerNames st global =
                    (if fp0 = handlerFuncPtr \<and>
                        ConstExtractValue initializer0 [Suc 0, 0] =
                          ConstExtractValue initializer [Suc 0, 0] \<and>
                        ctx0 = handlerContext
                     then Inr st
                     else Inr (st\<lparr>errs := errs st @
                            [ErrorAt global
                               (name @ '' redeclared in this program'' @
                                (case fpos f1 of
                                   Some pos \<Rightarrow>
                                     [CHR 0x0A, CHR 0x09] @ ''previous declaration at '' @ pos
                                 | None \<Rightarrow> []))]\<rparr>))))"
proof -
  let ?num = "ConstExtractValue initializer [Suc 0, 0]"
  note low = lowerHandler_reaches[OF init num name fv]
  have defined: "lowerHandler hasSV handlerNames st global =
      (if iop j = Call \<and> length (operands j) = 4 \<and> last (operands j) = handlerFuncPtr \<and>
          operands j ! 0 = ?num \<and> operands j ! 1 = handlerContext
       then Inr st
       else Inr (st\<lparr>errs := errs st @
              [ErrorAt global
                 (name @ '' redeclared in this program'' @
                  (case fpos h of
                     Some pos \<Rightarrow> [CHR 0x0A, CHR 0x09] @ ''previous declaration at '' @ pos
                   | None \<Rightarrow> []))]\<rparr>))"
    if h: "lookupFunc (modl st) name = Some h" "ftype h = fnType"
      "blocks h = (b, j # js) # more" "lookupInst (modl st) (iid j) = Some j" for h b j js more
    using h(2,3)
    by (simp add: low existingHandler_found[OF h(1)]
        identicalHandler_first[OF h(1) h(3) h(4)])
  have P1: "lookupFunc (modl st) name = Some f \<and> ftype f \<noteq> fnType \<longrightarrow>
            lowerHandler hasSV handlerNames st global =
              Inr (st\<lparr>errs := errs st @
                     [ErrorAt global (name @ '' redeclared with a different signature'')]\<rparr>)"
  proof
    assume a: "lookupFunc (modl st) name = Some f \<and> ftype f \<noteq> fnType"
    then have fn: "lookupFunc (modl st) name = Some f" by simp
    from a show "lowerHandler hasSV handlerNames st global =
              Inr (st\<lparr>errs := errs st @
                     [ErrorAt global (name @ '' redeclared with a different signature'')]\<rparr>)"
      by (simp add: low existingHandler_found[OF fn])
  qed
  have P2: "lookupFunc (modl st) name = Some f \<and> ftype f = fnType \<and>
          blocks f = (bn, i # rest) # bs \<and> lookupInst (modl st) (iid i) = Some i \<longrightarrow>
            lowerHandler hasSV handlerNames st global =
              (if iop i = Call \<and> length (operands i) = 4 \<and>
                  last (operands i) = handlerFuncPtr \<and>
                  operands i ! 0 = ?num \<and> operands i ! 1 = handlerContext
               then Inr st
               else Inr (st\<lparr>errs := errs st @
                      [ErrorAt global
                         (name @ '' redeclared in this program'' @
                          (case fpos f of
                             Some pos \<Rightarrow>
                               [CHR 0x0A, CHR 0x09] @ ''previous declaration at '' @ pos
                           | None \<Rightarrow> []))]\<rparr>))"
    using defined[of f bn i rest bs] by blast
  have P2b: "lookupFunc (modl st) name = Some f \<and> ftype f = fnType \<and>
          blocks f = (bn, []) # bs \<longrightarrow>
            lowerHandler hasSV handlerNames st global =
              Inr (st\<lparr>errs := errs st @
                     [ErrorAt global
                        (name @ '' redeclared in this program'' @
                         (case fpos f of
                            Some pos \<Rightarrow>
                              [CHR 0x0A, CHR 0x09] @ ''previous declaration at '' @ pos
                          | None \<Rightarrow> []))]\<rparr>)"
  proof
    assume a: "lookupFunc (modl st) name = Some f \<and> ftype f = fnType \<and>
          blocks f = (bn, []) # bs"
    then have fn: "lookupFunc (modl st) name = Some f" and b: "blocks f = (bn, []) # bs"
      by simp_all
    from a show "lowerHandler hasSV handlerNames st global =
              Inr (st\<lparr>errs := errs st @
                     [ErrorAt global
                        (name @ '' redeclared in this program'' @
                         (case fpos f of
                            Some pos \<Rightarrow>
                              [CHR 0x0A, CHR 0x09] @ ''previous declaration at '' @ pos
                          | None \<Rightarrow> []))]\<rparr>)"
      by (simp add: low existingHandler_found[OF fn] identicalHandler_empty[OF fn b])
  qed
  have P3: "\<exists>f1. lookupFunc (modl st) name = Some f1 \<and>
                  blocks f1 = wrapperBody (nextId (modl st0))
                                (ConstExtractValue initializer0 [Suc 0, 0]) ctx0 fp0 \<and>
                  fpos f1 = (case lookupFunc (modl st0) name of
                               None \<Rightarrow> None | Some f0 \<Rightarrow> fpos f0) \<and>
                  (lookupFunc (modl st0) name = None \<longrightarrow>
                     length (filter (\<lambda>f. fname f = name) (funcs (modl st))) = 1) \<and>
                  lowerHandler hasSV handlerNames st global =
                    (if fp0 = handlerFuncPtr \<and>
                        ConstExtractValue initializer0 [Suc 0, 0] = ?num \<and>
                        ctx0 = handlerContext
                     then Inr st
                     else Inr (st\<lparr>errs := errs st @
                            [ErrorAt global
                               (name @ '' redeclared in this program'' @
                                (case fpos f1 of
                                   Some pos \<Rightarrow>
                                     [CHR 0x0A, CHR 0x09] @ ''previous declaration at '' @ pos
                                 | None \<Rightarrow> []))]\<rparr>))"
    if first: "lowerHandler hasSV0 handlerNames0 st0 (GlobalRef gn gt) = Inr st"
      and init0: "Initializer (modl st0) (GlobalRef gn gt) = Some initializer0"
      and num0: "SExtValue (ConstExtractValue initializer0 [Suc 0, 0]) = Some n0"
      and name0: "resolveName hasSV0 handlerNames0 n0 = Some (name, isSV0)"
      and fv0: "extractFuncValue (modl st0) (GlobalRef gn gt) initializer0 =
                  Inr (Inr (ctx0, fp0))"
      and free: "lookupFunc (modl st0) name = None \<or>
           (\<exists>f0. lookupFunc (modl st0) name = Some f0 \<and> ftype f0 = fnType \<and> blocks f0 = [])"
      and wf: "\<forall>x\<in>set (allInsts (modl st0)). iid x < nextId (modl st0)"
      and c1: "GlobalRef gn gt \<notin> set (subterms ctx0)"
      and c2: "GlobalRef gn gt \<notin> set (subterms fp0)"
  proof -
    let ?g = "GlobalRef gn gt"
    let ?nb = "ConstExtractValue initializer0 [Suc 0, 0]"
    let ?k = "nextId (modl st0)"
    from existingHandler_when_free[OF free] obtain fn m where
      ex: "existingHandler (modl st0) ?g name ?nb ctx0 fp0 = Inr (fn, m)" by blast
    have st: "st = createHandler st0 ?g name isSV0 n0 ?nb ctx0 fp0 fn m"
      using first by (simp add: lowerHandler_reaches[OF init0 num0 name0 fv0] ex)
    from createHandler_wrapper[OF ex wf num0 c1 c2, of st0 isSV0] obtain f1 where
      w: "lookupFunc (modl st) name = Some f1" "ftype f1 = fnType"
         "blocks f1 = wrapperBody ?k ?nb ctx0 fp0"
         "fpos f1 = (case lookupFunc (modl st0) name of None \<Rightarrow> None | Some f0 \<Rightarrow> fpos f0)"
         "lookupInst (modl st) ?k = Some (forwardCall ?k ?nb ctx0 fp0)"
         "map fname (funcs (modl st)) = map fname (funcs m)"
      unfolding st[symmetric] by (elim exE conjE) (rule that, assumption+)
    have b: "blocks f1 = (''entry'', forwardCall ?k ?nb ctx0 fp0 #
                                      [plainInst (Suc ?k) Ret [] VoidTy]) # []"
      by (simp add: w(3) wrapperBody_def)
    have li: "lookupInst (modl st) (iid (forwardCall ?k ?nb ctx0 fp0)) =
                Some (forwardCall ?k ?nb ctx0 fp0)"
      by (simp add: w(5) forwardCall_def plainInst_def)
    have one: "length (filter (\<lambda>f. fname f = name) (funcs (modl st))) = 1"
      if none: "lookupFunc (modl st0) name = None"
    proof -
      from existingHandler_free[OF ex] none
      have "map fname (funcs m) = map fname (funcs (modl st0)) @ [name]" by auto
      with w(6) have "map fname (funcs (modl st)) = map fname (funcs (modl st0)) @ [name]"
        by simp
      with none show ?thesis by (rule count_fresh)
    qed
    have low2: "lowerHandler hasSV handlerNames st global =
        (if fp0 = handlerFuncPtr \<and> ?nb = ?num \<and> ctx0 = handlerContext
         then Inr st
         else Inr (st\<lparr>errs := errs st @
                [ErrorAt global
                   (name @ '' redeclared in this program'' @
                    (case fpos f1 of
                       Some pos \<Rightarrow> [CHR 0x0A, CHR 0x09] @ ''previous declaration at '' @ pos
                     | None \<Rightarrow> []))]\<rparr>))"
    proof -
      let ?c = "forwardCall ?k ?nb ctx0 fp0"
      have cond: "(iop ?c = Call \<and> length (operands ?c) = 4 \<and>
           last (operands ?c) = handlerFuncPtr \<and> operands ?c ! 0 = ?num \<and>
           operands ?c ! 1 = handlerContext) =
          (fp0 = handlerFuncPtr \<and> ?nb = ?num \<and> ctx0 = handlerContext)"
        by (simp add: forwardCall_def plainInst_def)
      from defined[OF w(1) w(2) b li] show ?thesis by (simp only: cond)
    qed
    show ?thesis
    proof (intro exI conjI impI)
      show "lookupFunc (modl st) name = Some f1" by (rule w(1))
      show "blocks f1 = wrapperBody ?k ?nb ctx0 fp0" by (rule w(3))
      show "fpos f1 = (case lookupFunc (modl st0) name of None \<Rightarrow> None | Some f0 \<Rightarrow> fpos f0)"
        by (rule w(4))
      show "length (filter (\<lambda>f. fname f = name) (funcs (modl st))) = 1"
        if "lookupFunc (modl st0) name = None" using that by (rule one)
      show "lowerHandler hasSV handlerNames st global =
        (if fp0 = handlerFuncPtr \<and> ?nb = ?num \<and> ctx0 = handlerContext
         then Inr st
         else Inr (st\<lparr>errs := errs st @
                [ErrorAt global
                   (name @ '' redeclared in this program'' @
                    (case fpos f1 of
                       Some pos \<Rightarrow> [CHR 0x0A, CHR 0x09] @ ''previous declaration at '' @ pos
                     | None \<Rightarrow> []))]\<rparr>))" by (rule low2)
    qed
  qed
  show ?thesis
  proof (intro conjI)
    show "lookupFunc (modl st) name = Some f \<and> ftype f \<noteq> fnType \<longrightarrow>
            lowerHandler hasSV handlerNames st global =
              Inr (st\<lparr>errs := errs st @
                     [ErrorAt global (name @ '' redeclared with a different signature'')]\<rparr>)"
      by (rule P1)
  next
    show "lookupFunc (modl st) name = Some f \<and> ftype f = fnType \<and>
          blocks f = (bn, i # rest) # bs \<and> lookupInst (modl st) (iid i) = Some i \<longrightarrow>
            lowerHandler hasSV handlerNames st global =
              (if iop i = Call \<and> length (operands i) = 4 \<and>
                  last (operands i) = handlerFuncPtr \<and>
                  operands i ! 0 = ?num \<and> operands i ! 1 = handlerContext
               then Inr st
               else Inr (st\<lparr>errs := errs st @
                      [ErrorAt global
                         (name @ '' redeclared in this program'' @
                          (case fpos f of
                             Some pos \<Rightarrow>
                               [CHR 0x0A, CHR 0x09] @ ''previous declaration at '' @ pos
                           | None \<Rightarrow> []))]\<rparr>))"
      by (rule P2)
  next
    show "lookupFunc (modl st) name = Some f \<and> ftype f = fnType \<and>
          blocks f = (bn, []) # bs \<longrightarrow>
            lowerHandler hasSV handlerNames st global =
              Inr (st\<lparr>errs := errs st @
                     [ErrorAt global
                        (name @ '' redeclared in this program'' @
                         (case fpos f of
                            Some pos \<Rightarrow>
                              [CHR 0x0A, CHR 0x09] @ ''previous declaration at '' @ pos
                          | None \<Rightarrow> []))]\<rparr>)"
      by (rule P2b)
  next
    show "lowerHandler hasSV0 handlerNames0 st0 (GlobalRef gn gt) = Inr st \<and>
          Initializer (modl st0) (GlobalRef gn gt) = Some initializer0 \<and>
          SExtValue (ConstExtractValue initializer0 [Suc 0, 0]) = Some n0 \<and>
          resolveName hasSV0 handlerNames0 n0 = Some (name, isSV0) \<and>
          extractFuncValue (modl st0) (GlobalRef gn gt) initializer0 = Inr (Inr (ctx0, fp0)) \<and>
          (lookupFunc (modl st0) name = None \<or>
           (\<exists>f0. lookupFunc (modl st0) name = Some f0 \<and> ftype f0 = fnType \<and> blocks f0 = [])) \<and>
          (\<forall>x\<in>set (allInsts (modl st0)). iid x < nextId (modl st0)) \<and>
          GlobalRef gn gt \<notin> set (subterms ctx0) \<and> GlobalRef gn gt \<notin> set (subterms fp0) \<longrightarrow>
            (\<exists>f1. lookupFunc (modl st) name = Some f1 \<and>
                  blocks f1 = wrapperBody (nextId (modl st0))
                                (ConstExtractValue initializer0 [Suc 0, 0]) ctx0 fp0 \<and>
                  fpos f1 = (case lookupFunc (modl st0) name of
                               None \<Rightarrow> None | Some f0 \<Rightarrow> fpos f0) \<and>
                  (lookupFunc (modl st0) name = None \<longrightarrow>
                     length (filter (\<lambda>f. fname f = name) (funcs (modl st))) = 1) \<and>
                  lowerHandler hasSV handlerNames st global =
                    (if fp0 = handlerFuncPtr \<and>
                        ConstExtractValue initializer0 [Suc 0, 0] = ?num \<and>
                        ctx0 = handlerContext
                     then Inr st
                     else Inr (st\<lparr>errs := errs st @
                            [ErrorAt global
                               (name @ '' redeclared in this program'' @
                                (case fpos f1 of
                                   Some pos \<Rightarrow>
                                     [CHR 0x0A, CHR 0x09] @ ''previous declaration at '' @ pos
                                 | None \<Rightarrow> []))]\<rparr>)))"
    proof (intro impI, elim conjE)
      assume "lowerHandler hasSV0 handlerNames0 st0 (GlobalRef gn gt) = Inr st"
        "Initializer (modl st0) (GlobalRef gn gt) = Some initializer0"
        "SExtValue (ConstExtractValue initializer0 [Suc 0, 0]) = Some n0"
        "resolveName hasSV0 handlerNames0 n0 = Some (name, isSV0)"
        "extractFuncValue (modl st0) (GlobalRef gn gt) initializer0 = Inr (Inr (ctx0, fp0))"
        "lookupFunc (modl st0) name = None \<or>
           (\<exists>f0. lookupFunc (modl st0) name = Some f0 \<and> ftype f0 = fnType \<and> blocks f0 = [])"
        "\<forall>x\<in>set (allInsts (modl st0)). iid x < nextId (modl st0)"
        "GlobalRef gn gt \<notin> set (subterms ctx0)" "GlobalRef gn gt \<notin> set (subterms fp0)"
      then show "\<exists>f1. lookupFunc (modl st) name = Some f1 \<and>
                  blocks f1 = wrapperBody (nextId (modl st0))
                                (ConstExtractValue initializer0 [Suc 0, 0]) ctx0 fp0 \<and>
                  fpos f1 = (case lookupFunc (modl st0) name of
                               None \<Rightarrow> None | Some f0 \<Rightarrow> fpos f0) \<and>
                  (lookupFunc (modl st0) name = None \<longrightarrow>
                     length (filter (\<lambda>f. fname f = name) (funcs (modl st))) = 1) \<and>
                  lowerHandler hasSV handlerNames st global =
                    (if fp0 = handlerFuncPtr \<and>
                        ConstExtractValue initializer0 [Suc 0, 0] = ?num \<and>
                        ctx0 = handlerContext
                     then Inr st
                     else Inr (st\<lparr>errs := errs st @
                            [ErrorAt global
                               (name @ '' redeclared in this program'' @
                                (case fpos f1 of
                                   Some pos \<Rightarrow>
                                     [CHR 0x0A, CHR 0x09] @ ''previous declaration at '' @ pos
                                 | None \<Rightarrow> []))]\<rparr>))"
        by (rule P3)
    qed
  qed
qed

theorem C3_existing_handler_witness:
  "(\<exists>st f1.
      lowerHandler False uartNames (lowState tripleModule) (GlobalRef ''a'' (PtrTy handleType)) =
        Inr st \<and>
      lookupFunc (modl st) ''UART_IRQ'' = Some f1 \<and>
      blocks f1 = wrapperBody 0 (CInt (IntTy 32) 3) (CNull i8ptrType)
                    (FuncRef ''h'' handlerPtrType) \<and>
      length (filter (\<lambda>f. fname f = ''UART_IRQ'') (funcs (modl st))) = 1 \<and>
      lowerHandler False uartNames st (GlobalRef ''b'' (PtrTy handleType)) = Inr st \<and>
      lowerHandler False uartNames st (GlobalRef ''c'' (PtrTy handleType)) =
        Inr (st\<lparr>errs := errs st @
               [ErrorAt (GlobalRef ''c'' (PtrTy handleType))
                  ''UART_IRQ redeclared in this program'']\<rparr>)) \<and>
   lowerHandler False uartNames (lowState clashModule) (GlobalRef ''a'' (PtrTy handleType)) =
     Inr ((lowState clashModule)
            \<lparr>errs := [ErrorAt (GlobalRef ''a'' (PtrTy handleType))
                        ''UART_IRQ redeclared with a different signature'']\<rparr>)"
proof -
  let ?st0 = "lowState tripleModule"
  let ?a = "GlobalRef ''a'' (PtrTy handleType)"
  let ?b = "GlobalRef ''b'' (PtrTy handleType)"
  let ?c = "GlobalRef ''c'' (PtrTy handleType)"
  let ?ia = "ginit (descriptor ''a'' 3 ''h'')"
  let ?ib = "ginit (descriptor ''b'' 3 ''h'')"
  let ?ic = "ginit (descriptor ''c'' 3 ''k'')"
  let ?n = "CInt (IntTy 32) 3"
  let ?ctx = "CNull i8ptrType"
  let ?h = "FuncRef ''h'' handlerPtrType"
  have name: "resolveName False uartNames 3 = Some (''UART_IRQ'', False)"
    by (simp add: resolveName_def uartNames_def)
  have inita: "Initializer (modl ?st0) ?a = Some ?ia"
    and initb0: "Initializer (modl ?st0) ?b = Some ?ib"
    and initc0: "Initializer (modl ?st0) ?c = Some ?ic"
    by (simp_all add: lowState_def tripleModule_def lookupGlobal_def descriptor_def)
  have num: "SExtValue (ConstExtractValue (ginit (descriptor x 3 y)) [Suc 0, 0]) = Some 3"
    for x y by (simp add: descriptor_fields)
  have none: "lookupFunc (modl ?st0) ''UART_IRQ'' = None"
    by (simp add: lowState_def tripleModule_def lookupFunc_def)
  then have free: "lookupFunc (modl ?st0) ''UART_IRQ'' = None \<or>
       (\<exists>f0. lookupFunc (modl ?st0) ''UART_IRQ'' = Some f0 \<and> ftype f0 = fnType \<and>
             blocks f0 = [])"
    by simp
  have wf: "\<forall>x\<in>set (allInsts (modl ?st0)). iid x < nextId (modl ?st0)"
    by (simp add: lowState_def tripleModule_def allInsts_def)
  have k: "nextId (modl ?st0) = 0" by (simp add: lowState_def tripleModule_def)
  have c1: "?a \<notin> set (subterms ?ctx)" and c2: "?a \<notin> set (subterms ?h)"
    by simp_all
  have inb: "?a \<notin> set (subterms ?ib)" and inc: "?a \<notin> set (subterms ?ic)"
    by (simp_all add: descriptor_def)
  from existingHandler_when_free[OF free] obtain fn m where
    ex: "existingHandler (modl ?st0) ?a ''UART_IRQ'' (ConstExtractValue ?ia [Suc 0, 0]) ?ctx ?h =
           Inr (fn, m)"
    by blast
  define st where "st = createHandler ?st0 ?a ''UART_IRQ'' False 3
                          (ConstExtractValue ?ia [Suc 0, 0]) ?ctx ?h fn m"
  have first: "lowerHandler False uartNames ?st0 ?a = Inr st"
    by (simp add: lowerHandler_reaches[OF inita num name descriptor_funcValue] ex st_def)
  have initb: "Initializer (modl st) ?b = Some ?ib"
    unfolding st_def by (rule createHandler_initializer[OF ex initb0 _ inb]) simp
  have initc: "Initializer (modl st) ?c = Some ?ic"
    unfolding st_def by (rule createHandler_initializer[OF ex initc0 _ inc]) simp
  have pre: "lowerHandler False uartNames ?st0 ?a = Inr st \<and>
          Initializer (modl ?st0) ?a = Some ?ia \<and>
          SExtValue (ConstExtractValue ?ia [Suc 0, 0]) = Some 3 \<and>
          resolveName False uartNames 3 = Some (''UART_IRQ'', False) \<and>
          extractFuncValue (modl ?st0) ?a ?ia = Inr (Inr (?ctx, ?h)) \<and>
          (lookupFunc (modl ?st0) ''UART_IRQ'' = None \<or>
           (\<exists>f0. lookupFunc (modl ?st0) ''UART_IRQ'' = Some f0 \<and> ftype f0 = fnType \<and>
                 blocks f0 = [])) \<and>
          (\<forall>x\<in>set (allInsts (modl ?st0)). iid x < nextId (modl ?st0)) \<and>
          ?a \<notin> set (subterms ?ctx) \<and> ?a \<notin> set (subterms ?h)"
    using first inita num name descriptor_funcValue free wf c1 c2 by (intro conjI)
  note dup = C3_existing_handler[where ?st0.0 = ?st0 and gn = "''a''" and gt = "PtrTy handleType"
      and ?initializer0.0 = ?ia and ?n0.0 = 3
      and ?hasSV0.0 = False and ?handlerNames0.0 = uartNames and ?isSV0.0 = False
      and ?ctx0.0 = ?ctx and ?fp0.0 = ?h,
      THEN conjunct2, THEN conjunct2, THEN conjunct2, THEN mp, OF _ _ _ _ pre]
  from dup[OF initb num name descriptor_funcValue]
  obtain f1 where b: "lookupFunc (modl st) ''UART_IRQ'' = Some f1"
    "blocks f1 = wrapperBody 0 ?n ?ctx ?h"
    "length (filter (\<lambda>f. fname f = ''UART_IRQ'') (funcs (modl st))) = 1"
    "lowerHandler False uartNames st ?b = Inr st"
    using none by (auto simp: descriptor_fields k)
  from dup[OF initc num name descriptor_funcValue]
  have c: "lowerHandler False uartNames st ?c =
     Inr (st\<lparr>errs := errs st @ [ErrorAt ?c ''UART_IRQ redeclared in this program'']\<rparr>)"
    using none by (auto simp: descriptor_fields handlerPtrType_def)
  let ?s = "lowState clashModule"
  have inis: "Initializer (modl ?s) ?a = Some ?ia"
    by (simp add: lowState_def clashModule_def lookupGlobal_def descriptor_def)
  have fs: "lookupFunc (modl ?s) ''UART_IRQ'' =
      Some (funcDecl ''UART_IRQ'' (FuncTy VoidTy [IntTy 32] False)) \<and>
      ftype (funcDecl ''UART_IRQ'' (FuncTy VoidTy [IntTy 32] False)) \<noteq> fnType"
    by (simp add: lowState_def clashModule_def lookupFunc_def funcDecl_def fnType_def)
  from C3_existing_handler[OF inis num name descriptor_funcValue, THEN conjunct1, THEN mp, OF fs]
  have d: "lowerHandler False uartNames ?s ?a =
     Inr (?s\<lparr>errs := [ErrorAt ?a ''UART_IRQ redeclared with a different signature'']\<rparr>)"
    by (simp add: lowState_def)
  from first b c d show ?thesis by blast
qed

text \<open>
  C4. Where the dispatcher \<open>runtime.callInterruptHandler\<close> exists and takes the
  interrupt number as its first parameter, dispatcher synthesis returns, and appends
  to the dispatcher exactly these blocks: an entry block holding one switch over that
  parameter, whose default is the second block and whose cases are the recorded
  interrupt numbers, each once, in ascending order, the case for a number leading to
  that number's block; a default block that only returns; and one block for each
  number, in the same order, that calls the wrapper recorded for the number and
  returns. The dispatcher gets internal linkage and an unnamed address.
\<close>

theorem C4_dispatcher:
  assumes f: "lookupFunc m dispatcherName = Some f"
    and ty: "ftype f = FuncTy r (p # ps) va"
  shows "\<exists>m' f'.
     createDispatcher sv m = Inr m' \<and>
     lookupFunc m' dispatcherName = Some f' \<and>
     flinkage f' = InternalLinkage \<and> unnamedAddr f' \<and>
     drop (length (blocks f)) (blocks f') =
       (''entry'',
        [switchInst (nextId m)
           ([Param dispatcherName 0 p, BlockRef dispatcherName (Suc (length (blocks f)))] @
            caseOperands p dispatcherName (length (blocks f) + 2)
              (sort (remdups (map fst sv))))]) #
       (''default'',
        [plainInst (Suc (nextId m) + 2 * length (sort (remdups (map fst sv)))) Ret [] VoidTy]) #
       caseBlocks sv (Suc (nextId m)) (sort (remdups (map fst sv))) \<and>
     sorted (sort (remdups (map fst sv))) \<and> distinct (sort (remdups (map fst sv))) \<and>
     set (sort (remdups (map fst sv))) = fst ` set sv"
proof -
  let ?D = dispatcherName
  let ?ids = "sort (remdups (map fst sv))"
  let ?k = "length (blocks f)"
  let ?N = "nextId m"
  let ?disp = "FuncRef ?D (PtrTy (ftype f))"
  let ?iv = "Param ?D 0 p"
  have fn: "fname f = ?D" by (rule lookupFunc_fname[OF f])
  have nf: "NamedFunction m ''runtime.callInterruptHandler'' = ?disp"
    using f by (simp add: NamedFunction_def dispatcherName_def)
  define m1 where "m1 = snd (AddBasicBlock ?disp ''entry'' m)"
  define m2 where "m2 = snd (AddBasicBlock ?disp ''default'' m1)"
  define m3 where "m3 = snd (CreateSwitch (BlockRef ?D ?k) ?iv (BlockRef ?D (Suc ?k)) m2)"
  have eb: "fst (AddBasicBlock ?disp ''entry'' m) = BlockRef ?D ?k"
    using f by (simp add: AddBasicBlock_def)
  have l1: "lookupFunc m1 ?D = Some (f\<lparr>blocks := blocks f @ [(''entry'', [])]\<rparr>)"
    using f by (simp add: m1_def AddBasicBlock_def lookupFunc_updFunc_same)
  have db: "fst (AddBasicBlock ?disp ''default'' m1) = BlockRef ?D (Suc ?k)"
    using l1 by (simp add: AddBasicBlock_def)
  have l2: "lookupFunc m2 ?D =
      Some (f\<lparr>blocks := blocks f @ [(''entry'', []), (''default'', [])]\<rparr>)"
    using l1 by (simp add: m2_def AddBasicBlock_def lookupFunc_updFunc_same)
  have n2: "nextId m2 = ?N"
    by (simp add: m2_def m1_def AddBasicBlock_def)
  have par: "paramOf ?disp 0 = Some ?iv" using ty by simp
  have sw: "fst (CreateSwitch (BlockRef ?D ?k) ?iv (BlockRef ?D (Suc ?k)) m2) = Reg ?N VoidTy"
    by (simp add: CreateSwitch_def buildAtEnd_def n2)
  have l3: "lookupFunc m3 ?D =
      Some (f\<lparr>blocks := blocks f @
              [(''entry'', [switchInst ?N [?iv, BlockRef ?D (Suc ?k)]]), (''default'', [])]\<rparr>)"
    using l2
    by (simp add: m3_def CreateSwitch_def buildAtEnd_def lookupFunc_updFunc_same n2
        appendToBlock_def nth_append switchInst_def plainInst_def)
  have n3: "nextId m3 = Suc ?N"
    by (simp add: m3_def CreateSwitch_def buildAtEnd_def n2)
  let ?g3 = "f\<lparr>blocks := blocks f @
              [(''entry'', [switchInst ?N [?iv, BlockRef ?D (Suc ?k)]]), (''default'', [])]\<rparr>"
  have shape3: "drop ?k (blocks ?g3) =
      (''entry'', [switchInst ?N [?iv, BlockRef ?D (Suc ?k)]]) # (''default'', []) # []"
    by simp
  have len3: "length (blocks ?g3) = ?k + 2 + length ([] :: (string \<times> inst list) list)"
    by simp
  have fresh3: "\<forall>b\<in>set ((''default'', []) # ([] :: (string \<times> inst list) list)).
                  \<forall>x\<in>set (snd b). iid x \<noteq> ?N"
    by simp
  have N3: "?N < nextId m3" by (simp add: n3)
  from dispatchLoop[OF map_of_keys[of sv] l3 shape3 len3 fresh3 N3, of "PtrTy (ftype f)" ?iv VoidTy]
  obtain m4 g4 where
    loop: "foldCrash (dispatchCase ?disp ?iv (Reg ?N VoidTy) sv) ?ids m3 = Inr m4" and
    l4: "lookupFunc m4 ?D = Some g4" and
    shape4: "drop ?k (blocks g4) =
       (''entry'', [switchInst ?N ([?iv, BlockRef ?D (Suc ?k)] @
                       caseOperands p ?D (?k + 2) ?ids)])
         # (''default'', []) # caseBlocks sv (Suc ?N) ?ids" and
    len4: "length (blocks g4) = ?k + 2 + length ?ids" and
    n4: "nextId m4 = Suc ?N + 2 * length ?ids" and
    fn4: "fname g4 = ?D"
    using fn by (auto simp: n3)
  define m5 where "m5 = CreateRetVoid (BlockRef ?D (Suc ?k)) m4"
  let ?ret = "plainInst (Suc ?N + 2 * length ?ids) Ret [] VoidTy"
  have at1: "blocks g4 ! Suc ?k = (''default'', [])"
  proof -
    have "blocks g4 ! (?k + 1) = drop ?k (blocks g4) ! 1"
      using len4 by (simp add: nth_drop)
    then show ?thesis by (simp add: shape4)
  qed
  let ?g5 = "g4\<lparr>blocks := (blocks g4)[Suc ?k := (''default'', [?ret])]\<rparr>"
  have l5: "lookupFunc m5 ?D = Some ?g5"
    using l4 len4 at1
    by (simp add: m5_def CreateRetVoid_def buildAtEnd_def lookupFunc_updFunc_same
        appendToBlock_def n4 plainInst_def)
  have shape5: "drop ?k (blocks ?g5) =
       (''entry'', [switchInst ?N ([?iv, BlockRef ?D (Suc ?k)] @
                       caseOperands p ?D (?k + 2) ?ids)])
         # (''default'', [?ret]) # caseBlocks sv (Suc ?N) ?ids"
  proof -
    have "drop ?k ((blocks g4)[Suc ?k := (''default'', [?ret])]) =
            (drop ?k (blocks g4))[Suc ?k - ?k := (''default'', [?ret])]"
      by (rule drop_update_swap) simp
    then show ?thesis by (simp add: shape4)
  qed
  let ?m' = "SetUnnamedAddr ?disp True (SetLinkage ?disp InternalLinkage m5)"
  let ?f' = "?g5\<lparr>flinkage := InternalLinkage, unnamedAddr := True\<rparr>"
  have l': "lookupFunc ?m' ?D = Some ?f'"
    using l5 by (simp add: SetUnnamedAddr_def SetLinkage_def lookupFunc_updFunc_same)
  have run: "createDispatcher sv m = Inr ?m'"
    unfolding createDispatcher_def nf
    by (simp add: Let_def split_def eb db par sw orCrash_def m1_def[symmetric]
        m2_def[symmetric] m3_def[symmetric] loop m5_def[symmetric])
  have "drop ?k (blocks ?f') = drop ?k (blocks ?g5)" by simp
  with shape5 have shape': "drop ?k (blocks ?f') =
       (''entry'', [switchInst ?N ([?iv, BlockRef ?D (Suc ?k)] @
                       caseOperands p ?D (?k + 2) ?ids)])
         # (''default'', [?ret]) # caseBlocks sv (Suc ?N) ?ids" by simp
  have attr: "flinkage ?f' = InternalLinkage" "unnamedAddr ?f'" by simp_all
  from run l' attr shape' sorted_ids[of sv] show ?thesis by blast
qed

theorem C4_dispatcher_witness:
  "\<exists>m' f'.
     createDispatcher vectorTable vectorModule = Inr m' \<and>
     lookupFunc m' dispatcherName = Some f' \<and>
     flinkage f' = InternalLinkage \<and> unnamedAddr f' \<and>
     blocks f' =
       [(''entry'',
         [switchInst 0
            [Param dispatcherName 0 i32, BlockRef dispatcherName 1,
             CInt i32 1, BlockRef dispatcherName 2,
             CInt i32 3, BlockRef dispatcherName 3,
             CInt i32 7, BlockRef dispatcherName 4]]),
        (''default'', [plainInst 7 Ret [] VoidTy]),
        (''interrupt1'',
         [plainInst 1 Call [FuncRef ''runtime/interrupt.interruptHandler1'' (PtrTy fnType)] VoidTy,
          plainInst 2 Ret [] VoidTy]),
        (''interrupt3'',
         [plainInst 3 Call [FuncRef ''runtime/interrupt.interruptHandler3'' (PtrTy fnType)] VoidTy,
          plainInst 4 Ret [] VoidTy]),
        (''interrupt7'',
         [plainInst 5 Call [FuncRef ''runtime/interrupt.interruptHandler7'' (PtrTy fnType)] VoidTy,
          plainInst 6 Ret [] VoidTy])]"
proof -
  let ?f = "funcDecl ''runtime.callInterruptHandler'' dispatcherType"
  have f: "lookupFunc vectorModule dispatcherName = Some ?f"
    by (simp add: lookupFunc_def vectorModule_def dispatcherName_def funcDecl_def)
  have ty: "ftype ?f = FuncTy VoidTy [i32] False"
    by (simp add: funcDecl_def dispatcherType_def)
  have ids: "sort (remdups (map fst vectorTable)) = [1, 3, 7]"
    by (simp add: vectorTable_def)
  have nb: "blocks ?f = []" "nextId vectorModule = 0"
    by (simp_all add: funcDecl_def vectorModule_def)
  from C4_dispatcher[OF f ty, of vectorTable] show ?thesis
    unfolding ids nb
    by (simp add: ConstInt_small caseBlock_def FormatInt_3 FormatInt_1_7 vectorTable_def
        fnType_def eval_nat_numeral)
       blast
qed

text \<open>
  C8. A handler object whose interrupt number has no entry in the name table: when the
  module requires software vectoring, the name is the placeholder built from the
  number, which no other number yields, the handler is marked software vectored, and
  once the object has passed the checks of its func value and of an existing function
  of that name, the wrapper function gets internal linkage and is recorded in the
  software vector table under the number. Otherwise an error naming the number is
  recorded and the object is skipped with nothing else changed.
\<close>

theorem C8_unnamed_interrupt:
  assumes init: "Initializer (modl st) global = Some initializer"
    and num: "SExtValue (ConstExtractValue initializer [Suc 0, 0]) = Some n"
    and noname: "handlerNames n = None"
  shows "(\<forall>k. placeholderName k = placeholderName n \<longrightarrow> k = n) \<and>
     (if hasSoftwareVectoring then
        resolveName hasSoftwareVectoring handlerNames n = Some (placeholderName n, True) \<and>
        (\<forall>ctx fp fn m.
           extractFuncValue (modl st) global initializer = Inr (Inr (ctx, fp)) \<longrightarrow>
           existingHandler (modl st) global (placeholderName n)
             (ConstExtractValue initializer [Suc 0, 0]) ctx fp = Inr (fn, m) \<longrightarrow>
           (\<exists>st' f. lowerHandler hasSoftwareVectoring handlerNames st global = Inr st' \<and>
               map_of (softwareVector st') n = Some fn \<and>
               funcName fn = placeholderName n \<and>
               lookupFunc (modl st') (placeholderName n) = Some f \<and>
               flinkage f = InternalLinkage))
      else
        lowerHandler hasSoftwareVectoring handlerNames st global =
          Inr (st\<lparr>errs := errs st @
                 [ErrorAt global (''cannot find interrupt name for number '' @ FormatInt n)]\<rparr>))"
proof (intro conjI)
  show "\<forall>k. placeholderName k = placeholderName n \<longrightarrow> k = n"
    using placeholderName_inj by blast
  show "if hasSoftwareVectoring then
        resolveName hasSoftwareVectoring handlerNames n = Some (placeholderName n, True) \<and>
        (\<forall>ctx fp fn m.
           extractFuncValue (modl st) global initializer = Inr (Inr (ctx, fp)) \<longrightarrow>
           existingHandler (modl st) global (placeholderName n)
             (ConstExtractValue initializer [Suc 0, 0]) ctx fp = Inr (fn, m) \<longrightarrow>
           (\<exists>st' f. lowerHandler hasSoftwareVectoring handlerNames st global = Inr st' \<and>
               map_of (softwareVector st') n = Some fn \<and>
               funcName fn = placeholderName n \<and>
               lookupFunc (modl st') (placeholderName n) = Some f \<and>
               flinkage f = InternalLinkage))
      else
        lowerHandler hasSoftwareVectoring handlerNames st global =
          Inr (st\<lparr>errs := errs st @
                 [ErrorAt global (''cannot find interrupt name for number '' @ FormatInt n)]\<rparr>)"
  proof (cases hasSoftwareVectoring)
    case False
    then show ?thesis
      using init num noname
      by (simp add: lowerHandler_def orCrash_def resolveName_def Let_def)
  next
    case True
    have rn: "resolveName hasSoftwareVectoring handlerNames n = Some (placeholderName n, True)"
      using True noname by (simp add: resolveName_def)
    have "\<exists>st' f. lowerHandler hasSoftwareVectoring handlerNames st global = Inr st' \<and>
               map_of (softwareVector st') n = Some fn \<and>
               funcName fn = placeholderName n \<and>
               lookupFunc (modl st') (placeholderName n) = Some f \<and>
               flinkage f = InternalLinkage"
      if fv: "extractFuncValue (modl st) global initializer = Inr (Inr (ctx, fp))"
        and ex: "existingHandler (modl st) global (placeholderName n)
             (ConstExtractValue initializer [Suc 0, 0]) ctx fp = Inr (fn, m)"
      for ctx fp fn m
    proof -
      let ?num = "ConstExtractValue initializer [Suc 0, 0]"
      let ?name = "placeholderName n"
      from existingHandler_Inr[OF ex] obtain t f0 where
        fn: "fn = FuncRef ?name t" and f0: "lookupFunc m ?name = Some f0" by blast
      let ?st' = "createHandler st global ?name True n ?num ctx fp fn m"
      have run: "lowerHandler hasSoftwareVectoring handlerNames st global = Inr ?st'"
        by (simp add: lowerHandler_reaches[OF init num rn fv] ex)
      from createHandler_lookup[OF f0, of st global True n ?num ctx fp t] obtain h where
        h: "keeps h"
        "lookupFunc (modl ?st') ?name = Some (h (filled ?name True ?num ctx fp m f0))"
        unfolding fn by blast
      have "flinkage (h (filled ?name True ?num ctx fp m f0)) = InternalLinkage"
        using h(1) by (simp add: keeps_def filled_def)
      moreover have "map_of (softwareVector ?st') n = Some fn"
        by (simp add: createHandler_softwareVector map_of_mapSet)
      ultimately show ?thesis using run h(2) fn by auto
    qed
    with True rn show ?thesis by simp
  qed
qed

theorem C8_unnamed_interrupt_witness:
  "(\<exists>st' f.
      lowerHandler True Map.empty (lowState storeModule) (GlobalRef ''a'' (PtrTy handleType)) =
        Inr st' \<and>
      map_of (softwareVector st') 3 =
        Some (FuncRef ''runtime/interrupt.interruptHandler3'' (PtrTy fnType)) \<and>
      lookupFunc (modl st') ''runtime/interrupt.interruptHandler3'' = Some f \<and>
      flinkage f = InternalLinkage) \<and>
   lowerHandler False Map.empty (lowState storeModule) (GlobalRef ''a'' (PtrTy handleType)) =
     Inr ((lowState storeModule)
            \<lparr>errs := [ErrorAt (GlobalRef ''a'' (PtrTy handleType))
                        ''cannot find interrupt name for number 3'']\<rparr>)"
proof -
  let ?st = "lowState storeModule"
  let ?a = "GlobalRef ''a'' (PtrTy handleType)"
  let ?fn = "FuncRef ''runtime/interrupt.interruptHandler3'' (PtrTy fnType)"
  have num: "SExtValue (ConstExtractValue (ginit (descriptor ''a'' 3 ''h'')) [Suc 0, 0]) = Some 3"
    by (simp add: descriptor_fields)
  have noname: "(Map.empty :: int \<rightharpoonup> string) 3 = None" by simp
  have ph: "placeholderName 3 = ''runtime/interrupt.interruptHandler3''"
    by (simp add: placeholderName_def FormatInt_3)
  have ex: "existingHandler (modl ?st) ?a (placeholderName 3)
      (ConstExtractValue (ginit (descriptor ''a'' 3 ''h'')) [Suc 0, 0])
      (CNull i8ptrType) (FuncRef ''h'' handlerPtrType) =
      Inr (?fn, snd (AddFunction (modl ?st) ''runtime/interrupt.interruptHandler3'' fnType))"
    unfolding ph by (simp add: storeModule_fresh(1) AddFunction_def)
  from C8_unnamed_interrupt[OF storeModule_init num noname, of True]
  have "\<exists>st' f. lowerHandler True Map.empty ?st ?a = Inr st' \<and>
      map_of (softwareVector st') 3 = Some ?fn \<and>
      funcName ?fn = placeholderName 3 \<and>
      lookupFunc (modl st') (placeholderName 3) = Some f \<and> flinkage f = InternalLinkage"
    using descriptor_funcValue[of "modl ?st" ?a "''a''" 3 "''h''"] ex by simp
  moreover from C8_unnamed_interrupt[OF storeModule_init num noname, of False]
  have "lowerHandler False Map.empty ?st ?a =
     Inr (?st\<lparr>errs := errs ?st @
            [ErrorAt ?a (''cannot find interrupt name for number '' @ FormatInt 3)]\<rparr>)"
    by simp
  ultimately show ?thesis
    unfolding ph by (simp add: FormatInt_3 lowState_def)
qed

text \<open>
  C10. A handler object that has passed the checks, one of whose uses is not a
  \<open>ptrtoint\<close> constant expression: the iteration records the internal error for it and
  still removes the handler object from the module and keeps the wrapper function it
  has just filled in; the module is changed.
\<close>

theorem C10_non_ptrtoint_use:
  assumes init: "Initializer (modl st) (GlobalRef gn gt) = Some initializer"
    and num: "SExtValue (ConstExtractValue initializer [Suc 0, 0]) = Some n"
    and name: "resolveName hasSV handlerNames n = Some (name, isSV)"
    and fv: "extractFuncValue (modl st) (GlobalRef gn gt) initializer = Inr (Inr (ctx, fp))"
    and ex: "existingHandler (modl st) (GlobalRef gn gt) name
               (ConstExtractValue initializer [Suc 0, 0]) ctx fp = Inr (fn, m)"
    and use: "u \<in> set (getUses (modl st) (GlobalRef gn gt))"
    and notp: "\<not> IsAConstantExpr u \<or> Opcode u \<noteq> Some PtrToInt"
  shows "\<exists>st' es f.
     lowerHandler hasSV handlerNames st (GlobalRef gn gt) = Inr st' \<and>
     errs st' = errs st @ es \<and>
     ErrorAt (GlobalRef gn gt) ''internal error: expected a ptrtoint'' \<in> set es \<and>
     gn \<notin> gname ` set (globs (modl st')) \<and>
     lookupFunc (modl st') name = Some f \<and> blocks f \<noteq> [] \<and>
     modl st' \<noteq> modl st"
proof -
  let ?g = "GlobalRef gn gt"
  let ?num = "ConstExtractValue initializer [Suc 0, 0]"
  from existingHandler_Inr[OF ex] obtain t f0 where
    fn: "fn = FuncRef name t" and f0: "lookupFunc m name = Some f0" and
    same: "globs m = globs (modl st)" "nextId m = nextId (modl st)"
          "allInsts m = allInsts (modl st)"
    by blast
  let ?st' = "createHandler st ?g name isSV n ?num ctx fp fn m"
  let ?m7 = "fillHandler fn name isSV ?num ctx fp m"
  let ?es = "map (\<lambda>u. ErrorAt ?g ''internal error: expected a ptrtoint'')
       (filter (\<lambda>u. \<not> IsAConstantExpr u \<or> Opcode u \<noteq> Some PtrToInt) (getUses ?m7 ?g))"
  have run: "lowerHandler hasSV handlerNames st ?g = Inr ?st'"
    by (simp add: lowerHandler_reaches[OF init num name fv] ex)
  have "set (getUses (modl st) ?g) \<subseteq> set (getUses m ?g)"
    by (rule getUses_mono) (simp_all add: same)
  moreover have "set (getUses m ?g) \<subseteq> set (getUses ?m7 ?g)"
    unfolding fn by (rule getUses_mono) (simp_all add: fillHandler_allInsts)
  ultimately have "u \<in> set (getUses ?m7 ?g)" using use by blast
  with notp have err: "ErrorAt ?g ''internal error: expected a ptrtoint'' \<in> set ?es"
    by auto
  have errs: "errs ?st' = errs st @ ?es" by (rule createHandler_errs)
  have gone: "gn \<notin> gname ` set (globs (modl ?st'))"
    by (simp add: createHandler_globs)
  from createHandler_lookup[OF f0, of st ?g isSV n ?num ctx fp t] obtain h where
    h: "keeps h" "lookupFunc (modl ?st') name = Some (h (filled name isSV ?num ctx fp m f0))"
    unfolding fn by blast
  have def: "blocks (h (filled name isSV ?num ctx fp m f0)) \<noteq> []"
    by (rule keeps_blocks[OF h(1)]) (simp add: filled_def)
  have "nextId (modl ?st') = Suc (Suc (nextId (modl st)))"
    unfolding fn by (simp add: createHandler_nextId same)
  then have changed: "modl ?st' \<noteq> modl st" by auto
  from run errs err gone h(2) def changed show ?thesis by blast
qed

theorem C10_non_ptrtoint_use_witness:
  "\<exists>st' f.
     lowerHandler False uartNames (lowState storeModule) (GlobalRef ''a'' (PtrTy handleType)) =
       Inr st' \<and>
     ErrorAt (GlobalRef ''a'' (PtrTy handleType)) ''internal error: expected a ptrtoint''
       \<in> set (errs st') \<and>
     ''a'' \<notin> gname ` set (globs (modl st')) \<and>
     lookupFunc (modl st') ''UART_IRQ'' = Some f \<and> blocks f \<noteq> [] \<and>
     modl st' \<noteq> storeModule"
proof -
  let ?st = "lowState storeModule"
  let ?a = "GlobalRef ''a'' (PtrTy handleType)"
  have num: "SExtValue (ConstExtractValue (ginit (descriptor ''a'' 3 ''h'')) [Suc 0, 0]) = Some 3"
    by (simp add: descriptor_fields)
  have name: "resolveName False uartNames 3 = Some (''UART_IRQ'', False)"
    by (simp add: resolveName_def uartNames_def)
  have ex: "existingHandler (modl ?st) ?a ''UART_IRQ''
      (ConstExtractValue (ginit (descriptor ''a'' 3 ''h'')) [Suc 0, 0])
      (CNull i8ptrType) (FuncRef ''h'' handlerPtrType) =
      Inr (FuncRef ''UART_IRQ'' (PtrTy fnType),
           snd (AddFunction (modl ?st) ''UART_IRQ'' fnType))"
    by (simp add: storeModule_fresh(2) AddFunction_def)
  have nn: "?a \<noteq> NilValue" by simp
  have use: "Reg 0 VoidTy \<in> set (getUses (modl ?st) ?a)"
    unfolding set_getUses[OF nn]
    by (rule UnI1, rule UnI1)
       (simp add: lowState_def storeModule_def allInsts_def funcInsts_def funcDecl_def
         plainInst_def)
  have notp: "\<not> IsAConstantExpr (Reg 0 VoidTy) \<or> Opcode (Reg 0 VoidTy) \<noteq> Some PtrToInt"
    by simp
  from C10_non_ptrtoint_use[OF storeModule_init num name descriptor_funcValue ex use notp]
  show ?thesis by (auto simp: lowState_def)
qed

subsection \<open>The module after a full run\<close>




end
